(* ===== verification/Go_Prelude.thy ===== *)
theory Go_Prelude
  imports Main "HOL-Library.Word" "HOL-Library.AList" "HOL-Library.Sublist" "HOL-Library.Multiset"
begin

text \<open>
  Shared vocabulary of the development: Go's 64-bit integers, instants and durations,
  byte strings with the functions of package \<open>strings\<close> that the worker calls, maps with
  zero-value reads, and the "skip what was seen before" loop that several components repeat.

  An instant is the number of nanoseconds since Go's zero time, so \<open>IsZero\<close> is equality
  with 0. A duration is an \<open>int64\<close> number of nanoseconds. Strings are byte strings
  (\<open>char list\<close>), as in Go.
\<close>

named_theorems go_defs \<open>definitions of Go's durations and of the operations on instants\<close>

section \<open>64-bit integers, instants and durations\<close>

definition wrap64 :: "int \<Rightarrow> int" where
  "wrap64 x = (x + 2 ^ 63) mod 2 ^ 64 - 2 ^ 63"

definition int64_range :: "int \<Rightarrow> bool" where
  "int64_range i \<longleftrightarrow> - (2 ^ 63) \<le> i \<and> i < 2 ^ 63"

lemma int64_range_0 [simp]: "int64_range 0"
  by (simp add: int64_range_def)

lemma wrap64_id: "int64_range x \<Longrightarrow> wrap64 x = x"
  by (simp add: wrap64_def int64_range_def)

lemma wrap64_range [simp]: "int64_range (wrap64 x)"
proof -
  have "(x + 2 ^ 63) mod 2 ^ 64 < (2 ^ 64 :: int)" by simp
  then show ?thesis by (simp add: wrap64_def int64_range_def)
qed

type_synonym instant = int
type_synonym duration = int

definition go_microsecond :: duration where "go_microsecond = 1000"
definition go_millisecond :: duration where "go_millisecond = 1000000"
definition go_second :: duration where "go_second = 1000000000"
definition go_minute :: duration where "go_minute = 60 * go_second"

lemmas go_units [go_defs] = go_microsecond_def go_millisecond_def go_second_def go_minute_def

text \<open>\<open>t.Sub(u)\<close> saturates at the largest and the smallest duration.\<close>

definition max_duration :: duration where "max_duration = 2 ^ 63 - 1"
definition min_duration :: duration where "min_duration = - (2 ^ 63)"

definition time_sub :: "instant \<Rightarrow> instant \<Rightarrow> duration" where
  "time_sub t u = min max_duration (max min_duration (t - u))"

definition time_add :: "instant \<Rightarrow> duration \<Rightarrow> instant" where
  "time_add t d = t + d"

definition time_after :: "instant \<Rightarrow> instant \<Rightarrow> bool" where
  "time_after t u \<longleftrightarrow> u < t"

definition time_before :: "instant \<Rightarrow> instant \<Rightarrow> bool" where
  "time_before t u \<longleftrightarrow> t < u"

definition time_is_zero :: "instant \<Rightarrow> bool" where
  "time_is_zero t \<longleftrightarrow> t = 0"

text \<open>\<open>time.Duration(n) * time.Second\<close> multiplies two \<open>int64\<close> values.\<close>

definition seconds :: "int \<Rightarrow> duration" where
  "seconds n = wrap64 (n * go_second)"

lemmas go_time_defs [go_defs] = time_sub_def time_add_def time_after_def time_before_def
  time_is_zero_def max_duration_def min_duration_def

lemma seconds_exact: "0 \<le> n \<Longrightarrow> n \<le> 9223372036 \<Longrightarrow> seconds n = n * 1000000000"
  unfolding seconds_def by (subst wrap64_id) (auto simp: go_second_def int64_range_def)

lemma seconds_range [simp]: "int64_range (seconds n)"
  by (simp add: seconds_def)

text \<open>Below the largest duration a saturated difference compares like the exact one.\<close>

lemma time_sub_less_iff: "d \<le> max_duration \<Longrightarrow> min_duration < d \<Longrightarrow> time_sub t u < d \<longleftrightarrow> t - u < d"
  by (auto simp: time_sub_def min_def max_def)

lemma time_sub_pos_iff: "0 < time_sub t u \<longleftrightarrow> u < t"
  by (auto simp: time_sub_def max_duration_def min_duration_def)

lemma time_sub_nonneg: "u \<le> t \<Longrightarrow> 0 \<le> time_sub t u"
  by (simp add: time_sub_def max_duration_def min_duration_def)

section \<open>Maps with zero-value reads\<close>

text \<open>
  Go's \<open>m[k]\<close> yields the zero value for an absent key. Maps are association lists with
  distinct keys, so that their keys can be enumerated; the order of the list carries no
  meaning and nothing below depends on it.
\<close>

type_synonym ('k, 'v) gomap = "('k \<times> 'v) list"

definition map_read :: "'v \<Rightarrow> ('k, 'v) gomap \<Rightarrow> 'k \<Rightarrow> 'v" where
  "map_read z m k = (case map_of m k of None \<Rightarrow> z | Some v \<Rightarrow> v)"

definition map_write :: "'k \<Rightarrow> 'v \<Rightarrow> ('k, 'v) gomap \<Rightarrow> ('k, 'v) gomap" where
  "map_write k v m = AList.update k v m"

definition map_keys :: "('k, 'v) gomap \<Rightarrow> 'k set" where
  "map_keys m = fst ` set m"

definition map_ok :: "('k, 'v) gomap \<Rightarrow> bool" where
  "map_ok m \<longleftrightarrow> distinct (map fst m)"

lemma map_of_write [simp]: "map_of (map_write k v m) = (map_of m)(k \<mapsto> v)"
  by (simp add: map_write_def update_conv')

lemma map_read_empty [simp]: "map_read z [] k = z"
  by (simp add: map_read_def)

lemma map_read_write [simp]: "map_read z (map_write k v m) k' = (if k' = k then v else map_read z m k')"
  by (simp add: map_read_def)

lemma map_keys_write [simp]: "map_keys (map_write k v m) = insert k (map_keys m)"
  by (simp add: map_keys_def map_write_def dom_update dom_map_of_conv_image_fst [symmetric])
     (simp add: update_conv')

lemma map_ok_empty [simp]: "map_ok []"
  by (simp add: map_ok_def)

lemma map_ok_write [simp]: "map_ok m \<Longrightarrow> map_ok (map_write k v m)"
  by (simp add: map_ok_def map_write_def distinct_update)

section \<open>Keeping the first of each key\<close>

text \<open>
  The loop with a set \<open>seen\<close> that skips every element whose key was met before.
\<close>

fun keep_first :: "('a \<Rightarrow> 'k) \<Rightarrow> 'k set \<Rightarrow> 'a list \<Rightarrow> 'a list" where
  "keep_first key seen [] = []"
| "keep_first key seen (x # xs) =
     (if key x \<in> seen then keep_first key seen xs
      else x # keep_first key (insert (key x) seen) xs)"

lemma keep_first_keys: "key ` set (keep_first key seen xs) = key ` set xs - seen"
  by (induction xs arbitrary: seen) auto

lemma keep_first_subset: "set (keep_first key seen xs) \<subseteq> set xs"
  by (induction xs arbitrary: seen) (auto split: if_splits)

lemma keep_first_distinct: "distinct (map key (keep_first key seen xs))"
proof (induction xs arbitrary: seen)
  case (Cons x xs)
  have "key x \<notin> set (map key (keep_first key (insert (key x) seen) xs))"
    using keep_first_keys [of key "insert (key x) seen" xs] by auto
  with Cons show ?case by simp
qed simp

lemma keep_first_subseq: "subseq (keep_first key seen xs) xs"
  by (induction xs arbitrary: seen) auto

lemma keep_first_length: "length (keep_first key seen xs) \<le> length xs"
  by (rule list_emb_length) (rule keep_first_subseq)

lemma keep_first_id: "distinct (map key xs) \<Longrightarrow> key ` set xs \<inter> seen = {} \<Longrightarrow> keep_first key seen xs = xs"
  by (induction xs arbitrary: seen) auto

text \<open>What is kept for a key is the first element that has it.\<close>

lemma keep_first_find:
  "k \<notin> seen \<Longrightarrow> find (\<lambda>x. key x = k) (keep_first key seen xs) = find (\<lambda>x. key x = k) xs"
  by (induction xs arbitrary: seen) auto

end
