(* ===== verification/Go_Strings.thy ===== *)
theory Go_Strings
  imports Go_Prelude
begin

text \<open>
  The functions of Go's package \<open>strings\<close> that the worker calls, on byte strings.

  \<open>trim_space\<close> is exact: Go removes every leading and trailing Unicode white space rune,
  and these are the listed UTF-8 encodings. \<open>to_lower\<close> and \<open>to_upper\<close> map the ASCII
  letters and the few other letters whose lower or upper case is ASCII: what they give is exact
  wherever it is ASCII. A letter whose case variants are all outside ASCII keeps its case.
\<close>

section \<open>White space and trimming\<close>

definition go_spaces :: "string list" where
  "go_spaces =
     [[CHR 0x09], [CHR 0x0A], [CHR 0x0B], [CHR 0x0C], [CHR 0x0D], [CHR 0x20],
      [CHR 0xC2, CHR 0x85], [CHR 0xC2, CHR 0xA0], [CHR 0xE1, CHR 0x9A, CHR 0x80],
      [CHR 0xE2, CHR 0x80, CHR 0x80], [CHR 0xE2, CHR 0x80, CHR 0x81],
      [CHR 0xE2, CHR 0x80, CHR 0x82], [CHR 0xE2, CHR 0x80, CHR 0x83],
      [CHR 0xE2, CHR 0x80, CHR 0x84], [CHR 0xE2, CHR 0x80, CHR 0x85],
      [CHR 0xE2, CHR 0x80, CHR 0x86], [CHR 0xE2, CHR 0x80, CHR 0x87],
      [CHR 0xE2, CHR 0x80, CHR 0x88], [CHR 0xE2, CHR 0x80, CHR 0x89],
      [CHR 0xE2, CHR 0x80, CHR 0x8A], [CHR 0xE2, CHR 0x80, CHR 0xA8],
      [CHR 0xE2, CHR 0x80, CHR 0xA9], [CHR 0xE2, CHR 0x80, CHR 0xAF],
      [CHR 0xE2, CHR 0x81, CHR 0x9F], [CHR 0xE3, CHR 0x80, CHR 0x80]]"

text \<open>Remove the given non-empty blocks from the front for as long as one of them is there.\<close>

fun starts_with_one :: "string list \<Rightarrow> string \<Rightarrow> nat" where
  "starts_with_one [] s = 0"
| "starts_with_one (p # ps) s = (if prefix p s then length p else starts_with_one ps s)"

lemma starts_with_one_le: "starts_with_one ps s \<le> length s"
  by (induction ps) (auto dest: prefix_length_le)

function strip_front :: "string list \<Rightarrow> string \<Rightarrow> string" where
  "strip_front ps s =
     (let n = starts_with_one ps s in if n = 0 then s else strip_front ps (drop n s))"
  by pat_completeness auto
termination
proof (relation "measure (\<lambda>(ps, s). length s)")
  fix ps :: "string list" and s :: string and n :: nat
  assume "n = starts_with_one ps s" "n \<noteq> 0"
  with starts_with_one_le [of ps s] show "((ps, drop n s), ps, s) \<in> measure (\<lambda>(ps, s). length s)"
    by auto
qed simp

declare strip_front.simps [simp del]

definition trim_left :: "string \<Rightarrow> string" where
  "trim_left s = strip_front go_spaces s"

definition trim_right :: "string \<Rightarrow> string" where
  "trim_right s = rev (strip_front (map rev go_spaces) (rev s))"

definition trim_space :: "string \<Rightarrow> string" where
  "trim_space s = trim_right (trim_left s)"

lemma strip_front_suffix: "suffix (strip_front ps s) s"
proof (induction ps s rule: strip_front.induct)
  case (1 ps s)
  show ?case
  proof (cases "starts_with_one ps s = 0")
    case True
    then show ?thesis by (simp add: strip_front.simps [of ps s])
  next
    case False
    with 1 have "suffix (strip_front ps (drop (starts_with_one ps s) s)) (drop (starts_with_one ps s) s)"
      by simp
    with False show ?thesis
      by (simp add: strip_front.simps [of ps s] Let_def) (metis suffix_drop suffix_order.order_trans)
  qed
qed

lemma strip_front_stops: "starts_with_one ps (strip_front ps s) = 0"
proof (induction ps s rule: strip_front.induct)
  case (1 ps s)
  then show ?case by (cases "starts_with_one ps s = 0") (simp_all add: strip_front.simps [of ps s] Let_def)
qed

lemma strip_front_fixed: "starts_with_one ps s = 0 \<Longrightarrow> strip_front ps s = s"
  by (simp add: strip_front.simps [of ps s])

lemma strip_front_idem [simp]: "strip_front ps (strip_front ps s) = strip_front ps s"
  by (rule strip_front_fixed) (rule strip_front_stops)

lemma starts_with_one_Nil: "starts_with_one ps [] = 0"
  using starts_with_one_le [of ps "[]"] by simp

lemma strip_front_Nil [simp]: "strip_front ps [] = []"
  by (simp add: strip_front_fixed starts_with_one_Nil)

lemma trim_left_Nil [simp]: "trim_left [] = []"
  by (simp add: trim_left_def)

lemma trim_right_Nil [simp]: "trim_right [] = []"
  by (simp add: trim_right_def)

lemma trim_space_Nil [simp]: "trim_space [] = []"
  by (simp add: trim_space_def)

lemma trim_right_prefix: "prefix (trim_right s) s"
  using strip_front_suffix [of "map rev go_spaces" "rev s"]
  by (simp add: trim_right_def suffix_to_prefix)

lemma length_trim_space: "length (trim_space s) \<le> length s"
proof -
  have "length (trim_right (trim_left s)) \<le> length (trim_left s)"
    by (rule prefix_length_le) (rule trim_right_prefix)
  also have "\<dots> \<le> length s"
    unfolding trim_left_def by (rule suffix_length_le) (rule strip_front_suffix)
  finally show ?thesis by (simp add: trim_space_def)
qed

lemma set_trim_space: "set (trim_space s) \<subseteq> set s"
proof -
  have "set (trim_right (trim_left s)) \<subseteq> set (trim_left s)"
    by (rule set_mono_prefix) (rule trim_right_prefix)
  also have "\<dots> \<subseteq> set s"
    unfolding trim_left_def by (rule set_mono_suffix) (rule strip_front_suffix)
  finally show ?thesis by (simp add: trim_space_def)
qed

text \<open>Trimming twice is trimming once.\<close>

lemma starts_with_one_0: "[] \<notin> set ps \<Longrightarrow> starts_with_one ps s = 0 \<longleftrightarrow> (\<forall>p \<in> set ps. \<not> prefix p s)"
  by (induction ps) auto

lemma go_spaces_nonempty: "[] \<notin> set go_spaces" "[] \<notin> set (map rev go_spaces)"
  by (simp_all add: go_spaces_def)

lemma starts_with_one_prefix:
  assumes "[] \<notin> set ps" "prefix t s" "starts_with_one ps s = 0"
  shows "starts_with_one ps t = 0"
  using assms by (auto simp: starts_with_one_0 dest: prefix_order.trans)

lemma trim_space_idem [simp]: "trim_space (trim_space s) = trim_space s"
proof -
  let ?l = "trim_left s"
  have "starts_with_one go_spaces ?l = 0"
    by (simp add: trim_left_def strip_front_stops)
  then have "starts_with_one go_spaces (trim_right ?l) = 0"
    by (rule starts_with_one_prefix [OF go_spaces_nonempty(1) trim_right_prefix])
  then have "trim_left (trim_right ?l) = trim_right ?l"
    unfolding trim_left_def by (rule strip_front_fixed)
  then show ?thesis
    by (simp add: trim_space_def) (simp add: trim_right_def)
qed

text \<open>Text whose bytes are all printable ASCII is left alone.\<close>

definition printable :: "char \<Rightarrow> bool" where
  "printable c \<longleftrightarrow> 32 < (of_char c :: nat) \<and> (of_char c :: nat) < 127"

lemma go_spaces_not_printable:
  "p \<in> set go_spaces \<Longrightarrow> \<not> printable (hd p)" "p \<in> set (map rev go_spaces) \<Longrightarrow> \<not> printable (hd p)"
  by (auto simp: go_spaces_def printable_def)

lemma strip_front_printable:
  assumes "\<forall>p \<in> set ps. p \<noteq> [] \<and> \<not> printable (hd p)" "\<forall>c \<in> set s. printable c"
  shows "strip_front ps s = s"
proof (rule strip_front_fixed)
  have "\<not> prefix p s" if "p \<in> set ps" for p
  proof
    assume "prefix p s"
    with assms(1) that have "hd p \<in> set s" by (auto simp: prefix_def)
    with assms that show False by blast
  qed
  moreover have "[] \<notin> set ps" using assms(1) by blast
  ultimately show "starts_with_one ps s = 0" by (simp add: starts_with_one_0)
qed

lemma trim_space_printable: "\<forall>c \<in> set s. printable c \<Longrightarrow> trim_space s = s"
proof -
  assume s: "\<forall>c \<in> set s. printable c"
  have "\<forall>p \<in> set go_spaces. p \<noteq> [] \<and> \<not> printable (hd p)"
    "\<forall>p \<in> set (map rev go_spaces). p \<noteq> [] \<and> \<not> printable (hd p)"
    using go_spaces_not_printable go_spaces_nonempty by blast+
  with s show "trim_space s = s"
    by (simp add: trim_space_def trim_left_def trim_right_def strip_front_printable)
qed

text \<open>White space around a text that neither starts nor ends with white space is removed.\<close>

definition prefix_free :: "string list \<Rightarrow> bool" where
  "prefix_free ps \<longleftrightarrow> (\<forall>p \<in> set ps. \<forall>q \<in> set ps. prefix p q \<longrightarrow> p = q)"

lemma go_spaces_prefix_free: "prefix_free go_spaces" "prefix_free (map rev go_spaces)"
  by (simp_all add: prefix_free_def go_spaces_def)

lemma starts_with_one_block:
  assumes "p \<in> set ps" "prefix_free ps"
  shows "starts_with_one ps (p @ s) = length p"
proof -
  have "starts_with_one qs (p @ s) = length p" if "p \<in> set qs" "set qs \<subseteq> set ps" for qs
    using that
  proof (induction qs)
    case (Cons q qs)
    show ?case
    proof (cases "prefix q (p @ s)")
      case True
      then have "prefix q p \<or> prefix p q" by (meson prefix_def prefix_same_cases prefixI)
      with Cons.prems assms have "q = p" by (auto simp: prefix_free_def)
      then show ?thesis by simp
    next
      case False
      then have "q \<noteq> p" by auto
      with Cons False show ?thesis by auto
    qed
  qed simp
  with assms show ?thesis by blast
qed

lemma strip_front_blocks:
  assumes "prefix_free ps" "[] \<notin> set ps" "set bs \<subseteq> set ps"
  shows "strip_front ps (concat bs @ s) = strip_front ps s"
  using assms(3)
proof (induction bs)
  case (Cons b bs)
  then have "starts_with_one ps (b @ concat bs @ s) = length b"
    using assms starts_with_one_block [of b ps "concat bs @ s"] by simp
  moreover have "length b \<noteq> 0" using Cons.prems assms(2) by auto
  ultimately show ?case
    using Cons by (simp add: strip_front.simps [of ps "b @ concat bs @ s"])
qed simp

lemma starts_with_one_printable:
  assumes "\<forall>p \<in> set ps. p \<noteq> [] \<and> \<not> printable (hd p)" "s \<noteq> []" "printable (hd s)"
  shows "starts_with_one ps s = 0"
proof -
  have "\<not> prefix p s" if "p \<in> set ps" for p
    using assms that by (cases p; cases s) auto
  moreover have "[] \<notin> set ps" using assms(1) by blast
  ultimately show ?thesis by (simp add: starts_with_one_0)
qed

lemma go_spaces_blocks:
  "\<forall>p \<in> set go_spaces. p \<noteq> [] \<and> \<not> printable (hd p)"
  "\<forall>p \<in> set (map rev go_spaces). p \<noteq> [] \<and> \<not> printable (hd p)"
  using go_spaces_not_printable go_spaces_nonempty by blast+

lemma trim_space_pad:
  assumes "set bs \<subseteq> set go_spaces" "set cs \<subseteq> set go_spaces" "s \<noteq> []" "\<forall>c \<in> set s. printable c"
  shows "trim_space (concat bs @ s @ concat cs) = s"
proof -
  have "printable (hd (s @ concat cs))" using assms(3,4) by simp
  then have "starts_with_one go_spaces (s @ concat cs) = 0"
    using assms(3) by (intro starts_with_one_printable [OF go_spaces_blocks(1)]) auto
  then have "trim_left (concat bs @ s @ concat cs) = s @ concat cs"
    unfolding trim_left_def
    by (simp add: strip_front_blocks [OF go_spaces_prefix_free(1) go_spaces_nonempty(1) assms(1)] strip_front_fixed)
  moreover have "trim_right (s @ concat cs) = trim_right s"
    using strip_front_blocks [OF go_spaces_prefix_free(2) go_spaces_nonempty(2), of "map rev (rev cs)" "rev s"] assms(2)
    by (auto simp: trim_right_def rev_concat rev_map)
  moreover have "printable (hd (rev s))" using assms(3,4) by (simp add: hd_rev)
  then have "strip_front (map rev go_spaces) (rev s) = rev s"
    using assms(3) by (intro strip_front_fixed starts_with_one_printable [OF go_spaces_blocks(2)]) auto
  then have "trim_right s = s" by (simp add: trim_right_def)
  ultimately show ?thesis by (simp add: trim_space_def)
qed

text \<open>\<open>strings.Trim(s, cutset)\<close> for a one-byte cutset.\<close>

definition trim_byte :: "char \<Rightarrow> string \<Rightarrow> string" where
  "trim_byte c s = rev (dropWhile (\<lambda>x. x = c) (rev (dropWhile (\<lambda>x. x = c) s)))"

definition trim_right_byte :: "char \<Rightarrow> string \<Rightarrow> string" where
  "trim_right_byte c s = rev (dropWhile (\<lambda>x. x = c) (rev s))"

definition trim_bytes :: "char set \<Rightarrow> string \<Rightarrow> string" where
  "trim_bytes cs s = rev (dropWhile (\<lambda>x. x \<in> cs) (rev (dropWhile (\<lambda>x. x \<in> cs) s)))"

section \<open>Case\<close>

definition lower_byte :: "char \<Rightarrow> char" where
  "lower_byte c = (let n = (of_char c :: nat) in if 65 \<le> n \<and> n \<le> 90 then char_of (n + 32) else c)"

text \<open>The capital I with a dot (\<open>C4 B0\<close>) becomes \<open>i\<close>, the Kelvin sign \<open>k\<close>.\<close>

fun to_lower :: "string \<Rightarrow> string" where
  "to_lower [] = []"
| "to_lower (c # cs) =
     (if c = CHR 0xC4 \<and> cs \<noteq> [] \<and> hd cs = CHR 0xB0 then CHR ''i'' # to_lower (tl cs)
      else if c = CHR 0xE2 \<and> length cs \<ge> 2 \<and> take 2 cs = [CHR 0x84, CHR 0xAA] then CHR ''k'' # to_lower (drop 2 cs)
      else lower_byte c # to_lower cs)"

definition upper_byte :: "char \<Rightarrow> char" where
  "upper_byte c = (let n = (of_char c :: nat) in if 97 \<le> n \<and> n \<le> 122 then char_of (n - 32) else c)"

text \<open>The dotless i (\<open>C4 B1\<close>) becomes \<open>I\<close>, the long s (\<open>C5 BF\<close>) \<open>S\<close>.\<close>

fun to_upper :: "string \<Rightarrow> string" where
  "to_upper [] = []"
| "to_upper (c # cs) =
     (if c = CHR 0xC4 \<and> cs \<noteq> [] \<and> hd cs = CHR 0xB1 then CHR ''I'' # to_upper (tl cs)
      else if c = CHR 0xC5 \<and> cs \<noteq> [] \<and> hd cs = CHR 0xBF then CHR ''S'' # to_upper (tl cs)
      else upper_byte c # to_upper cs)"

declare to_lower.simps [simp del] to_upper.simps [simp del]

text \<open>
  \<open>strings.EqualFold(s, t)\<close> for an ASCII \<open>t\<close>. The only characters outside ASCII that
  fold to ASCII are the long s (\<open>C5 BF\<close>) and the Kelvin sign (\<open>E2 84 AA\<close>).
\<close>

fun fold_bytes :: "string \<Rightarrow> string" where
  "fold_bytes [] = []"
| "fold_bytes (c # cs) =
     (if c = CHR 0xC5 \<and> cs \<noteq> [] \<and> hd cs = CHR 0xBF then CHR ''s'' # fold_bytes (tl cs)
      else if c = CHR 0xE2 \<and> length cs \<ge> 2 \<and> take 2 cs = [CHR 0x84, CHR 0xAA] then CHR ''k'' # fold_bytes (drop 2 cs)
      else lower_byte c # fold_bytes cs)"

definition equal_fold :: "string \<Rightarrow> string \<Rightarrow> bool" where
  "equal_fold s t \<longleftrightarrow> fold_bytes s = fold_bytes t"

lemma lower_byte_idem [simp]: "lower_byte (lower_byte c) = lower_byte c"
  by (simp add: lower_byte_def Let_def)

lemma equal_fold_sym: "equal_fold s t \<Longrightarrow> equal_fold t s"
  by (simp add: equal_fold_def)

section \<open>Searching, splitting and joining\<close>

fun str_contains :: "string \<Rightarrow> string \<Rightarrow> bool" where
  "str_contains [] sub \<longleftrightarrow> sub = []"
| "str_contains (c # cs) sub \<longleftrightarrow> prefix sub (c # cs) \<or> str_contains cs sub"

lemma str_contains_iff: "str_contains s sub \<longleftrightarrow> sublist sub s"
  by (induction s) (auto simp: sublist_Cons_right)

definition has_prefix :: "string \<Rightarrow> string \<Rightarrow> bool" where
  "has_prefix s p \<longleftrightarrow> prefix p s"

definition has_suffix :: "string \<Rightarrow> string \<Rightarrow> bool" where
  "has_suffix s p \<longleftrightarrow> prefix (rev p) (rev s)"

definition trim_suffix :: "string \<Rightarrow> string \<Rightarrow> string" where
  "trim_suffix s p = (if has_suffix s p then take (length s - length p) s else s)"

lemma has_suffix_iff: "has_suffix s p \<longleftrightarrow> suffix p s"
  by (simp add: has_suffix_def suffix_to_prefix)

text \<open>\<open>strings.Split(s, sep)\<close> for a one-byte separator: always at least one part.\<close>

fun split_byte :: "char \<Rightarrow> string \<Rightarrow> string list" where
  "split_byte sep [] = [[]]"
| "split_byte sep (c # cs) =
     (if c = sep then [] # split_byte sep cs
      else (case split_byte sep cs of [] \<Rightarrow> [[c]] | part # parts \<Rightarrow> (c # part) # parts))"

fun join_byte :: "char \<Rightarrow> string list \<Rightarrow> string" where
  "join_byte sep [] = []"
| "join_byte sep [part] = part"
| "join_byte sep (part # parts) = part @ sep # join_byte sep parts"

lemma split_byte_nonempty [simp]: "split_byte sep s \<noteq> []"
  by (induction s) (auto split: list.splits)

lemma join_byte_Cons: "parts \<noteq> [] \<Longrightarrow> join_byte sep (part # parts) = part @ sep # join_byte sep parts"
  by (cases parts) auto

lemma join_split [simp]: "join_byte sep (split_byte sep s) = s"
proof (induction s)
  case (Cons c cs)
  obtain part parts where sp: "split_byte sep cs = part # parts"
    using split_byte_nonempty [of sep cs] by (cases "split_byte sep cs") blast+
  show ?case
  proof (cases "c = sep")
    case True
    with Cons show ?thesis by (simp add: join_byte_Cons)
  next
    case False
    with Cons sp show ?thesis by (cases parts) simp_all
  qed
qed simp

lemma split_byte_no_sep: "part \<in> set (split_byte sep s) \<Longrightarrow> sep \<notin> set part"
  by (induction s arbitrary: part) (auto split: if_splits list.splits)

lemma split_byte_single: "sep \<notin> set s \<Longrightarrow> split_byte sep s = [s]"
  by (induction s) auto

lemma split_byte_append: "sep \<notin> set a \<Longrightarrow> split_byte sep (a @ sep # b) = a # split_byte sep b"
  by (induction a) auto

lemma split_join:
  "parts \<noteq> [] \<Longrightarrow> (\<And>p. p \<in> set parts \<Longrightarrow> sep \<notin> set p) \<Longrightarrow> split_byte sep (join_byte sep parts) = parts"
proof (induction parts)
  case (Cons p ps)
  show ?case
  proof (cases "ps = []")
    case True
    with Cons.prems show ?thesis by (simp add: split_byte_single)
  next
    case False
    with Cons show ?thesis by (simp add: join_byte_Cons split_byte_append)
  qed
qed simp

end
