(* ===== verification/Telemetry.thy ===== *)
theory Telemetry
  imports Go_Strings
begin

text \<open>
  \<open>internal/application/telemetry.go\<close>: the process-local counters and gauges. Counters are
  \<open>uint64\<close> (\<open>64 word\<close>), gauges and durations \<open>int64\<close>. Every method takes the
  mutex for its whole body, so a method is one atomic step; the nil receiver of the Go code
  is the argument \<open>None\<close> of the \<open>opt_\<close> form.
\<close>

section \<open>State\<close>

record duration_metric =
  d_Count :: "64 word"
  d_Sum :: duration

record request_metric =
  q_Count :: "64 word"
  q_Errors :: "64 word"
  q_Duration :: duration

definition zero_duration_metric :: duration_metric where
  "zero_duration_metric = \<lparr>d_Count = 0, d_Sum = 0\<rparr>"

definition zero_request_metric :: request_metric where
  "zero_request_metric = \<lparr>q_Count = 0, q_Errors = 0, q_Duration = 0\<rparr>"

type_synonym counters = "(string, 64 word) gomap"

record telemetry =
  t_runs :: counters
  t_runDuration :: duration_metric
  t_jobsActive :: int
  t_jobsQueued :: int
  t_executors :: counters
  t_jobDuration :: "(string, duration_metric) gomap"
  t_transitions :: counters
  t_schedulerRuns :: counters
  t_schedulerDelay :: duration_metric
  t_schedulerDuration :: duration_metric
  t_leaseWait :: duration_metric
  t_core :: "(string, request_metric) gomap"
  t_leases :: counters

definition NewTelemetry :: telemetry where
  "NewTelemetry =
     \<lparr>t_runs = [], t_runDuration = zero_duration_metric, t_jobsActive = 0, t_jobsQueued = 0,
      t_executors = [], t_jobDuration = [], t_transitions = [], t_schedulerRuns = [],
      t_schedulerDelay = zero_duration_metric, t_schedulerDuration = zero_duration_metric,
      t_leaseWait = zero_duration_metric, t_core = [], t_leases = []\<rparr>"

section \<open>Operations\<close>

definition bump :: "string \<Rightarrow> counters \<Rightarrow> counters" where
  "bump k m = map_write k (map_read 0 m k + 1) m"

definition observe_duration :: "duration \<Rightarrow> duration_metric \<Rightarrow> duration_metric" where
  "observe_duration d metric = metric\<lparr>d_Count := d_Count metric + 1, d_Sum := wrap64 (d_Sum metric + d)\<rparr>"

definition RecordRun :: "duration \<Rightarrow> string \<Rightarrow> telemetry \<Rightarrow> telemetry" where
  "RecordRun d outcome t =
     t\<lparr>t_runs := bump outcome (t_runs t), t_runDuration := observe_duration d (t_runDuration t)\<rparr>"

definition QueueJob :: "telemetry \<Rightarrow> telemetry" where
  "QueueJob t = t\<lparr>t_jobsQueued := wrap64 (t_jobsQueued t + 1)\<rparr>"

definition dec_gauge :: "int \<Rightarrow> int" where
  "dec_gauge n = (if n > 0 then n - 1 else n)"

definition StartJob :: "telemetry \<Rightarrow> telemetry" where
  "StartJob t = t\<lparr>t_jobsQueued := dec_gauge (t_jobsQueued t), t_jobsActive := wrap64 (t_jobsActive t + 1)\<rparr>"

definition FinishJobWithDuration :: "string \<Rightarrow> string \<Rightarrow> duration \<Rightarrow> telemetry \<Rightarrow> telemetry" where
  "FinishJobWithDuration phase outcome d t =
     t\<lparr>t_jobsActive := dec_gauge (t_jobsActive t),
       t_executors := bump (phase @ ''/'' @ outcome) (t_executors t),
       t_jobDuration := map_write phase (observe_duration d (map_read zero_duration_metric (t_jobDuration t) phase))
                          (t_jobDuration t)\<rparr>"

definition FinishJob :: "string \<Rightarrow> string \<Rightarrow> telemetry \<Rightarrow> telemetry" where
  "FinishJob phase outcome = FinishJobWithDuration phase outcome 0"

definition DropQueuedJob :: "string \<Rightarrow> string \<Rightarrow> telemetry \<Rightarrow> telemetry" where
  "DropQueuedJob phase outcome t =
     t\<lparr>t_jobsQueued := dec_gauge (t_jobsQueued t),
       t_executors := bump (phase @ ''/'' @ outcome) (t_executors t)\<rparr>"

definition RecordJobTransition :: "string \<Rightarrow> string \<Rightarrow> telemetry \<Rightarrow> telemetry" where
  "RecordJobTransition from_state to_state t =
     (let from' = (if from_state = [] then ''received'' else from_state)
      in t\<lparr>t_transitions := bump (from' @ ''->'' @ to_state) (t_transitions t)\<rparr>)"

definition RecordSchedulerRun :: "duration \<Rightarrow> duration \<Rightarrow> string \<Rightarrow> telemetry \<Rightarrow> telemetry" where
  "RecordSchedulerRun delay d outcome t =
     t\<lparr>t_schedulerRuns := bump outcome (t_schedulerRuns t),
       t_schedulerDelay := observe_duration delay (t_schedulerDelay t),
       t_schedulerDuration := observe_duration d (t_schedulerDuration t)\<rparr>"

definition RecordLeaseWait :: "duration \<Rightarrow> telemetry \<Rightarrow> telemetry" where
  "RecordLeaseWait d t = t\<lparr>t_leaseWait := observe_duration d (t_leaseWait t)\<rparr>"

definition RecordCoreRequest :: "string \<Rightarrow> duration \<Rightarrow> bool \<Rightarrow> telemetry \<Rightarrow> telemetry" where
  "RecordCoreRequest operation d failed t =
     (let metric = map_read zero_request_metric (t_core t) operation;
          metric = metric\<lparr>q_Count := q_Count metric + 1, q_Duration := wrap64 (q_Duration metric + d)\<rparr>;
          metric = (if failed then metric\<lparr>q_Errors := q_Errors metric + 1\<rparr> else metric)
      in t\<lparr>t_core := map_write operation metric (t_core t)\<rparr>)"

definition RecordLease :: "string \<Rightarrow> telemetry \<Rightarrow> telemetry" where
  "RecordLease event t = t\<lparr>t_leases := bump event (t_leases t)\<rparr>"

lemmas telemetry_op_defs = RecordRun_def QueueJob_def StartJob_def FinishJobWithDuration_def
  FinishJob_def DropQueuedJob_def RecordJobTransition_def RecordSchedulerRun_def
  RecordLeaseWait_def RecordCoreRequest_def RecordLease_def Let_def

section \<open>Calls as data\<close>

text \<open>One call of a method, so that a history of calls is a list.\<close>

datatype telemetry_op =
    OpRun duration string
  | OpQueue
  | OpStart
  | OpFinish string string duration
  | OpDrop string string
  | OpTransition string string
  | OpScheduler duration duration string
  | OpLeaseWait duration
  | OpCore string duration bool
  | OpLease string

fun apply_op :: "telemetry_op \<Rightarrow> telemetry \<Rightarrow> telemetry" where
  "apply_op (OpRun d outcome) = RecordRun d outcome"
| "apply_op OpQueue = QueueJob"
| "apply_op OpStart = StartJob"
| "apply_op (OpFinish phase outcome d) = FinishJobWithDuration phase outcome d"
| "apply_op (OpDrop phase outcome) = DropQueuedJob phase outcome"
| "apply_op (OpTransition a b) = RecordJobTransition a b"
| "apply_op (OpScheduler delay d outcome) = RecordSchedulerRun delay d outcome"
| "apply_op (OpLeaseWait d) = RecordLeaseWait d"
| "apply_op (OpCore operation d failed) = RecordCoreRequest operation d failed"
| "apply_op (OpLease event) = RecordLease event"

definition apply_ops :: "telemetry_op list \<Rightarrow> telemetry \<Rightarrow> telemetry" where
  "apply_ops ops t = fold apply_op ops t"

lemma apply_ops_Nil [simp]: "apply_ops [] t = t"
  by (simp add: apply_ops_def)

lemma apply_ops_Cons [simp]: "apply_ops (x # xs) t = apply_ops xs (apply_op x t)"
  by (simp add: apply_ops_def)

lemma apply_ops_append [simp]: "apply_ops (xs @ ys) t = apply_ops ys (apply_ops xs t)"
  by (simp add: apply_ops_def)

section \<open>Snapshots\<close>

text \<open>
  \<open>Snapshot\<close> copies every map entry by entry and adds what the runtime reports about the
  process (the argument \<open>mem\<close>: goroutines, heap allocated, heap in use, system bytes).
  A nil receiver gives the zero snapshot.
\<close>

record telemetry_snapshot = telemetry +
  s_Goroutines :: int
  s_HeapAllocBytes :: "64 word"
  s_HeapInUseBytes :: "64 word"
  s_SysBytes :: "64 word"

fun cloneMap :: "('k, 'v) gomap \<Rightarrow> ('k, 'v) gomap" where
  "cloneMap [] = []"
| "cloneMap ((key, v) # source) = map_write key v (cloneMap source)"

definition Snapshot :: "telemetry option \<Rightarrow> int \<times> 64 word \<times> 64 word \<times> 64 word \<Rightarrow> telemetry_snapshot" where
  "Snapshot receiver mem =
     (case receiver of
        None \<Rightarrow> telemetry.extend NewTelemetry
                 \<lparr>s_Goroutines = 0, s_HeapAllocBytes = 0, s_HeapInUseBytes = 0, s_SysBytes = 0\<rparr>
      | Some t \<Rightarrow>
          telemetry.extend
            \<lparr>t_runs = cloneMap (t_runs t), t_runDuration = t_runDuration t,
             t_jobsActive = t_jobsActive t, t_jobsQueued = t_jobsQueued t,
             t_executors = cloneMap (t_executors t), t_jobDuration = cloneMap (t_jobDuration t),
             t_transitions = cloneMap (t_transitions t), t_schedulerRuns = cloneMap (t_schedulerRuns t),
             t_schedulerDelay = t_schedulerDelay t, t_schedulerDuration = t_schedulerDuration t,
             t_leaseWait = t_leaseWait t, t_core = cloneMap (t_core t), t_leases = cloneMap (t_leases t)\<rparr>
            (case mem of (goroutines, alloc, inuse, sys) \<Rightarrow>
              \<lparr>s_Goroutines = goroutines, s_HeapAllocBytes = alloc, s_HeapInUseBytes = inuse, s_SysBytes = sys\<rparr>))"

lemma cloneMap_lookup: "map_of (cloneMap m) = map_of m"
  by (induction m rule: cloneMap.induct) auto

lemma map_read_cloneMap [simp]: "map_read z (cloneMap m) k = map_read z m k"
  by (simp add: map_read_def cloneMap_lookup)

lemma cloneMap_ok: "map_ok (cloneMap m)"
  by (induction m rule: cloneMap.induct) auto

section \<open>Exact counting\<close>

text \<open>
  The contract of a monotone reading: one call adds 1 when it is a hit and nothing
  otherwise. A whole history then adds the number of its hits, in 64-bit arithmetic.
\<close>

definition hits :: "(telemetry_op \<Rightarrow> bool) \<Rightarrow> telemetry_op list \<Rightarrow> nat" where
  "hits hit ops = length (filter hit ops)"

locale op_counter =
  fixes reading :: "telemetry \<Rightarrow> 64 word"
    and hit :: "telemetry_op \<Rightarrow> bool"
  assumes start: "reading NewTelemetry = 0"
    and step: "reading (apply_op x t) = reading t + (if hit x then 1 else 0)"
begin

lemma history: "reading (apply_ops ops t) = reading t + of_nat (hits hit ops)"
  by (induction ops arbitrary: t) (auto simp: step hits_def)

lemma exact: "reading (apply_ops ops NewTelemetry) = of_nat (hits hit ops)"
  by (simp add: history start)

end

lemma map_read_bump: "map_read 0 (bump k m) k' = map_read 0 m k' + (if k' = k then 1 else 0)"
  by (simp add: bump_def)

lemma observe_duration_count [simp]: "d_Count (observe_duration d m) = d_Count m + 1"
  by (simp add: observe_duration_def)

lemmas counter_simps = telemetry_op_defs map_read_bump NewTelemetry_def zero_duration_metric_def
  zero_request_metric_def

fun hits_run :: "string \<Rightarrow> telemetry_op \<Rightarrow> bool" where
  "hits_run outcome (OpRun d o') \<longleftrightarrow> o' = outcome"
| "hits_run outcome _ \<longleftrightarrow> False"

fun is_run :: "telemetry_op \<Rightarrow> bool" where
  "is_run (OpRun d outcome) \<longleftrightarrow> True"
| "is_run _ \<longleftrightarrow> False"

fun hits_executor :: "string \<Rightarrow> telemetry_op \<Rightarrow> bool" where
  "hits_executor key (OpFinish phase outcome d) \<longleftrightarrow> phase @ ''/'' @ outcome = key"
| "hits_executor key (OpDrop phase outcome) \<longleftrightarrow> phase @ ''/'' @ outcome = key"
| "hits_executor key _ \<longleftrightarrow> False"

fun finishes :: "string \<Rightarrow> telemetry_op \<Rightarrow> bool" where
  "finishes phase (OpFinish phase' outcome d) \<longleftrightarrow> phase' = phase"
| "finishes phase _ \<longleftrightarrow> False"

fun hits_transition :: "string \<Rightarrow> telemetry_op \<Rightarrow> bool" where
  "hits_transition key (OpTransition a b) \<longleftrightarrow> (if a = [] then ''received'' else a) @ ''->'' @ b = key"
| "hits_transition key _ \<longleftrightarrow> False"

fun hits_scheduler :: "string \<Rightarrow> telemetry_op \<Rightarrow> bool" where
  "hits_scheduler outcome (OpScheduler delay d outcome') \<longleftrightarrow> outcome' = outcome"
| "hits_scheduler outcome _ \<longleftrightarrow> False"

fun is_scheduler :: "telemetry_op \<Rightarrow> bool" where
  "is_scheduler (OpScheduler delay d outcome) \<longleftrightarrow> True"
| "is_scheduler _ \<longleftrightarrow> False"

fun is_lease_wait :: "telemetry_op \<Rightarrow> bool" where
  "is_lease_wait (OpLeaseWait d) \<longleftrightarrow> True"
| "is_lease_wait _ \<longleftrightarrow> False"

fun hits_lease :: "string \<Rightarrow> telemetry_op \<Rightarrow> bool" where
  "hits_lease event (OpLease event') \<longleftrightarrow> event' = event"
| "hits_lease event _ \<longleftrightarrow> False"

fun hits_core :: "string \<Rightarrow> telemetry_op \<Rightarrow> bool" where
  "hits_core operation (OpCore operation' d failed) \<longleftrightarrow> operation' = operation"
| "hits_core operation _ \<longleftrightarrow> False"

fun hits_core_error :: "string \<Rightarrow> telemetry_op \<Rightarrow> bool" where
  "hits_core_error operation (OpCore operation' d failed) \<longleftrightarrow> operation' = operation \<and> failed"
| "hits_core_error operation _ \<longleftrightarrow> False"

interpretation run_counter: op_counter "\<lambda>t. map_read 0 (t_runs t) outcome" "hits_run outcome" for outcome
proof unfold_locales
  fix x t show "map_read 0 (t_runs (apply_op x t)) outcome = map_read 0 (t_runs t) outcome + (if hits_run outcome x then 1 else 0)"
    by (cases x) (auto simp: counter_simps)
qed (simp add: NewTelemetry_def)

interpretation run_total: op_counter "\<lambda>t. d_Count (t_runDuration t)" is_run
proof unfold_locales
  fix x t show "d_Count (t_runDuration (apply_op x t)) = d_Count (t_runDuration t) + (if is_run x then 1 else 0)"
    by (cases x) (auto simp: counter_simps)
qed (simp add: counter_simps)

interpretation executor_counter: op_counter "\<lambda>t. map_read 0 (t_executors t) key" "hits_executor key" for key
proof unfold_locales
  fix x t show "map_read 0 (t_executors (apply_op x t)) key = map_read 0 (t_executors t) key + (if hits_executor key x then 1 else 0)"
    by (cases x) (auto simp: counter_simps)
qed (simp add: NewTelemetry_def)

interpretation finish_counter: op_counter
  "\<lambda>t. d_Count (map_read zero_duration_metric (t_jobDuration t) phase)" "finishes phase" for phase
proof unfold_locales
  fix x t
  show "d_Count (map_read zero_duration_metric (t_jobDuration (apply_op x t)) phase) =
    d_Count (map_read zero_duration_metric (t_jobDuration t) phase) + (if finishes phase x then 1 else 0)"
    by (cases x) (auto simp: counter_simps)
qed (simp add: counter_simps)

interpretation transition_counter: op_counter "\<lambda>t. map_read 0 (t_transitions t) key" "hits_transition key" for key
proof unfold_locales
  fix x t show "map_read 0 (t_transitions (apply_op x t)) key = map_read 0 (t_transitions t) key + (if hits_transition key x then 1 else 0)"
    by (cases x) (auto simp: counter_simps)
qed (simp add: NewTelemetry_def)

interpretation lease_counter: op_counter "\<lambda>t. map_read 0 (t_leases t) event" "hits_lease event" for event
proof unfold_locales
  fix x t show "map_read 0 (t_leases (apply_op x t)) event = map_read 0 (t_leases t) event + (if hits_lease event x then 1 else 0)"
    by (cases x) (auto simp: counter_simps)
qed (simp add: NewTelemetry_def)

interpretation core_counter: op_counter
  "\<lambda>t. q_Count (map_read zero_request_metric (t_core t) operation)" "hits_core operation" for operation
proof unfold_locales
  fix x t
  show "q_Count (map_read zero_request_metric (t_core (apply_op x t)) operation) =
    q_Count (map_read zero_request_metric (t_core t) operation) + (if hits_core operation x then 1 else 0)"
    by (cases x) (auto simp: counter_simps)
qed (simp add: counter_simps)

interpretation core_error_counter: op_counter
  "\<lambda>t. q_Errors (map_read zero_request_metric (t_core t) operation)" "hits_core_error operation" for operation
proof unfold_locales
  fix x t
  show "q_Errors (map_read zero_request_metric (t_core (apply_op x t)) operation) =
    q_Errors (map_read zero_request_metric (t_core t) operation) + (if hits_core_error operation x then 1 else 0)"
    by (cases x) (auto simp: counter_simps)
qed (simp add: counter_simps)

interpretation scheduler_counter: op_counter "\<lambda>t. map_read 0 (t_schedulerRuns t) outcome" "hits_scheduler outcome" for outcome
proof unfold_locales
  fix x t show "map_read 0 (t_schedulerRuns (apply_op x t)) outcome = map_read 0 (t_schedulerRuns t) outcome + (if hits_scheduler outcome x then 1 else 0)"
    by (cases x) (auto simp: counter_simps)
qed (simp add: counter_simps)

interpretation scheduler_delay: op_counter "\<lambda>t. d_Count (t_schedulerDelay t)" is_scheduler
proof unfold_locales
  fix x t show "d_Count (t_schedulerDelay (apply_op x t)) = d_Count (t_schedulerDelay t) + (if is_scheduler x then 1 else 0)"
    by (cases x) (auto simp: counter_simps)
qed (simp add: counter_simps)

interpretation scheduler_duration: op_counter "\<lambda>t. d_Count (t_schedulerDuration t)" is_scheduler
proof unfold_locales
  fix x t show "d_Count (t_schedulerDuration (apply_op x t)) = d_Count (t_schedulerDuration t) + (if is_scheduler x then 1 else 0)"
    by (cases x) (auto simp: counter_simps)
qed (simp add: counter_simps)

interpretation lease_wait: op_counter "\<lambda>t. d_Count (t_leaseWait t)" is_lease_wait
proof unfold_locales
  fix x t show "d_Count (t_leaseWait (apply_op x t)) = d_Count (t_leaseWait t) + (if is_lease_wait x then 1 else 0)"
    by (cases x) (auto simp: counter_simps)
qed (simp add: counter_simps)

text \<open>
  C38. Counters are exact: whatever calls are made, in whatever order, every counter and every
  count of a summary read through a snapshot (runs and their durations, executor outcomes, job
  durations, transitions, scheduler runs with their delays and durations, lease waits, lease
  events, Core requests and their errors) is the number of calls it stands for, modulo
  \<open>2^64\<close>, the width of the counter.
\<close>

lemma snapshot_counts_exactly:
  "let s = Snapshot (Some (apply_ops ops NewTelemetry)) mem in
     map_read 0 (t_runs s) outcome = of_nat (hits (hits_run outcome) ops) \<and>
     d_Count (t_runDuration s) = of_nat (hits is_run ops) \<and>
     map_read 0 (t_executors s) key = of_nat (hits (hits_executor key) ops) \<and>
     d_Count (map_read zero_duration_metric (t_jobDuration s) phase) = of_nat (hits (finishes phase) ops) \<and>
     map_read 0 (t_transitions s) key = of_nat (hits (hits_transition key) ops) \<and>
     map_read 0 (t_schedulerRuns s) outcome = of_nat (hits (hits_scheduler outcome) ops) \<and>
     d_Count (t_schedulerDelay s) = of_nat (hits is_scheduler ops) \<and>
     d_Count (t_schedulerDuration s) = of_nat (hits is_scheduler ops) \<and>
     d_Count (t_leaseWait s) = of_nat (hits is_lease_wait ops) \<and>
     map_read 0 (t_leases s) event = of_nat (hits (hits_lease event) ops) \<and>
     q_Count (map_read zero_request_metric (t_core s) operation) = of_nat (hits (hits_core operation) ops) \<and>
     q_Errors (map_read zero_request_metric (t_core s) operation) = of_nat (hits (hits_core_error operation) ops)"
  by (simp add: Let_def Snapshot_def telemetry.defs run_counter.exact run_total.exact executor_counter.exact
      finish_counter.exact transition_counter.exact scheduler_counter.exact scheduler_delay.exact
      scheduler_duration.exact lease_wait.exact lease_counter.exact core_counter.exact
      core_error_counter.exact split: prod.splits)

section \<open>Gauges\<close>

text \<open>
  The life of a job as the telemetry sees it: queued, then dropped, or started and finished.
  \<open>LifeOther\<close> is any call that leaves the gauges alone.
\<close>

datatype 'j life =
    LifeQueued 'j
  | LifeDropped 'j string string
  | LifeStarted 'j
  | LifeFinished 'j string string duration
  | LifeOther telemetry_op

fun life_op :: "'j life \<Rightarrow> telemetry_op" where
  "life_op (LifeQueued j) = OpQueue"
| "life_op (LifeDropped j phase outcome) = OpDrop phase outcome"
| "life_op (LifeStarted j) = OpStart"
| "life_op (LifeFinished j phase outcome d) = OpFinish phase outcome d"
| "life_op (LifeOther x) = x"

fun moves_gauge :: "telemetry_op \<Rightarrow> bool" where
  "moves_gauge OpQueue \<longleftrightarrow> True"
| "moves_gauge OpStart \<longleftrightarrow> True"
| "moves_gauge (OpFinish phase outcome d) \<longleftrightarrow> True"
| "moves_gauge (OpDrop phase outcome) \<longleftrightarrow> True"
| "moves_gauge _ \<longleftrightarrow> False"

text \<open>The jobs waiting and the jobs running after a history, \<open>None\<close> if a job skips a step.\<close>

fun life_step :: "'j life \<Rightarrow> 'j list \<times> 'j list \<Rightarrow> ('j list \<times> 'j list) option" where
  "life_step (LifeQueued j) (q, a) = (if j \<in> set q \<union> set a then None else Some (j # q, a))"
| "life_step (LifeDropped j phase outcome) (q, a) = (if j \<in> set q then Some (remove1 j q, a) else None)"
| "life_step (LifeStarted j) (q, a) = (if j \<in> set q then Some (remove1 j q, j # a) else None)"
| "life_step (LifeFinished j phase outcome d) (q, a) = (if j \<in> set a then Some (q, remove1 j a) else None)"
| "life_step (LifeOther x) (q, a) = (if moves_gauge x then None else Some (q, a))"

fun life_run :: "'j life list \<Rightarrow> 'j list \<times> 'j list \<Rightarrow> ('j list \<times> 'j list) option" where
  "life_run [] s = Some s"
| "life_run (e # es) s = Option.bind (life_step e s) (life_run es)"

definition gauges_agree :: "telemetry \<Rightarrow> 'j list \<times> 'j list \<Rightarrow> bool" where
  "gauges_agree t s \<longleftrightarrow> t_jobsQueued t = int (length (fst s)) \<and> t_jobsActive t = int (length (snd s))"

lemma dec_gauge_length: "x \<in> set xs \<Longrightarrow> dec_gauge (int (length xs)) = int (length (remove1 x xs))"
proof -
  assume x: "x \<in> set xs"
  then obtain n where "length xs = Suc n" by (cases xs) auto
  with x show ?thesis by (simp add: dec_gauge_def length_remove1)
qed

lemma wrap64_Suc:
  assumes "n + 1 < 2 ^ 63"
  shows "wrap64 (1 + int n) = 1 + int n"
proof (rule wrap64_id)
  from assms have "int (n + 1) < int (2 ^ 63)" by (simp only: of_nat_less_iff)
  then show "int64_range (1 + int n)" by (simp add: int64_range_def)
qed

lemma moves_gauge_other:
  "\<not> moves_gauge x \<Longrightarrow> t_jobsQueued (apply_op x t) = t_jobsQueued t \<and> t_jobsActive (apply_op x t) = t_jobsActive t"
  by (cases x) (auto simp: telemetry_op_defs)

lemma life_step_gauges:
  assumes "life_step e (q, a) = Some s'" "gauges_agree t (q, a)" "length q + length a + 1 < 2 ^ 63"
  shows "gauges_agree (apply_op (life_op e) t) s' \<and> length (fst s') + length (snd s') \<le> length q + length a + 1"
  using assms
  by (cases e)
     (auto simp: gauges_agree_def telemetry_op_defs dec_gauge_length wrap64_Suc length_remove1 add.commute
        moves_gauge_other split: if_splits)

lemma life_run_gauges:
  "life_run es s = Some s' \<Longrightarrow> gauges_agree t s \<Longrightarrow> length (fst s) + length (snd s) + length es < 2 ^ 63 \<Longrightarrow>
   gauges_agree (apply_ops (map life_op es) t) s'"
proof (induction es arbitrary: s t)
  case (Cons e es)
  obtain q a where s: "s = (q, a)" by (cases s)
  from Cons.prems(1) obtain s1 where s1: "life_step e s = Some s1" "life_run es s1 = Some s'"
    by (auto simp: bind_eq_Some_conv)
  have "gauges_agree (apply_op (life_op e) t) s1 \<and> length (fst s1) + length (snd s1) \<le> length q + length a + 1"
    using s s1(1) Cons.prems(2,3) by (intro life_step_gauges) auto
  with Cons.IH [OF s1(2)] Cons.prems(3) s show ?case by simp
qed simp

text \<open>
  The gauges are exact: as long as every job is queued before it is dropped or started
  and started before it is finished, \<open>jobsQueued\<close> and \<open>jobsActive\<close> are the numbers of
  waiting and running jobs, in every interleaving of the jobs. The guarded decrements of the
  code then never lose a count and the gauges are never negative.
\<close>

lemma gauges_exact:
  fixes es :: "'j life list"
  assumes "life_run es ([], []) = Some (waiting, running)" "length es < 2 ^ 63"
  shows "t_jobsQueued (apply_ops (map life_op es) NewTelemetry) = int (length waiting) \<and>
         t_jobsActive (apply_ops (map life_op es) NewTelemetry) = int (length running)"
proof -
  have "gauges_agree NewTelemetry ([], [] :: 'j list)"
    by (simp add: gauges_agree_def NewTelemetry_def)
  with life_run_gauges [OF assms(1)] assms(2)
  have "gauges_agree (apply_ops (map life_op es) NewTelemetry) (waiting, running)" by simp
  then show ?thesis by (simp add: gauges_agree_def)
qed

lemma gauges_exact_witness:
  "life_run [LifeQueued 1, LifeQueued (2::nat), LifeStarted 2, LifeDropped 1 ''response'' ''cadence''] ([], []) = Some ([], [2]) \<and>
   t_jobsActive (apply_ops [OpQueue, OpQueue, OpStart, OpDrop ''response'' ''cadence''] NewTelemetry) = 1"
proof -
  let ?es = "[LifeQueued 1, LifeQueued (2::nat), LifeStarted 2, LifeDropped 1 ''response'' ''cadence'']"
  have "life_run ?es ([], []) = Some ([], [2])" by simp
  with gauges_exact [of ?es "[]" "[2]"] show ?thesis by simp
qed

end
