(* ===== verification/Go_Strconv.thy ===== *)
theory Go_Strconv
  imports Go_Strings Complex_Main
begin

text \<open>
  Hexadecimal text (package \<open>encoding/hex\<close>) and decimal conversions of Go's package \<open>strconv\<close> (\<open>Itoa\<close>, \<open>FormatInt\<close>, \<open>ParseInt\<close>,
  \<open>ParseUint\<close>, \<open>Atoi\<close> in base 10) and the conversion of a \<open>float64\<close> to
  \<open>int64\<close>. A finite \<open>float64\<close> is the rational number it denotes.
\<close>

section \<open>Printing\<close>

definition dec_digit :: "nat \<Rightarrow> char" where
  "dec_digit n = char_of (48 + n)"

fun nat_dec :: "nat \<Rightarrow> string" where
  "nat_dec n = (if n < 10 then [dec_digit n] else nat_dec (n div 10) @ [dec_digit (n mod 10)])"

declare nat_dec.simps [simp del]

definition int_dec :: "int \<Rightarrow> string" where
  "int_dec i = (if i < 0 then CHR ''-'' # nat_dec (nat (- i)) else nat_dec (nat i))"

section \<open>Parsing\<close>

definition digit_val :: "char \<Rightarrow> nat option" where
  "digit_val c = (let n = (of_char c :: nat) in if 48 \<le> n \<and> n \<le> 57 then Some (n - 48) else None)"

fun digits_val :: "nat \<Rightarrow> string \<Rightarrow> nat option" where
  "digits_val acc [] = Some acc"
| "digits_val acc (c # cs) =
     (case digit_val c of None \<Rightarrow> None | Some d \<Rightarrow> digits_val (10 * acc + d) cs)"

definition parse_uint :: "nat \<Rightarrow> string \<Rightarrow> nat option" where
  "parse_uint bits s =
     (if s = [] then None
      else case digits_val 0 s of None \<Rightarrow> None | Some n \<Rightarrow> if n < 2 ^ bits then Some n else None)"

definition parse_int64 :: "string \<Rightarrow> int option" where
  "parse_int64 s =
     (case s of [] \<Rightarrow> None
      | c # cs \<Rightarrow>
         (let neg = (c = CHR ''-''); digits = (if c = CHR ''-'' \<or> c = CHR ''+'' then cs else s)
          in case parse_uint 64 digits of None \<Rightarrow> None
             | Some n \<Rightarrow>
                 (if neg then (if n \<le> 2 ^ 63 then Some (- int n) else None)
                  else if n < 2 ^ 63 then Some (int n) else None)))"

section \<open>Hexadecimal text\<close>

definition hex_digit :: "nat \<Rightarrow> char" where
  "hex_digit n = (if n < 10 then char_of (48 + n) else char_of (87 + n))"

definition hex_byte :: "8 word \<Rightarrow> string" where
  "hex_byte b = [hex_digit (unat b div 16), hex_digit (unat b mod 16)]"

definition hex_encode :: "8 word list \<Rightarrow> string" where
  "hex_encode bs = concat (map hex_byte bs)"

definition hex_value :: "char \<Rightarrow> nat option" where
  "hex_value c =
     (let n = (of_char c :: nat)
      in if 48 \<le> n \<and> n \<le> 57 then Some (n - 48)
         else if 97 \<le> n \<and> n \<le> 102 then Some (n - 87)
         else if 65 \<le> n \<and> n \<le> 70 then Some (n - 55)
         else None)"

fun hex_decode :: "string \<Rightarrow> 8 word list option" where
  "hex_decode [] = Some []"
| "hex_decode [c] = None"
| "hex_decode (c # d # cs) =
     (case (hex_value c, hex_value d, hex_decode cs) of
        (Some hi, Some lo, Some bs) \<Rightarrow> Some (of_nat (16 * hi + lo) # bs)
      | _ \<Rightarrow> None)"

lemma hex_value_digit: "n < 16 \<Longrightarrow> hex_value (hex_digit n) = Some n"
  by (auto simp: hex_value_def hex_digit_def Let_def)

lemma unat_byte: "unat (b :: 8 word) div 16 < 16" "unat (b :: 8 word) mod 16 < 16"
proof -
  have "unat b < 2 ^ LENGTH(8)" by (rule unsigned_less)
  then show "unat b div 16 < 16" "unat b mod 16 < 16" by simp_all
qed

lemma hex_decode_encode [simp]: "hex_decode (hex_encode bs) = Some bs"
proof (induction bs)
  case (Cons b bs)
  have "of_nat (16 * (unat b div 16) + unat b mod 16) = b" by simp
  with Cons show ?case
    by (simp add: hex_encode_def hex_byte_def hex_value_digit unat_byte del: of_nat_add of_nat_mult)
qed (simp add: hex_encode_def)

lemma hex_encode_inject: "hex_encode as = hex_encode bs \<longleftrightarrow> as = bs"
  by (metis hex_decode_encode option.inject)

lemma length_hex_encode [simp]: "length (hex_encode bs) = 2 * length bs"
  by (induction bs) (auto simp: hex_encode_def hex_byte_def)

section \<open>Round trips\<close>

lemma digit_val_dec_digit: "n < 10 \<Longrightarrow> digit_val (dec_digit n) = Some n"
  by (simp add: digit_val_def dec_digit_def)

lemma digits_val_append: "digits_val a (xs @ ys) = Option.bind (digits_val a xs) (\<lambda>b. digits_val b ys)"
  by (induction xs arbitrary: a) (auto split: option.splits)

lemma digits_val_nat_dec [simp]: "digits_val 0 (nat_dec n) = Some n"
proof (induction n rule: nat_dec.induct)
  case (1 n)
  show ?case
  proof (cases "n < 10")
    case True
    then show ?thesis by (simp add: nat_dec.simps [of n] digit_val_dec_digit)
  next
    case False
    with 1 have "digits_val 0 (nat_dec (n div 10)) = Some (n div 10)" by simp
    with False show ?thesis
      by (simp add: nat_dec.simps [of n] digits_val_append digit_val_dec_digit)
  qed
qed

lemma nat_dec_inject [simp]: "nat_dec m = nat_dec n \<longleftrightarrow> m = n"
  by (metis digits_val_nat_dec option.inject)

lemma nat_dec_nonempty [simp]: "nat_dec n \<noteq> []"
  by (simp add: nat_dec.simps [of n])

lemma dec_digit_code: "n < 10 \<Longrightarrow> (of_char (dec_digit n) :: nat) = 48 + n"
  by (simp add: dec_digit_def)

lemma nat_dec_digits: "c \<in> set (nat_dec n) \<Longrightarrow> 48 \<le> (of_char c :: nat) \<and> (of_char c :: nat) \<le> 57"
proof (induction n rule: nat_dec.induct)
  case (1 n)
  then show ?case
    by (cases "n < 10") (auto simp: nat_dec.simps [of n] dec_digit_code)
qed

lemma nat_dec_printable: "c \<in> set (nat_dec n) \<Longrightarrow> printable c"
  using nat_dec_digits by (force simp: printable_def)

lemma int_dec_printable: "c \<in> set (int_dec i) \<Longrightarrow> printable c"
  by (auto simp: int_dec_def nat_dec_printable split: if_splits) (simp add: printable_def)

lemma trim_space_int_dec [simp]: "trim_space (int_dec i) = int_dec i"
  by (rule trim_space_printable) (auto intro: int_dec_printable)

lemma int_dec_nonempty [simp]: "int_dec i \<noteq> []"
  by (simp add: int_dec_def)

lemma parse_uint_nat_dec: "n < 2 ^ bits \<Longrightarrow> parse_uint bits (nat_dec n) = Some n"
  by (simp add: parse_uint_def)

lemma nat_dec_head: "nat_dec n = c # cs \<Longrightarrow> c \<noteq> CHR ''-'' \<and> c \<noteq> CHR ''+''"
  using nat_dec_digits [of c n] by auto

lemma parse_int64_int_dec:
  assumes "int64_range i"
  shows "parse_int64 (int_dec i) = Some i"
proof (cases "i < 0")
  case True
  with assms have "nat (- i) \<le> 2 ^ 63" by (simp add: int64_range_def)
  moreover from this have "parse_uint 64 (nat_dec (nat (- i))) = Some (nat (- i))"
    by (intro parse_uint_nat_dec) simp
  ultimately show ?thesis using True by (simp add: int_dec_def parse_int64_def)
next
  case False
  obtain c cs where c: "nat_dec (nat i) = c # cs" by (cases "nat_dec (nat i)") auto
  from False assms have "nat i < 2 ^ 63" by (simp add: nat_less_iff int64_range_def)
  moreover from this have "parse_uint 64 (nat_dec (nat i)) = Some (nat i)"
    by (intro parse_uint_nat_dec) simp
  ultimately show ?thesis using False c nat_dec_head [OF c]
    by (simp add: int_dec_def parse_int64_def Let_def)
qed

lemma parse_int64_range: "parse_int64 s = Some i \<Longrightarrow> int64_range i"
  by (auto simp: parse_int64_def int64_range_def Let_def split: list.splits option.splits if_splits)

section \<open>Floating point to integer\<close>

text \<open>
  \<open>int64(f)\<close> truncates towards zero. Where the result is out of range Go leaves the value
  to the implementation: it is the argument \<open>oor\<close>.
\<close>

definition rat_trunc :: "rat \<Rightarrow> int" where
  "rat_trunc q = (if q < 0 then - \<lfloor>- q\<rfloor> else \<lfloor>q\<rfloor>)"

definition float_to_int64 :: "(rat \<Rightarrow> int) \<Rightarrow> rat \<Rightarrow> int" where
  "float_to_int64 oor q =
     (let i = rat_trunc q in if int64_range i then i else wrap64 (oor q))"

lemma rat_trunc_of_int [simp]: "rat_trunc (of_int i) = i"
  by (simp add: rat_trunc_def)

lemma float_to_int64_range [simp]: "int64_range (float_to_int64 oor q)"
  by (simp add: float_to_int64_def Let_def)

lemma float_to_int64_of_int: "int64_range i \<Longrightarrow> float_to_int64 oor (of_int i) = i"
  by (simp add: float_to_int64_def)

end
