(* ===== verification/Execution_Controller.thy ===== *)
theory Execution_Controller
  imports Telemetry Go_Strconv
begin

text \<open>
  \<open>internal/application/execution_controller.go\<close>: at most one monitoring run at a time, skipped
  runs, draining, waiting for idle, run numbers, and the execution slots of a run.

  Any number of goroutines call \<open>RunMonitoring\<close>, \<open>BeginDrain\<close> and \<open>WaitForIdle\<close>. The
  program point of each is a value of \<open>pc\<close>; one transition is one statement that touches
  shared state (a critical section of \<open>stateMu\<close> or \<open>summaryMu\<close>, the \<open>TryLock\<close> and
  \<open>Unlock\<close> of \<open>mu\<close>, the atomic counter, one telemetry call, a channel receive).
  Channels are numbers; \<open>c_closed\<close> holds the closed ones.
\<close>

section \<open>State\<close>

record run_summary =
  rs_StartedAt :: instant
  rs_FinishedAt :: instant
  rs_Skipped :: bool
  rs_Err :: bool

datatype pc =
    Outside
  | AtTryLock
  | AtState
  | SkipLocked
  | SkipLockedRecord
  | SkipUnlocking
  | Skip
  | SkipRecord
  | Numbering instant
  | Running instant string
  | Storing instant instant string bool
  | Recording duration bool
  | Clearing bool
  | Unlocking bool
  | WaitingFor nat

record controller =
  c_maxConcurrency :: int
  c_telemetry :: telemetry
  c_mu :: bool
  c_lastSummary :: run_summary
  c_draining :: bool
  c_active :: bool
  c_idle :: nat
  c_closed :: "nat set"
  c_channels :: nat
  c_runSequence :: "64 word"
  c_threads :: "pc list"

definition zero_summary :: run_summary where
  "zero_summary = \<lparr>rs_StartedAt = 0, rs_FinishedAt = 0, rs_Skipped = False, rs_Err = False\<rparr>"

text \<open>The constructor, with \<open>n\<close> goroutines that may call it.\<close>

definition NewExecutionControllerWithTelemetry :: "int \<Rightarrow> telemetry option \<Rightarrow> nat \<Rightarrow> controller" where
  "NewExecutionControllerWithTelemetry maxConcurrency telemetry n =
     \<lparr>c_maxConcurrency = (if maxConcurrency < 1 then 1 else maxConcurrency),
      c_telemetry = (case telemetry of None \<Rightarrow> NewTelemetry | Some t \<Rightarrow> t),
      c_mu = False, c_lastSummary = zero_summary, c_draining = False, c_active = False,
      c_idle = 0, c_closed = {0}, c_channels = 1, c_runSequence = 0, c_threads = replicate n Outside\<rparr>"

definition storeSummary :: "run_summary \<Rightarrow> controller \<Rightarrow> controller" where
  "storeSummary summary c = c\<lparr>c_lastSummary := summary\<rparr>"

definition goto :: "nat \<Rightarrow> pc \<Rightarrow> controller \<Rightarrow> controller" where
  "goto i p c = c\<lparr>c_threads := (c_threads c)[i := p]\<rparr>"

definition skipped_summary :: "instant \<Rightarrow> run_summary" where
  "skipped_summary now = \<lparr>rs_StartedAt = now, rs_FinishedAt = now, rs_Skipped = True, rs_Err = False\<rparr>"

definition run_id :: "64 word \<Rightarrow> string" where
  "run_id n = ''run-'' @ nat_dec (unat n)"

section \<open>Transitions\<close>

text \<open>What a transition shows to the outside.\<close>

datatype event =
    Internal
  | CallRun nat
  | BeginRun nat string
  | EndRun nat bool
  | ReturnRun nat "bool option"
  | CallBeginDrain
  | CallWait nat
  | ReturnWait nat bool

text \<open>
  \<open>ReturnRun i (Some err)\<close> is the return of a call that ran, \<open>ReturnRun i None\<close> of one that
  was skipped. \<open>EndRun i err\<close> is the return of the runner, with whatever error.
\<close>

inductive step :: "controller \<Rightarrow> event \<Rightarrow> controller \<Rightarrow> bool" where
  call: "i < length (c_threads c) \<Longrightarrow> c_threads c ! i = Outside \<Longrightarrow>
    step c (CallRun i) (goto i (if c_draining c then Skip else AtTryLock) c)"
| try_lock_busy: "i < length (c_threads c) \<Longrightarrow> c_threads c ! i = AtTryLock \<Longrightarrow> c_mu c \<Longrightarrow>
    step c Internal (goto i Skip c)"
| try_lock: "i < length (c_threads c) \<Longrightarrow> c_threads c ! i = AtTryLock \<Longrightarrow> \<not> c_mu c \<Longrightarrow>
    step c Internal (goto i AtState (c\<lparr>c_mu := True\<rparr>))"
| state_draining: "i < length (c_threads c) \<Longrightarrow> c_threads c ! i = AtState \<Longrightarrow> c_draining c \<Longrightarrow>
    step c Internal (goto i SkipLocked c)"
| state_active: "i < length (c_threads c) \<Longrightarrow> c_threads c ! i = AtState \<Longrightarrow> \<not> c_draining c \<Longrightarrow>
    step c Internal (goto i (Numbering now)
      (c\<lparr>c_active := True, c_idle := c_channels c, c_channels := c_channels c + 1\<rparr>))"
| number: "i < length (c_threads c) \<Longrightarrow> c_threads c ! i = Numbering startedAt \<Longrightarrow>
    step c (BeginRun i (run_id (c_runSequence c + 1)))
      (goto i (Running startedAt (run_id (c_runSequence c + 1))) (c\<lparr>c_runSequence := c_runSequence c + 1\<rparr>))"
| runner_returns: "i < length (c_threads c) \<Longrightarrow> c_threads c ! i = Running startedAt runID \<Longrightarrow>
    step c (EndRun i err) (goto i (Storing startedAt finishedAt runID err) c)"
| store: "i < length (c_threads c) \<Longrightarrow> c_threads c ! i = Storing startedAt finishedAt runID err \<Longrightarrow>
    step c Internal (goto i (Recording (time_sub finishedAt startedAt) err)
      (storeSummary \<lparr>rs_StartedAt = startedAt, rs_FinishedAt = finishedAt, rs_Skipped = False, rs_Err = err\<rparr> c))"
| record_run: "i < length (c_threads c) \<Longrightarrow> c_threads c ! i = Recording d err \<Longrightarrow>
    step c Internal (goto i (Clearing err)
      (c\<lparr>c_telemetry := RecordRun d (if err then ''error'' else ''success'') (c_telemetry c)\<rparr>))"
| clear: "i < length (c_threads c) \<Longrightarrow> c_threads c ! i = Clearing err \<Longrightarrow>
    step c Internal (goto i (Unlocking err) (c\<lparr>c_active := False, c_closed := insert (c_idle c) (c_closed c)\<rparr>))"
| unlock: "i < length (c_threads c) \<Longrightarrow> c_threads c ! i = Unlocking err \<Longrightarrow>
    step c (ReturnRun i (Some err)) (goto i Outside (c\<lparr>c_mu := False\<rparr>))"
| skip_locked: "i < length (c_threads c) \<Longrightarrow> c_threads c ! i = SkipLocked \<Longrightarrow>
    step c Internal (goto i SkipLockedRecord (storeSummary (skipped_summary now) c))"
| skip_locked_record: "i < length (c_threads c) \<Longrightarrow> c_threads c ! i = SkipLockedRecord \<Longrightarrow>
    step c Internal (goto i SkipUnlocking (c\<lparr>c_telemetry := RecordRun 0 ''skipped'' (c_telemetry c)\<rparr>))"
| skip_unlock: "i < length (c_threads c) \<Longrightarrow> c_threads c ! i = SkipUnlocking \<Longrightarrow>
    step c (ReturnRun i None) (goto i Outside (c\<lparr>c_mu := False\<rparr>))"
| skip: "i < length (c_threads c) \<Longrightarrow> c_threads c ! i = Skip \<Longrightarrow>
    step c Internal (goto i SkipRecord (storeSummary (skipped_summary now) c))"
| skip_record: "i < length (c_threads c) \<Longrightarrow> c_threads c ! i = SkipRecord \<Longrightarrow>
    step c (ReturnRun i None) (goto i Outside (c\<lparr>c_telemetry := RecordRun 0 ''skipped'' (c_telemetry c)\<rparr>))"
| begin_drain: "step c CallBeginDrain (c\<lparr>c_draining := True\<rparr>)"
| wait: "i < length (c_threads c) \<Longrightarrow> c_threads c ! i = Outside \<Longrightarrow>
    step c (CallWait i) (goto i (WaitingFor (c_idle c)) c)"
| wait_idle: "i < length (c_threads c) \<Longrightarrow> c_threads c ! i = WaitingFor ch \<Longrightarrow> ch \<in> c_closed c \<Longrightarrow>
    step c (ReturnWait i True) (goto i Outside c)"
| wait_canceled: "i < length (c_threads c) \<Longrightarrow> c_threads c ! i = WaitingFor ch \<Longrightarrow>
    step c (ReturnWait i False) (goto i Outside c)"

text \<open>Reachable with the trace of what was shown.\<close>

inductive steps :: "controller \<Rightarrow> event list \<Rightarrow> controller \<Rightarrow> bool" where
  none: "steps c [] c"
| more: "steps c es c' \<Longrightarrow> step c' e c'' \<Longrightarrow> steps c (es @ [e]) c''"

section \<open>Invariant\<close>

text \<open>Who holds \<open>mu\<close>, and who is between setting and clearing \<open>active\<close>.\<close>

fun holds_mu :: "pc \<Rightarrow> bool" where
  "holds_mu AtState = True"
| "holds_mu SkipLocked = True"
| "holds_mu SkipLockedRecord = True"
| "holds_mu SkipUnlocking = True"
| "holds_mu (Numbering now) = True"
| "holds_mu (Running startedAt runID) = True"
| "holds_mu (Storing startedAt finishedAt runID err) = True"
| "holds_mu (Recording d err) = True"
| "holds_mu (Clearing err) = True"
| "holds_mu (Unlocking err) = True"
| "holds_mu _ = False"

fun in_run :: "pc \<Rightarrow> bool" where
  "in_run (Numbering now) = True"
| "in_run (Running startedAt runID) = True"
| "in_run (Storing startedAt finishedAt runID err) = True"
| "in_run (Recording d err) = True"
| "in_run (Clearing err) = True"
| "in_run _ = False"

fun waits_below :: "nat \<Rightarrow> pc \<Rightarrow> bool" where
  "waits_below n (WaitingFor ch) = (ch < n)"
| "waits_below n _ = True"

definition at_pc :: "('p \<Rightarrow> bool) \<Rightarrow> 'p list \<Rightarrow> nat" where
  "at_pc P ts = length (filter P ts)"

lemma in_run_holds: "in_run p \<Longrightarrow> holds_mu p"
  by (cases p) auto

lemma at_pc_update:
  "i < length ts \<Longrightarrow> at_pc P (ts[i := p]) + (if P (ts ! i) then 1 else 0) = at_pc P ts + (if P p then 1 else 0)"
proof (induction ts arbitrary: i)
  case (Cons t ts)
  show ?case
  proof (cases i)
    case (Suc k)
    with Cons.IH [of k] Cons.prems show ?thesis by (simp add: at_pc_def)
  qed (simp add: at_pc_def)
qed simp

lemma at_pc_pos: "i < length ts \<Longrightarrow> P (ts ! i) \<Longrightarrow> 0 < at_pc P ts"
  unfolding at_pc_def by (auto simp: filter_empty_conv)

lemma at_pc_mono: "(\<And>p. P p \<Longrightarrow> Q p) \<Longrightarrow> at_pc P ts \<le> at_pc Q ts"
  unfolding at_pc_def by (induction ts) auto

definition lock_inv :: "controller \<Rightarrow> bool" where
  "lock_inv c \<longleftrightarrow>
     at_pc holds_mu (c_threads c) = (if c_mu c then 1 else 0) \<and>
     at_pc in_run (c_threads c) = (if c_active c then 1 else 0)"

definition channel_inv :: "controller \<Rightarrow> bool" where
  "channel_inv c \<longleftrightarrow>
     (c_idle c \<in> c_closed c \<longleftrightarrow> \<not> c_active c) \<and> c_idle c < c_channels c \<and>
     (\<forall>ch. ch < c_channels c \<longleftrightarrow> ch = c_idle c \<or> ch \<in> c_closed c)"

definition waiter_inv :: "controller \<Rightarrow> bool" where
  "waiter_inv c \<longleftrightarrow> (\<forall>p \<in> set (c_threads c). waits_below (c_channels c) p)"

definition controller_inv :: "controller \<Rightarrow> bool" where
  "controller_inv c \<longleftrightarrow> lock_inv c \<and> channel_inv c \<and> waiter_inv c"

lemma inv_mu: "controller_inv c \<Longrightarrow> at_pc holds_mu (c_threads c) = (if c_mu c then 1 else 0)"
  by (simp add: controller_inv_def lock_inv_def)

lemma inv_run: "controller_inv c \<Longrightarrow> at_pc in_run (c_threads c) = (if c_active c then 1 else 0)"
  by (simp add: controller_inv_def lock_inv_def)

lemma inv_idle: "controller_inv c \<Longrightarrow> c_idle c \<in> c_closed c \<longleftrightarrow> \<not> c_active c"
  by (simp add: controller_inv_def channel_inv_def)

lemma controller_inv_init: "controller_inv (NewExecutionControllerWithTelemetry maxConcurrency telemetry n)"
  by (auto simp: controller_inv_def lock_inv_def channel_inv_def waiter_inv_def
      NewExecutionControllerWithTelemetry_def at_pc_def)

text \<open>A transition that moves goroutine \<open>i\<close> to \<open>p\<close>, as seen by the counts.\<close>

lemma at_pc_goto:
  "i < length (c_threads c) \<Longrightarrow>
   at_pc P (c_threads (goto i p c)) = at_pc P (c_threads c) + (if P p then 1 else 0) - (if P (c_threads c ! i) then 1 else 0)"
  using at_pc_update [of i "c_threads c" P p] by (simp add: goto_def)

lemma goto_fields [simp]:
  "c_mu (goto i p c) = c_mu c" "c_active (goto i p c) = c_active c" "c_idle (goto i p c) = c_idle c"
  "c_closed (goto i p c) = c_closed c" "c_channels (goto i p c) = c_channels c" "c_draining (goto i p c) = c_draining c"
  "c_runSequence (goto i p c) = c_runSequence c" "c_telemetry (goto i p c) = c_telemetry c"
  "c_lastSummary (goto i p c) = c_lastSummary c" "c_maxConcurrency (goto i p c) = c_maxConcurrency c"
  "length (c_threads (goto i p c)) = length (c_threads c)"
  by (simp_all add: goto_def)

lemma storeSummary_fields [simp]:
  "c_mu (storeSummary r c) = c_mu c" "c_active (storeSummary r c) = c_active c" "c_idle (storeSummary r c) = c_idle c"
  "c_closed (storeSummary r c) = c_closed c" "c_channels (storeSummary r c) = c_channels c"
  "c_threads (storeSummary r c) = c_threads c" "c_draining (storeSummary r c) = c_draining c"
  "c_runSequence (storeSummary r c) = c_runSequence c" "c_telemetry (storeSummary r c) = c_telemetry c"
  by (simp_all add: storeSummary_def)

lemma inv_counts:
  assumes "controller_inv c" "i < length (c_threads c)"
  shows "(holds_mu (c_threads c ! i) \<longrightarrow> c_mu c) \<and> (in_run (c_threads c ! i) \<longrightarrow> c_active c) \<and> (c_active c \<longrightarrow> c_mu c)"
proof -
  have le: "at_pc in_run (c_threads c) \<le> at_pc holds_mu (c_threads c)" by (intro at_pc_mono in_run_holds)
  have mu: "at_pc holds_mu (c_threads c) = (if c_mu c then 1 else 0)"
    and run: "at_pc in_run (c_threads c) = (if c_active c then 1 else 0)"
    using assms(1) by (rule inv_mu, rule inv_run)
  have "holds_mu (c_threads c ! i) \<longrightarrow> c_mu c"
    using at_pc_pos [OF assms(2), of holds_mu] mu by (metis less_numeral_extra(3))
  moreover have "in_run (c_threads c ! i) \<longrightarrow> c_active c"
    using at_pc_pos [OF assms(2), of in_run] run by (metis less_numeral_extra(3))
  moreover have "c_active c \<longrightarrow> c_mu c" using le mu run by (metis not_one_le_zero)
  ultimately show ?thesis by blast
qed

lemma holder_alone:
  assumes "controller_inv c" "i < length (c_threads c)" "holds_mu (c_threads c ! i)" "\<not> in_run (c_threads c ! i)"
  shows "\<not> c_active c"
proof
  assume "c_active c"
  then have "at_pc in_run (c_threads c) = 1" using inv_run [OF assms(1)] by simp
  moreover have "at_pc in_run (c_threads c) + 1 \<le> at_pc holds_mu (c_threads c)"
  proof -
    have "at_pc in_run ts + 1 \<le> at_pc holds_mu ts" if "i < length ts" "holds_mu (ts ! i)" "\<not> in_run (ts ! i)" for ts
      using that
    proof (induction ts arbitrary: i)
      case (Cons t ts)
      have "at_pc in_run ts \<le> at_pc holds_mu ts" by (intro at_pc_mono in_run_holds)
      with Cons show ?case by (cases i) (auto simp: at_pc_def dest: in_run_holds)
    qed simp
    from this [OF assms(2-4)] show ?thesis .
  qed
  ultimately show False using inv_mu [OF assms(1)] by (simp split: if_splits)
qed

lemma lock_inv_step:
  assumes "step c e c'" "controller_inv c"
  shows "lock_inv c'"
  using assms(1)
proof (cases rule: step.cases)
  case (state_active i now)
  have "\<not> c_active c" using holder_alone [OF assms(2) state_active(3)] state_active(4) by simp
  then show ?thesis using state_active inv_mu [OF assms(2)] inv_run [OF assms(2)] inv_counts [OF assms(2) state_active(3)]
    by (simp add: lock_inv_def at_pc_goto)
qed (use inv_mu [OF assms(2)] inv_run [OF assms(2)] inv_counts [OF assms(2)] in \<open>fastforce simp: lock_inv_def at_pc_goto\<close>)+

lemma channel_inv_same:
  "channel_inv c \<Longrightarrow> c_idle d = c_idle c \<Longrightarrow> c_closed d = c_closed c \<Longrightarrow> c_active d = c_active c \<Longrightarrow>
   c_channels d = c_channels c \<Longrightarrow> channel_inv d"
  by (simp add: channel_inv_def)

lemma channel_inv_step:
  assumes "step c e c'" "controller_inv c"
  shows "channel_inv c'"
proof -
  have ch: "channel_inv c" using assms(2) by (simp add: controller_inv_def)
  from assms(1) show ?thesis
  proof (cases rule: step.cases)
    case (state_active i now)
    have "\<not> c_active c" using holder_alone [OF assms(2) state_active(3)] state_active(4) by simp
    then have idle: "c_idle c \<in> c_closed c" using inv_idle [OF assms(2)] by simp
    have all_closed: "ch < c_channels c \<longleftrightarrow> ch \<in> c_closed c" for ch
      using ch idle by (auto simp: channel_inv_def)
    have "c_channels c \<notin> c_closed c" using all_closed [of "c_channels c"] by simp
    moreover have "ch < Suc (c_channels c) \<longleftrightarrow> ch = c_channels c \<or> ch \<in> c_closed c" for ch
      using all_closed [of ch] by (simp add: less_Suc_eq disj_commute)
    ultimately show ?thesis using state_active(2) by (simp add: channel_inv_def)
  next
    case (clear i err)
    with ch show ?thesis by (auto simp: channel_inv_def)
  qed (simp_all add: channel_inv_same [OF ch])
qed

lemma waits_below_mono: "waits_below n p \<Longrightarrow> n \<le> m \<Longrightarrow> waits_below m p"
  by (cases p) auto

lemma waiter_inv_goto:
  assumes "waiter_inv c" "c_threads d = c_threads c" "c_channels c \<le> c_channels d" "waits_below (c_channels d) p"
  shows "waiter_inv (goto i p d)"
proof -
  have "\<forall>q \<in> set (c_threads d). waits_below (c_channels d) q"
    using assms(1-3) waits_below_mono by (auto simp: waiter_inv_def)
  with assms(4) set_update_subset_insert [of "c_threads d" i p] show ?thesis
    by (auto simp: waiter_inv_def goto_def)
qed

lemma waiter_inv_step:
  assumes "step c e c'" "controller_inv c"
  shows "waiter_inv c'"
proof -
  have w: "waiter_inv c" and idle: "c_idle c < c_channels c"
    using assms(2) by (simp_all add: controller_inv_def channel_inv_def)
  from assms(1) show ?thesis
  proof (cases rule: step.cases)
    case begin_drain
    with w show ?thesis by (simp add: waiter_inv_def)
  qed (use idle in \<open>auto intro!: waiter_inv_goto [OF w]\<close>)
qed

lemma controller_inv_step: "step c e c' \<Longrightarrow> controller_inv c \<Longrightarrow> controller_inv c'"
  using lock_inv_step channel_inv_step waiter_inv_step unfolding controller_inv_def by metis

lemma controller_inv_steps: "steps c es c' \<Longrightarrow> controller_inv c \<Longrightarrow> controller_inv c'"
  by (induction rule: steps.induct) (auto intro: controller_inv_step)

abbreviation started :: "int \<Rightarrow> telemetry option \<Rightarrow> nat \<Rightarrow> event list \<Rightarrow> controller \<Rightarrow> bool" where
  "started maxConcurrency telemetry n \<equiv> steps (NewExecutionControllerWithTelemetry maxConcurrency telemetry n)"

lemma started_inv: "started maxConcurrency telemetry n es c \<Longrightarrow> controller_inv c"
  using controller_inv_steps controller_inv_init by blast

section \<open>One run at a time\<close>

fun is_begin :: "event \<Rightarrow> bool" where
  "is_begin (BeginRun i runID) = True"
| "is_begin _ = False"

fun is_end :: "event \<Rightarrow> bool" where
  "is_end (EndRun i err) = True"
| "is_end _ = False"

fun is_running :: "pc \<Rightarrow> bool" where
  "is_running (Running startedAt runID) = True"
| "is_running _ = False"

definition occurrences :: "(event \<Rightarrow> bool) \<Rightarrow> event list \<Rightarrow> nat" where
  "occurrences P es = length (filter P es)"

lemma occurrences_simps [simp]:
  "occurrences P [] = 0" "occurrences P (es @ fs) = occurrences P es + occurrences P fs"
  "occurrences P [e] = (if P e then 1 else 0)"
  by (simp_all add: occurrences_def)

text \<open>
  The contract of an event counter: the events it counts are exactly those that move a
  goroutine into the program points it watches, minus those that moved one out.
\<close>

locale event_balance =
  fixes enters leaves :: "event \<Rightarrow> bool" and watched :: "pc \<Rightarrow> bool"
  assumes outside: "\<not> watched Outside"
    and balance: "step c e c' \<Longrightarrow>
      at_pc watched (c_threads c') + (if leaves e then 1 else 0) = at_pc watched (c_threads c) + (if enters e then 1 else 0)"
begin

lemma trace:
  "started maxConcurrency telemetry n es c \<Longrightarrow>
   occurrences enters es = occurrences leaves es + at_pc watched (c_threads c)"
proof (induction "NewExecutionControllerWithTelemetry maxConcurrency telemetry n" es c rule: steps.induct)
  case none
  then show ?case using outside by (simp add: NewExecutionControllerWithTelemetry_def at_pc_def)
next
  case (more es c' e c'')
  with balance [OF more.hyps(3)] show ?case by simp
qed

end

lemma at_pc_goto_add:
  "i < length (c_threads c) \<Longrightarrow>
   at_pc P (c_threads (goto i p c)) + (if P (c_threads c ! i) then 1 else 0) = at_pc P (c_threads c) + (if P p then 1 else 0)"
  using at_pc_update [of i "c_threads c" P p] by (simp add: goto_def)

interpretation runs: event_balance is_begin is_end is_running
proof unfold_locales
  fix c e c' assume "step c e c'"
  then show "at_pc is_running (c_threads c') + (if is_end e then 1 else 0) =
    at_pc is_running (c_threads c) + (if is_begin e then 1 else 0)"
    using at_pc_pos [of _ "c_threads c" is_running] by (cases rule: step.cases) (simp_all add: at_pc_goto)
qed simp

fun is_call :: "event \<Rightarrow> bool" where
  "is_call (CallRun i) = True"
| "is_call _ = False"

fun is_return :: "event \<Rightarrow> bool" where
  "is_return (ReturnRun i r) = True"
| "is_return _ = False"

fun in_call :: "pc \<Rightarrow> bool" where
  "in_call Outside = False"
| "in_call (WaitingFor ch) = False"
| "in_call _ = True"

interpretation calls: event_balance is_call is_return in_call
proof unfold_locales
  fix c e c' assume "step c e c'"
  then show "at_pc in_call (c_threads c') + (if is_return e then 1 else 0) =
    at_pc in_call (c_threads c) + (if is_call e then 1 else 0)"
    using at_pc_pos [of _ "c_threads c" in_call] by (cases rule: step.cases) (simp_all add: at_pc_goto)
qed simp

text \<open>Which outcome a return shows, and which outcome a goroutine has recorded but not yet returned.\<close>

definition run_outcome :: "bool \<Rightarrow> string" where
  "run_outcome err = (if err then ''error'' else ''success'')"

fun returned_as :: "string \<Rightarrow> event \<Rightarrow> bool" where
  "returned_as outcome (ReturnRun i None) \<longleftrightarrow> outcome = ''skipped''"
| "returned_as outcome (ReturnRun i (Some err)) \<longleftrightarrow> outcome = run_outcome err"
| "returned_as outcome _ \<longleftrightarrow> False"

fun recorded_as :: "string \<Rightarrow> pc \<Rightarrow> bool" where
  "recorded_as outcome SkipUnlocking \<longleftrightarrow> outcome = ''skipped''"
| "recorded_as outcome (Clearing err) \<longleftrightarrow> outcome = run_outcome err"
| "recorded_as outcome (Unlocking err) \<longleftrightarrow> outcome = run_outcome err"
| "recorded_as outcome _ \<longleftrightarrow> False"

abbreviation runs_counted :: "string \<Rightarrow> controller \<Rightarrow> 64 word" where
  "runs_counted outcome c \<equiv> map_read 0 (t_runs (c_telemetry c)) outcome"

lemma outcome_step:
  assumes "step c e c'"
  shows "\<exists>d. runs_counted outcome c' = runs_counted outcome c + of_nat d \<and>
    at_pc (recorded_as outcome) (c_threads c') + (if returned_as outcome e then 1 else 0) =
    at_pc (recorded_as outcome) (c_threads c) + d"
  using assms
proof (cases rule: step.cases)
  case (record_run i d err)
  then show ?thesis
    by (intro exI [of _ "if outcome = run_outcome err then 1 else 0"])
       (auto simp: at_pc_goto RecordRun_def map_read_bump run_outcome_def)
next
  case (skip_locked_record i)
  then show ?thesis
    by (intro exI [of _ "if outcome = ''skipped'' then 1 else 0"]) (simp add: at_pc_goto RecordRun_def map_read_bump)
next
  case (skip_record i)
  then show ?thesis
    by (intro exI [of _ "if outcome = ''skipped'' then 1 else 0"]) (simp add: at_pc_goto RecordRun_def map_read_bump)
qed (rule exI [of _ 0], use at_pc_pos [of _ "c_threads c" "recorded_as outcome"] in \<open>force simp: at_pc_goto\<close>)+

lemma outcome_trace:
  "started maxConcurrency telemetry n es c \<Longrightarrow>
   runs_counted outcome c = runs_counted outcome (NewExecutionControllerWithTelemetry maxConcurrency telemetry n) +
     of_nat (occurrences (returned_as outcome) es + at_pc (recorded_as outcome) (c_threads c))"
proof (induction "NewExecutionControllerWithTelemetry maxConcurrency telemetry n" es c rule: steps.induct)
  case none
  then show ?case by (simp add: NewExecutionControllerWithTelemetry_def at_pc_def)
next
  case (more es c' e c'')
  from outcome_step [OF more.hyps(3), of outcome] obtain d where
    d: "runs_counted outcome c'' = runs_counted outcome c' + of_nat d"
    "at_pc (recorded_as outcome) (c_threads c'') + (if returned_as outcome e then 1 else 0) =
     at_pc (recorded_as outcome) (c_threads c') + d" by blast
  have "occurrences (returned_as outcome) (es @ [e]) + at_pc (recorded_as outcome) (c_threads c'') =
      occurrences (returned_as outcome) es + at_pc (recorded_as outcome) (c_threads c') + d"
    using d(2) by simp
  with d(1) more.hyps(2) show ?case by (simp only: of_nat_add add.assoc)
qed

text \<open>
  C3. Runs never overlap: however many goroutines call the controller, in every reachable
  state at most one run is in progress, every run that began has ended except that one, the
  controller reports active exactly while a goroutine is between setting and clearing it, and
  the idle channel is closed exactly when no run is active, so no channel is closed twice.
\<close>

lemma runs_never_overlap:
  assumes "started maxConcurrency telemetry n es c"
  shows "occurrences is_begin es = occurrences is_end es + at_pc is_running (c_threads c) \<and>
    at_pc is_running (c_threads c) \<le> 1 \<and>
    at_pc in_run (c_threads c) = (if c_active c then 1 else 0) \<and>
    (c_idle c \<in> c_closed c \<longleftrightarrow> \<not> c_active c) \<and>
    (\<forall>i < length (c_threads c). \<forall>err. c_threads c ! i = Clearing err \<longrightarrow> c_idle c \<notin> c_closed c)"
proof -
  have inv: "controller_inv c" using assms by (rule started_inv)
  have "at_pc is_running (c_threads c) \<le> at_pc in_run (c_threads c)"
    by (intro at_pc_mono) (auto elim: is_running.elims)
  moreover have "c_threads c ! i = Clearing err \<Longrightarrow> i < length (c_threads c) \<Longrightarrow> c_active c" for i err
    using inv_counts [OF inv, of i] by simp
  ultimately show ?thesis
    using runs.trace [OF assms] inv_run [OF inv] inv_idle [OF inv] by (auto split: if_splits)
qed

lemma call_open: "i < length (c_threads c) \<Longrightarrow> c_threads c ! i = Outside \<Longrightarrow> \<not> c_draining c \<Longrightarrow>
    step c (CallRun i) (goto i AtTryLock c)"
  and call_draining: "i < length (c_threads c) \<Longrightarrow> c_threads c ! i = Outside \<Longrightarrow> c_draining c \<Longrightarrow>
    step c (CallRun i) (goto i Skip c)"
  using step.call [of i c] by simp_all

lemma runs_never_overlap_witness:
  "\<exists>c. started 4 None 2 [CallRun 0, Internal, CallRun 1, Internal] c \<and> c_active c = (at_pc in_run (c_threads c) = 1)"
proof -
  let ?c0 = "NewExecutionControllerWithTelemetry 4 None 2"
  let ?c1 = "goto 0 AtTryLock ?c0" let ?c2 = "goto 0 AtState (?c1\<lparr>c_mu := True\<rparr>)"
  let ?c3 = "goto 1 AtTryLock ?c2" let ?c4 = "goto 1 Skip ?c3"
  have c0: "c_threads ?c0 = [Outside, Outside]" "\<not> c_draining ?c0" "\<not> c_mu ?c0"
    by (simp_all add: NewExecutionControllerWithTelemetry_def numeral_2_eq_2)
  have "steps ?c0 ([] @ [CallRun 0]) ?c1"
    using c0 by (intro steps.more [OF steps.none call_open]) simp_all
  then have "steps ?c0 (([] @ [CallRun 0]) @ [Internal]) ?c2"
    using c0 by (intro steps.more [OF _ step.try_lock]) (simp_all add: goto_def)
  then have "steps ?c0 ((([] @ [CallRun 0]) @ [Internal]) @ [CallRun 1]) ?c3"
    using c0 by (intro steps.more [OF _ call_open]) (simp_all add: goto_def)
  then have r: "steps ?c0 (((([] @ [CallRun 0]) @ [Internal]) @ [CallRun 1]) @ [Internal]) ?c4"
    using c0 by (intro steps.more [OF _ step.try_lock_busy]) (simp_all add: goto_def)
  from runs_never_overlap [OF r] r show ?thesis by (intro exI [of _ ?c4]) simp
qed

text \<open>
  C30. Every call of \<open>RunMonitoring\<close> is accounted for: once all goroutines have returned,
  the calls are the sum of the runs recorded as success, error and skipped (modulo \<open>2^64\<close>,
  over what the shared telemetry held before).
\<close>

lemma every_call_counted_once:
  assumes "started maxConcurrency None n es c" "\<forall>p \<in> set (c_threads c). p = Outside"
  shows "of_nat (occurrences is_call es) =
    runs_counted ''success'' c + runs_counted ''error'' c + runs_counted ''skipped'' c"
proof -
  have none: "at_pc P (c_threads c) = 0" if "\<not> P Outside" for P
    using assms(2) that by (auto simp: at_pc_def filter_empty_conv)
  have init: "runs_counted outcome (NewExecutionControllerWithTelemetry maxConcurrency None n) = 0" for outcome
    by (simp add: NewExecutionControllerWithTelemetry_def NewTelemetry_def)
  have "occurrences is_return es = occurrences (returned_as ''success'') es +
      occurrences (returned_as ''error'') es + occurrences (returned_as ''skipped'') es"
  proof (induction es rule: rev_induct)
    case (snoc e es)
    have "(if is_return e then 1 else 0) = (if returned_as ''success'' e then 1 else 0) +
       (if returned_as ''error'' e then 1 else 0) + (if returned_as ''skipped'' e then 1 else (0 :: nat))"
    proof (cases e)
      case (ReturnRun i r)
      then show ?thesis by (cases r) (auto simp: run_outcome_def)
    qed simp_all
    with snoc show ?case by simp
  qed simp
  then show ?thesis
    using calls.trace [OF assms(1)] outcome_trace [OF assms(1)] none init by simp
qed

lemma every_call_counted_once_witness:
  "\<exists>es c. started 1 None 1 es c \<and> occurrences is_call es = 1 \<and>
     runs_counted ''success'' c + runs_counted ''error'' c + runs_counted ''skipped'' c = 1"
proof -
  let ?c0 = "NewExecutionControllerWithTelemetry 1 None 1"
  let ?d = "?c0\<lparr>c_draining := True\<rparr>"
  let ?c1 = "goto 0 Skip ?d" let ?c2 = "goto 0 SkipRecord (storeSummary (skipped_summary 5) ?c1)"
  let ?c3 = "goto 0 Outside (?c2\<lparr>c_telemetry := RecordRun 0 ''skipped'' (c_telemetry ?c2)\<rparr>)"
  have c0: "c_threads ?c0 = [Outside]" by (simp add: NewExecutionControllerWithTelemetry_def)
  have "steps ?c0 ([] @ [CallBeginDrain]) ?d" by (rule steps.more [OF steps.none step.begin_drain [of ?c0]])
  then have "steps ?c0 (([] @ [CallBeginDrain]) @ [CallRun 0]) ?c1"
    using c0 by (intro steps.more [OF _ call_draining]) simp_all
  then have "steps ?c0 ((([] @ [CallBeginDrain]) @ [CallRun 0]) @ [Internal]) ?c2"
    using c0 by (intro steps.more [OF _ step.skip]) (simp_all add: goto_def)
  then have r: "steps ?c0 (((([] @ [CallBeginDrain]) @ [CallRun 0]) @ [Internal]) @ [ReturnRun 0 None]) ?c3"
    using c0 by (intro steps.more [OF _ step.skip_record]) (simp_all add: goto_def storeSummary_def)
  have "\<forall>p \<in> set (c_threads ?c3). p = Outside" using c0 by (simp add: goto_def storeSummary_def)
  note total = every_call_counted_once [OF r this]
  have one: "occurrences is_call (((([] @ [CallBeginDrain]) @ [CallRun 0]) @ [Internal]) @ [ReturnRun 0 None]) = 1"
    by (simp add: occurrences_def)
  show ?thesis using r one total [unfolded one of_nat_1, symmetric] by blast
qed

fun begun_run :: "event \<Rightarrow> string option" where
  "begun_run (BeginRun i runID) = Some runID"
| "begun_run _ = None"

definition begun_runs :: "event list \<Rightarrow> string list" where
  "begun_runs es = List.map_filter begun_run es"

lemma begun_runs_simps [simp]:
  "begun_runs [] = []" "begun_runs (es @ fs) = begun_runs es @ begun_runs fs"
  "begun_runs [e] = (case begun_run e of None \<Rightarrow> [] | Some r \<Rightarrow> [r])"
  by (simp_all add: begun_runs_def map_filter_def split: option.split)

lemma begun_runs_numbered:
  "started maxConcurrency telemetry n es c \<Longrightarrow>
   c_runSequence c = of_nat (length (begun_runs es)) \<and>
   begun_runs es = map (\<lambda>k. run_id (of_nat (Suc k))) [0..<length (begun_runs es)]"
proof (induction "NewExecutionControllerWithTelemetry maxConcurrency telemetry n" es c rule: steps.induct)
  case none
  then show ?case by (simp add: NewExecutionControllerWithTelemetry_def)
next
  case (more es c' e c'')
  from more.hyps(3) show ?case
  proof (cases rule: step.cases)
    case (number i startedAt)
    with more.hyps(2) show ?thesis by (simp add: add.commute)
  qed (use more.hyps(2) in \<open>simp_all add: storeSummary_def\<close>)
qed

lemma run_id_inj:
  assumes "m < 2 ^ 64" "n < 2 ^ 64" "run_id (of_nat m) = run_id (of_nat n)"
  shows "m = n"
proof -
  have "unat (of_nat m :: 64 word) = unat (of_nat n :: 64 word)" using assms(3) by (simp add: run_id_def)
  with assms(1,2) show ?thesis by (simp add: unat_of_nat)
qed

text \<open>
  Every run gets its own identifier: the runs of a history are numbered
  \<open>run-1\<close>, \<open>run-2\<close> and so on in the order they begin (the counter has 64 bits).
\<close>

lemma run_ids_distinct:
  assumes "started maxConcurrency telemetry n es c" "length (begun_runs es) < 2 ^ 64 - 1"
  shows "begun_runs es = map (\<lambda>k. ''run-'' @ nat_dec (k + 1)) [0..<length (begun_runs es)] \<and> distinct (begun_runs es)"
proof -
  define N where "N = length (begun_runs es)"
  have ids: "begun_runs es = map (\<lambda>k. run_id (of_nat (Suc k))) [0..<N]"
    using begun_runs_numbered [OF assms(1)] by (simp add: N_def)
  have dec: "run_id (of_nat (Suc k)) = ''run-'' @ nat_dec (k + 1)" if "k < N" for k
  proof -
    have "Suc k < 2 ^ 64" using that assms(2) by (simp add: N_def)
    then have "unat (of_nat (Suc k) :: 64 word) = Suc k" by (simp only: unat_of_nat) simp
    then show ?thesis by (simp only: run_id_def) simp
  qed
  have "map (\<lambda>k. run_id (of_nat (Suc k))) [0..<N] = map (\<lambda>k. ''run-'' @ nat_dec (k + 1)) [0..<N]"
    by (rule map_cong) (use dec in \<open>auto simp del: of_nat_Suc\<close>)
  moreover have "distinct (map (\<lambda>k. ''run-'' @ nat_dec (k + 1)) [0..<N])"
    by (simp add: distinct_map inj_on_def)
  ultimately show ?thesis using ids unfolding N_def [symmetric] by metis
qed

section \<open>Draining\<close>

text \<open>After draining began and once no run is active, no run begins any more.\<close>

lemma drained_step:
  assumes "step c e c'" "controller_inv c" "c_draining c"
  shows "c_draining c' \<and> c_idle c' = c_idle c \<and> (\<not> c_active c \<longrightarrow> \<not> c_active c' \<and> \<not> is_begin e)"
  using assms(1)
proof (cases rule: step.cases)
  case (number i startedAt)
  then have "c_active c" using inv_counts [OF assms(2), of i] by simp
  with number assms(3) show ?thesis by simp
qed (use assms(3) in \<open>simp_all add: storeSummary_def\<close>)

lemma drained_steps:
  assumes "steps c es c'" "controller_inv c" "c_draining c"
  shows "c_draining c' \<and> c_idle c' = c_idle c \<and> (\<not> c_active c \<longrightarrow> \<not> c_active c' \<and> occurrences is_begin es = 0)"
  using assms
proof (induction rule: steps.induct)
  case (more c es c' e c'')
  with drained_step [OF more.hyps(2) controller_inv_steps [OF more.hyps(1)]] show ?case by auto
qed simp

text \<open>A goroutine that waits keeps waiting for the same channel until it returns.\<close>

fun returns_wait :: "nat \<Rightarrow> event \<Rightarrow> bool" where
  "returns_wait i (ReturnWait k r) \<longleftrightarrow> k = i"
| "returns_wait i _ \<longleftrightarrow> False"

lemma still_waiting_step:
  assumes "step c e c'" "i < length (c_threads c)" "c_threads c ! i = WaitingFor ch" "\<not> returns_wait i e"
  shows "i < length (c_threads c') \<and> c_threads c' ! i = WaitingFor ch"
  using assms(1)
proof (cases rule: step.cases)
  case begin_drain
  with assms show ?thesis by simp
qed (use assms(2-4) in \<open>auto simp: goto_def nth_list_update storeSummary_def\<close>)

lemma still_waiting:
  assumes "steps c es c'" "i < length (c_threads c)" "c_threads c ! i = WaitingFor ch" "occurrences (returns_wait i) es = 0"
  shows "i < length (c_threads c') \<and> c_threads c' ! i = WaitingFor ch"
  using assms
proof (induction rule: steps.induct)
  case (more c es c' e c'')
  with still_waiting_step [OF more.hyps(2), of i ch] show ?case by (auto split: if_splits)
qed simp

text \<open>
  C5. Draining is final: a call of \<open>WaitForIdle\<close> made after \<open>BeginDrain\<close> that returns
  true returns when no run is active, and from then on no run ever begins and the controller
  never becomes active again, whatever calls are made or were under way.
\<close>

lemma drain_is_final:
  assumes "started maxConcurrency telemetry n es c" "c_draining c"
    "step c (CallWait i) c1" "steps c1 es1 c2" "occurrences (returns_wait i) es1 = 0"
    "step c2 (ReturnWait i True) c3" "steps c3 es2 c4"
  shows "\<not> c_active c3 \<and> \<not> c_active c4 \<and> occurrences is_begin es2 = 0"
proof -
  have inv: "controller_inv c" using assms(1) by (rule started_inv)
  have inv1: "controller_inv c1" using controller_inv_step [OF assms(3) inv] .
  have inv2: "controller_inv c2" using controller_inv_steps [OF assms(4) inv1] .
  have inv3: "controller_inv c3" using controller_inv_step [OF assms(6) inv2] .
  have w: "i < length (c_threads c1) \<and> c_threads c1 ! i = WaitingFor (c_idle c) \<and> c_draining c1 \<and> c_idle c1 = c_idle c"
    using assms(3) by (cases rule: step.cases) (use assms(2) in \<open>simp_all add: goto_def\<close>)
  have d2: "c_draining c2 \<and> c_idle c2 = c_idle c"
    using drained_steps [OF assms(4) inv1] w by simp
  have "c_threads c2 ! i = WaitingFor (c_idle c)"
    using still_waiting [OF assms(4) _ _ assms(5)] w by blast
  with assms(6) have "c_idle c \<in> c_closed c2"
    by (cases rule: step.cases) simp_all
  with d2 inv_idle [OF inv2] have "\<not> c_active c2" by simp
  with drained_step [OF assms(6) inv2] d2 have "\<not> c_active c3 \<and> c_draining c3" by simp
  with drained_steps [OF assms(7) inv3] show ?thesis by simp
qed

text \<open>No goroutine is ever stuck in a call: each can take its next step, except while the runner
  works and except a waiter of an active run; a waiter is let go as soon as no run is active.\<close>

definition can_move :: "nat \<Rightarrow> controller \<Rightarrow> bool" where
  "can_move i c \<longleftrightarrow> (\<exists>e c'. step c e c' \<and> c_threads c' ! i \<noteq> c_threads c ! i)"

lemma can_move_goto: "step c e (goto i p d) \<Longrightarrow> c_threads d = c_threads c \<Longrightarrow> i < length (c_threads c) \<Longrightarrow>
  c_threads c ! i \<noteq> p \<Longrightarrow> can_move i c"
  unfolding can_move_def by (intro exI [of _ e] exI [of _ "goto i p d"]) (auto simp: goto_def)

text \<open>
  Nothing blocks: in every reachable state each goroutine inside a call can move on
  at once (the lock is only ever tried, critical sections are short, and the runner may
  return), and a goroutine waiting for idle returns true as soon as no run is active, even if
  it waits for the channel of an earlier run.
\<close>

lemma controller_never_blocks:
  assumes "started maxConcurrency telemetry n es c" "i < length (c_threads c)"
  shows "(in_call (c_threads c ! i) \<longrightarrow> can_move i c) \<and>
    (\<forall>ch. c_threads c ! i = WaitingFor ch \<longrightarrow> ch \<noteq> c_idle c \<or> \<not> c_active c \<longrightarrow>
       (\<exists>c'. step c (ReturnWait i True) c'))"
proof -
  have inv: "controller_inv c" using assms(1) by (rule started_inv)
  have "in_call (c_threads c ! i) \<longrightarrow> can_move i c"
  proof (cases "c_threads c ! i")
    case AtTryLock
    then show ?thesis using assms(2) step.try_lock step.try_lock_busy
      by (cases "c_mu c") (force intro: can_move_goto)+
  next
    case AtState
    then show ?thesis using assms(2) step.state_draining step.state_active
      by (cases "c_draining c") (force intro: can_move_goto)+
  next
    case SkipLocked
    then show ?thesis using can_move_goto [OF step.skip_locked [OF assms(2) SkipLocked]] assms(2) by (simp add: storeSummary_def)
  next
    case SkipLockedRecord
    then show ?thesis using can_move_goto [OF step.skip_locked_record [OF assms(2) SkipLockedRecord]] assms(2) by (simp add: storeSummary_def)
  next
    case SkipUnlocking
    then show ?thesis using can_move_goto [OF step.skip_unlock [OF assms(2) SkipUnlocking]] assms(2) by (simp add: storeSummary_def)
  next
    case Skip
    then show ?thesis using can_move_goto [OF step.skip [OF assms(2) Skip]] assms(2) by (simp add: storeSummary_def)
  next
    case SkipRecord
    then show ?thesis using can_move_goto [OF step.skip_record [OF assms(2) SkipRecord]] assms(2) by (simp add: storeSummary_def)
  next
    case (Numbering now)
    then show ?thesis using can_move_goto [OF step.number [OF assms(2) Numbering]] assms(2) by (simp add: storeSummary_def)
  next
    case (Running startedAt runID)
    then show ?thesis using can_move_goto [OF step.runner_returns [OF assms(2) Running]] assms(2) by (simp add: storeSummary_def)
  next
    case (Storing startedAt finishedAt runID err)
    then show ?thesis using can_move_goto [OF step.store [OF assms(2) Storing]] assms(2) by (simp add: storeSummary_def)
  next
    case (Recording d err)
    then show ?thesis using can_move_goto [OF step.record_run [OF assms(2) Recording]] assms(2) by (simp add: storeSummary_def)
  next
    case (Clearing err)
    then show ?thesis using can_move_goto [OF step.clear [OF assms(2) Clearing]] assms(2) by (simp add: storeSummary_def)
  next
    case (Unlocking err)
    then show ?thesis using can_move_goto [OF step.unlock [OF assms(2) Unlocking]] assms(2) by (simp add: storeSummary_def)
  qed simp_all
  moreover have "\<exists>c'. step c (ReturnWait i True) c'"
    if w: "c_threads c ! i = WaitingFor ch" and free: "ch \<noteq> c_idle c \<or> \<not> c_active c" for ch
  proof -
    have "waiter_inv c" "channel_inv c" using inv by (simp_all add: controller_inv_def)
    then have "ch < c_channels c" using w assms(2) unfolding waiter_inv_def by (metis nth_mem waits_below.simps(1))
    with \<open>channel_inv c\<close> free have "ch \<in> c_closed c" unfolding channel_inv_def by metis
    with step.wait_idle [OF assms(2) w] show ?thesis by blast
  qed
  ultimately show ?thesis by blast
qed

lemma controller_never_blocks_witness:
  "\<exists>c. started 1 None 1 [CallBeginDrain] c \<and> c_draining c \<and> 0 < length (c_threads c) \<and>
     (in_call (c_threads c ! 0) \<longrightarrow> can_move 0 c)"
proof -
  let ?c0 = "NewExecutionControllerWithTelemetry 1 None 1"
  have r: "steps ?c0 ([] @ [CallBeginDrain]) (?c0\<lparr>c_draining := True\<rparr>)" by (rule steps.more [OF steps.none step.begin_drain [of ?c0]])
  have "0 < length (c_threads (?c0\<lparr>c_draining := True\<rparr>))" by (simp add: NewExecutionControllerWithTelemetry_def)
  from controller_never_blocks [OF r this] r this show ?thesis
    by (intro exI [of _ "?c0\<lparr>c_draining := True\<rparr>"]) simp
qed

lemma run_ids_distinct_witness:
  "\<exists>c. started 1 None 1 [CallBeginDrain] c \<and> distinct (begun_runs [CallBeginDrain])"
proof -
  let ?c0 = "NewExecutionControllerWithTelemetry 1 None 1"
  have r: "steps ?c0 ([] @ [CallBeginDrain]) (?c0\<lparr>c_draining := True\<rparr>)" by (rule steps.more [OF steps.none step.begin_drain [of ?c0]])
  have l: "length (begun_runs ([] @ [CallBeginDrain])) < 2 ^ 64 - 1" by simp
  from run_ids_distinct [OF r l] r show ?thesis by (intro exI [of _ "?c0\<lparr>c_draining := True\<rparr>"]) simp
qed

lemma drain_is_final_witness:
  "\<exists>c c1 c3. started 1 None 1 [CallBeginDrain] c \<and> step c (CallWait 0) c1 \<and> step c1 (ReturnWait 0 True) c3 \<and> \<not> c_active c3"
proof -
  let ?init = "NewExecutionControllerWithTelemetry 1 None 1"
  let ?c = "?init\<lparr>c_draining := True\<rparr>" let ?second = "goto 0 (WaitingFor (c_idle ?c)) ?c" let ?third = "goto 0 Outside ?second"
  have t: "c_threads ?c = [Outside]" by (simp add: NewExecutionControllerWithTelemetry_def)
  have r: "steps ?init ([] @ [CallBeginDrain]) ?c" by (rule steps.more [OF steps.none step.begin_drain [of ?init]])
  have w: "step ?c (CallWait 0) ?second" using t by (intro step.wait) simp_all
  have w': "step ?second (ReturnWait 0 True) ?third"
    using t by (intro step.wait_idle [where ch = "c_idle ?c"]) (simp_all add: goto_def NewExecutionControllerWithTelemetry_def)
  have z: "occurrences (returns_wait 0) [] = 0" by simp
  have d: "c_draining ?c" by simp
  have final: "\<not> c_active ?third" using drain_is_final [OF r d w steps.none z w' steps.none] by blast
  have "steps ?init [CallBeginDrain] ?c" using r by (simp only: append_Nil)
  with w w' final show ?thesis by blast
qed

section \<open>Execution slots\<close>

text \<open>
  The limiter of a run is a buffered channel of capacity \<open>maxConcurrency\<close> in the context:
  \<open>limiter <- struct{}{}\<close> proceeds while it is not full, the release receives one element.
  A context without a limiter admits everyone. A goroutine is wanting, holding or neither.
\<close>

datatype slot_pc = NoSlot | Wanting | Holding

record slots =
  l_limiter :: "int option"
  l_buffered :: int
  l_holders :: "slot_pc list"

definition withExecutionLimiter :: "controller \<Rightarrow> nat \<Rightarrow> slots" where
  "withExecutionLimiter c n = \<lparr>l_limiter = Some (c_maxConcurrency c), l_buffered = 0, l_holders = replicate n NoSlot\<rparr>"

definition may_send :: "slots \<Rightarrow> bool" where
  "may_send s = (case l_limiter s of None \<Rightarrow> True | Some capacity \<Rightarrow> l_buffered s < capacity)"

definition may_receive :: "slots \<Rightarrow> bool" where
  "may_receive s = (case l_limiter s of None \<Rightarrow> True | Some capacity \<Rightarrow> 0 < l_buffered s)"

inductive slot_step :: "slots \<Rightarrow> slots \<Rightarrow> bool" where
  want: "i < length (l_holders s) \<Longrightarrow> l_holders s ! i = NoSlot \<Longrightarrow>
    slot_step s (s\<lparr>l_holders := (l_holders s)[i := Wanting]\<rparr>)"
| acquire: "i < length (l_holders s) \<Longrightarrow> l_holders s ! i = Wanting \<Longrightarrow> may_send s \<Longrightarrow>
    slot_step s (s\<lparr>l_buffered := (if l_limiter s = None then l_buffered s else l_buffered s + 1),
                   l_holders := (l_holders s)[i := Holding]\<rparr>)"
| canceled: "i < length (l_holders s) \<Longrightarrow> l_holders s ! i = Wanting \<Longrightarrow> l_limiter s \<noteq> None \<Longrightarrow>
    slot_step s (s\<lparr>l_holders := (l_holders s)[i := NoSlot]\<rparr>)"
| release: "i < length (l_holders s) \<Longrightarrow> l_holders s ! i = Holding \<Longrightarrow> may_receive s \<Longrightarrow>
    slot_step s (s\<lparr>l_buffered := (if l_limiter s = None then l_buffered s else l_buffered s - 1),
                   l_holders := (l_holders s)[i := NoSlot]\<rparr>)"

abbreviation held :: "slots \<Rightarrow> nat" where
  "held s \<equiv> at_pc (\<lambda>p. p = Holding) (l_holders s)"

definition slots_inv :: "int \<Rightarrow> slots \<Rightarrow> bool" where
  "slots_inv capacity s \<longleftrightarrow> l_limiter s = Some capacity \<and> l_buffered s = int (held s) \<and> l_buffered s \<le> capacity"

lemma slots_inv_init: "slots_inv (c_maxConcurrency c) (withExecutionLimiter c n)" if "0 \<le> c_maxConcurrency c"
  using that by (simp add: slots_inv_def withExecutionLimiter_def at_pc_def)

lemma slots_inv_step:
  assumes "slot_step s s'" "slots_inv capacity s"
  shows "slots_inv capacity s'"
  using assms(1)
proof (cases rule: slot_step.cases)
  case (want i)
  with at_pc_update [OF want(2), of "\<lambda>p. p = Holding" Wanting] assms(2) show ?thesis by (simp add: slots_inv_def)
next
  case (acquire i)
  with at_pc_update [OF acquire(2), of "\<lambda>p. p = Holding" Holding] assms(2) show ?thesis
    by (simp add: slots_inv_def may_send_def)
next
  case (canceled i)
  with at_pc_update [OF canceled(2), of "\<lambda>p. p = Holding" NoSlot] assms(2) show ?thesis by (simp add: slots_inv_def)
next
  case (release i)
  with at_pc_update [OF release(2), of "\<lambda>p. p = Holding" NoSlot] assms(2) show ?thesis by (simp add: slots_inv_def)
qed

lemma slots_inv_run: "slot_step\<^sup>*\<^sup>* s s' \<Longrightarrow> slots_inv capacity s \<Longrightarrow> slots_inv capacity s'"
  by (induction rule: rtranclp_induct) (auto intro: slots_inv_step)

text \<open>
  The concurrency budget of a run: never more checks hold an execution slot than the
  configured maximum (at least 1, whatever was configured), a holder can always give its slot
  back, and a goroutine can take one exactly while the budget is not used up.
\<close>

lemma execution_slots_bounded:
  assumes "slot_step\<^sup>*\<^sup>* (withExecutionLimiter (NewExecutionControllerWithTelemetry maxConcurrency telemetry k) n) s"
  shows "int (held s) \<le> max 1 maxConcurrency \<and>
    (may_send s \<longleftrightarrow> int (held s) < max 1 maxConcurrency) \<and>
    (\<forall>i < length (l_holders s). l_holders s ! i = Holding \<longrightarrow> (\<exists>s'. slot_step s s' \<and> l_holders s' = (l_holders s)[i := NoSlot]))"
proof -
  let ?c = "NewExecutionControllerWithTelemetry maxConcurrency telemetry k"
  have cap: "c_maxConcurrency ?c = max 1 maxConcurrency"
    by (simp add: NewExecutionControllerWithTelemetry_def)
  have inv: "slots_inv (max 1 maxConcurrency) s"
    using slots_inv_run [OF assms slots_inv_init] cap by simp
  have "\<exists>s'. slot_step s s' \<and> l_holders s' = (l_holders s)[i := NoSlot]"
    if i: "i < length (l_holders s)" "l_holders s ! i = Holding" for i
  proof -
    have "0 < held s" using at_pc_pos [OF i(1), of "\<lambda>p. p = Holding"] i(2) by simp
    with inv have "may_receive s" by (simp add: slots_inv_def may_receive_def)
    from slot_step.release [OF i this] show ?thesis by fastforce
  qed
  with inv show ?thesis by (auto simp: slots_inv_def may_send_def)
qed

lemma execution_slots_bounded_witness:
  "let s = withExecutionLimiter (NewExecutionControllerWithTelemetry (- 3) None 0) 2 in
     int (held s) \<le> 1 \<and> may_send s = (int (held s) < 1)"
  using execution_slots_bounded [of "- 3" None 0 2 "withExecutionLimiter (NewExecutionControllerWithTelemetry (- 3) None 0) 2"]
  by (simp add: Let_def)

end
