(* ===== verification/Run_Gate.thy ===== *)
theory Run_Gate
  imports Execution_Controller
begin

text \<open>
  What the execution controller promises, as an automaton of its own: a gate that lets one run in
  at a time and numbers the runs. The detailed transitions of \<open>Execution_Controller\<close> refine
  it, by a forward simulation stated once as a locale.
\<close>

section \<open>Forward simulation\<close>

inductive runs_through :: "('a \<Rightarrow> 'e \<Rightarrow> 'a \<Rightarrow> bool) \<Rightarrow> 'a \<Rightarrow> 'e list \<Rightarrow> 'a \<Rightarrow> bool"
  for astep :: "'a \<Rightarrow> 'e \<Rightarrow> 'a \<Rightarrow> bool" where
  stay: "runs_through astep a [] a"
| go: "runs_through astep a es b \<Longrightarrow> astep b e c \<Longrightarrow> runs_through astep a (es @ [e]) c"

locale forward_simulation =
  fixes inv :: "controller \<Rightarrow> bool"
    and visible :: "event \<Rightarrow> bool"
    and astep :: "'a \<Rightarrow> event \<Rightarrow> 'a \<Rightarrow> bool"
    and abst :: "controller \<Rightarrow> 'a"
  assumes inv_step: "step c e c' \<Longrightarrow> inv c \<Longrightarrow> inv c'"
    and simulates: "step c e c' \<Longrightarrow> inv c \<Longrightarrow> visible e \<Longrightarrow> astep (abst c) e (abst c')"
    and stutters: "step c e c' \<Longrightarrow> inv c \<Longrightarrow> \<not> visible e \<Longrightarrow> abst c' = abst c"
begin

lemma inv_steps: "steps c es c' \<Longrightarrow> inv c \<Longrightarrow> inv c'"
  by (induction rule: steps.induct) (auto intro: inv_step)

lemma trace_refines: "steps c es c' \<Longrightarrow> inv c \<Longrightarrow> runs_through astep (abst c) (filter visible es) (abst c')"
proof (induction rule: steps.induct)
  case (more c es c' e c'')
  then have ih: "runs_through astep (abst c) (filter visible es) (abst c')" by blast
  have "inv c'" using more inv_steps by blast
  show ?case
  proof (cases "visible e")
    case True
    then show ?thesis using runs_through.go [OF ih simulates [OF more.hyps(2) \<open>inv c'\<close>]] by simp
  next
    case False
    then show ?thesis using ih stutters [OF more.hyps(2) \<open>inv c'\<close>] by simp
  qed
qed (simp add: runs_through.stay)

end

section \<open>The gate\<close>

text \<open>The goroutine whose run is in progress, and the number of runs begun.\<close>

record gate =
  g_current :: "nat option"
  g_runs :: "64 word"

inductive gate_step :: "gate \<Rightarrow> event \<Rightarrow> gate \<Rightarrow> bool" where
  enter: "g_current g = None \<Longrightarrow>
    gate_step g (BeginRun i (run_id (g_runs g + 1))) \<lparr>g_current = Some i, g_runs = g_runs g + 1\<rparr>"
| leave: "g_current g = Some i \<Longrightarrow> gate_step g (EndRun i err) (g\<lparr>g_current := None\<rparr>)"

fun gate_event :: "event \<Rightarrow> bool" where
  "gate_event (BeginRun i rid) = True"
| "gate_event (EndRun i err) = True"
| "gate_event _ = False"

definition running_thread :: "pc list \<Rightarrow> nat option" where
  "running_thread ts = find (\<lambda>i. is_running (ts ! i)) [0..<length ts]"

definition gate_of :: "controller \<Rightarrow> gate" where
  "gate_of c = \<lparr>g_current = running_thread (c_threads c), g_runs = c_runSequence c\<rparr>"

lemma at_pc_card: "at_pc P ts = card {i. i < length ts \<and> P (ts ! i)}"
  by (simp add: at_pc_def length_filter_conv_card)

lemma at_most_one_in_run:
  assumes "controller_inv c" "i < length (c_threads c)" "j < length (c_threads c)" "in_run (c_threads c ! i)" "in_run (c_threads c ! j)"
  shows "i = j"
proof (rule ccontr)
  assume "i \<noteq> j"
  then have "2 = card {i, j}" by simp
  also have "\<dots> \<le> at_pc in_run (c_threads c)" unfolding at_pc_card using assms by (intro card_mono) auto
  finally show False using inv_run [OF assms(1)] by (simp split: if_splits)
qed

lemma is_running_in_run: "is_running p \<Longrightarrow> in_run p"
  by (cases p) auto

lemma running_thread_same:
  assumes "is_running p = is_running (ts ! i)"
  shows "running_thread (ts[i := p]) = running_thread ts"
proof -
  have "is_running (ts[i := p] ! j) = is_running (ts ! j)" for j
    using assms by (cases "i < length ts") (auto simp: nth_list_update list_update_beyond)
  then show ?thesis by (simp add: running_thread_def)
qed

lemma running_thread_None: "(\<And>j. j < length ts \<Longrightarrow> \<not> is_running (ts ! j)) \<Longrightarrow> running_thread ts = None"
  by (auto simp: running_thread_def find_None_iff)

lemma running_thread_Some:
  assumes "i < length ts" "is_running (ts ! i)" "\<And>j. j < length ts \<Longrightarrow> is_running (ts ! j) \<Longrightarrow> j = i"
  shows "running_thread ts = Some i"
proof -
  have "running_thread ts \<noteq> None" using assms(1,2) by (auto simp: running_thread_def find_None_iff)
  then obtain k where k: "running_thread ts = Some k" by blast
  then have "k < length ts" "is_running (ts ! k)" by (auto simp: running_thread_def find_Some_iff)
  with assms(3) k show ?thesis by blast
qed

lemma running_thread_enter:
  assumes "i < length ts" "is_running p" "\<And>j. j < length ts \<Longrightarrow> is_running (ts ! j) \<Longrightarrow> j = i"
  shows "running_thread (ts[i := p]) = Some i"
proof (rule running_thread_Some)
  fix j assume "j < length (ts[i := p])" "is_running (ts[i := p] ! j)"
  then show "j = i" using assms(3) [of j] by (metis length_list_update nth_list_update_neq)
qed (use assms(1,2) in simp_all)

lemma running_thread_leave:
  assumes "\<not> is_running p" "\<And>j. j < length ts \<Longrightarrow> is_running (ts ! j) \<Longrightarrow> j = i"
  shows "running_thread (ts[i := p]) = None"
proof (rule running_thread_None)
  fix j assume "j < length (ts[i := p])"
  then show "\<not> is_running (ts[i := p] ! j)"
    using assms(1) assms(2) [of j] by (metis length_list_update nth_list_update_eq nth_list_update_neq)
qed

lemma gate_simulates:
  assumes "step c e c'" "controller_inv c" "gate_event e"
  shows "gate_step (gate_of c) e (gate_of c')"
  using assms(1)
proof (cases rule: step.cases)
  case (number i startedAt)
  have others: "j = i" if "j < length (c_threads c)" "is_running (c_threads c ! j)" for j
    using at_most_one_in_run [OF assms(2) that(1) number(3) is_running_in_run [OF that(2)]] number(4) by simp
  then have free: "running_thread (c_threads c) = None"
    using number(4) by (intro running_thread_None) (metis is_running.simps(10))
  have seq: "c_runSequence c' = c_runSequence c + 1" unfolding number(2) by simp
  have "c_threads c' = (c_threads c)[i := Running startedAt (run_id (c_runSequence c + 1))]"
    unfolding number(2) by (simp add: goto_def)
  then have "running_thread (c_threads c') = Some i"
    using running_thread_enter [OF number(3) _ others] by simp
  then have "gate_of c' = \<lparr>g_current = Some i, g_runs = g_runs (gate_of c) + 1\<rparr>"
    using seq by (simp add: gate_of_def)
  moreover have "e = BeginRun i (run_id (g_runs (gate_of c) + 1))" using number(1) by (simp add: gate_of_def)
  moreover have "g_current (gate_of c) = None" using free by (simp add: gate_of_def)
  ultimately show ?thesis using gate_step.enter by metis
next
  case (runner_returns i startedAt runID err finishedAt)
  have others: "j = i" if "j < length (c_threads c)" "is_running (c_threads c ! j)" for j
    using at_most_one_in_run [OF assms(2) that(1) runner_returns(3) is_running_in_run [OF that(2)]] runner_returns(4) by simp
  have run: "is_running (c_threads c ! i)" unfolding runner_returns(4) by simp
  have busy: "running_thread (c_threads c) = Some i"
    by (rule running_thread_Some [OF runner_returns(3) run others])
  have seq: "c_runSequence c' = c_runSequence c" unfolding runner_returns(2) by simp
  have "c_threads c' = (c_threads c)[i := Storing startedAt finishedAt runID err]"
    unfolding runner_returns(2) by (simp add: goto_def)
  moreover have "\<not> is_running (Storing startedAt finishedAt runID err)" by simp
  ultimately have "running_thread (c_threads c') = None"
    using running_thread_leave [OF _ others] by metis
  then have "gate_of c' = (gate_of c)\<lparr>g_current := None\<rparr>" using seq by (simp add: gate_of_def)
  moreover have "g_current (gate_of c) = Some i" using busy by (simp add: gate_of_def)
  ultimately show ?thesis using runner_returns(1) gate_step.leave by metis
qed (use assms(3) in simp_all)

lemma gate_stutters:
  assumes "step c e c'" "\<not> gate_event e"
  shows "gate_of c' = gate_of c"
  using assms
  by (cases rule: step.cases) (auto simp: gate_of_def goto_def storeSummary_def running_thread_same)

interpretation gate: forward_simulation controller_inv gate_event gate_step gate_of
  by unfold_locales (auto intro: controller_inv_step gate_simulates gate_stutters)

text \<open>
  C4. The controller implements the gate: with any number of goroutines calling it, in any
  interleaving, the runs it begins and ends are a behaviour of an automaton that lets the next
  run begin only when the one before has ended, gives it the next number, and lets only the
  goroutine that began a run end it.
\<close>

lemma controller_refines_gate:
  assumes "started maxConcurrency telemetry n es c"
  shows "runs_through gate_step \<lparr>g_current = None, g_runs = 0\<rparr> (filter gate_event es) (gate_of c)"
proof -
  let ?c0 = "NewExecutionControllerWithTelemetry maxConcurrency telemetry n"
  have "running_thread (replicate n Outside) = None" by (rule running_thread_None) simp
  then have "gate_of ?c0 = \<lparr>g_current = None, g_runs = 0\<rparr>"
    by (simp add: gate_of_def NewExecutionControllerWithTelemetry_def)
  with gate.trace_refines [OF assms controller_inv_init] show ?thesis by simp
qed

lemma controller_refines_gate_witness:
  "\<exists>c es. started 4 None 1 es c \<and>
     filter gate_event es = [BeginRun 0 ''run-1''] \<and> runs_through gate_step \<lparr>g_current = None, g_runs = 0\<rparr> [BeginRun 0 ''run-1''] (gate_of c)"
proof -
  let ?c0 = "NewExecutionControllerWithTelemetry 4 None 1"
  let ?c1 = "goto 0 AtTryLock ?c0" let ?c2 = "goto 0 AtState (?c1\<lparr>c_mu := True\<rparr>)"
  let ?c3 = "goto 0 (Numbering 7) (?c2\<lparr>c_active := True, c_idle := c_channels ?c2, c_channels := c_channels ?c2 + 1\<rparr>)"
  let ?c4 = "goto 0 (Running 7 (run_id (c_runSequence ?c3 + 1))) (?c3\<lparr>c_runSequence := c_runSequence ?c3 + 1\<rparr>)"
  have c0: "c_threads ?c0 = [Outside]" "\<not> c_draining ?c0" "\<not> c_mu ?c0" "c_runSequence ?c0 = 0"
    by (simp_all add: NewExecutionControllerWithTelemetry_def)
  have rid: "run_id (c_runSequence ?c3 + 1) = ''run-1''" by (simp add: c0 run_id_def) code_simp
  have "steps ?c0 ([] @ [CallRun 0]) ?c1"
    using c0 by (intro steps.more [OF steps.none call_open]) simp_all
  then have "steps ?c0 (([] @ [CallRun 0]) @ [Internal]) ?c2"
    using c0 by (intro steps.more [OF _ step.try_lock]) (simp_all add: goto_def)
  then have "steps ?c0 ((([] @ [CallRun 0]) @ [Internal]) @ [Internal]) ?c3"
    using c0 by (intro steps.more [OF _ step.state_active]) (simp_all add: goto_def)
  then have r: "steps ?c0 (((([] @ [CallRun 0]) @ [Internal]) @ [Internal]) @ [BeginRun 0 (run_id (c_runSequence ?c3 + 1))]) ?c4"
    using c0 by (intro steps.more [OF _ step.number]) (simp_all add: goto_def)
  from controller_refines_gate [OF r] r show ?thesis
    by (intro exI [of _ ?c4] exI [of _ "((([] @ [CallRun 0]) @ [Internal]) @ [Internal]) @ [BeginRun 0 (run_id (c_runSequence ?c3 + 1))]"])
       (simp only: rid append.simps filter.simps gate_event.simps if_True if_False filter_append simp_thms)
qed

end
