(* ===== verification/Minute_Scheduler.thy ===== *)
theory Minute_Scheduler
  imports Telemetry
begin

text \<open>
  \<open>internal/adapters/scheduler/scheduler.go\<close>: the loop that starts a run at every minute
  boundary.

  A turn of the loop is one decision of its \<open>select\<close>: either the context ended, or the
  timer fired, with the readings of the clock the turn takes and the error of the task. The
  loop carries its timer: the boundary \<open>nextRun\<close> it is meant for, the duration the code gave
  to \<open>NewTimer\<close> or \<open>Reset\<close>, and when it was armed. The loop is run over the turns
  seen so far; it yields the runs it started and the timer it waits for next (\<open>None\<close> once it
  returned). All readings are of one clock.
\<close>

section \<open>The loop\<close>

definition time_truncate :: "instant \<Rightarrow> duration \<Rightarrow> instant" where
  "time_truncate t d = (if d \<le> 0 then t else t - t mod d)"

definition nextMinuteBoundary :: "instant \<Rightarrow> instant" where
  "nextMinuteBoundary now =
     (let boundary = time_truncate now go_minute
      in if \<not> time_after boundary now then time_add boundary go_minute else boundary)"

record timer =
  tm_nextRun :: instant
  tm_duration :: duration
  tm_armedAt :: instant

text \<open>\<open>time.Until(nextRun)\<close>, read at \<open>readAt\<close>, is the duration the timer gets.\<close>

definition arm :: "instant \<Rightarrow> instant \<Rightarrow> instant \<Rightarrow> timer" where
  "arm nextRun readAt armedAt = \<lparr>tm_nextRun = nextRun, tm_duration = time_sub nextRun readAt, tm_armedAt = armedAt\<rparr>"

record fired =
  f_startedAt :: instant
  f_failed :: bool
  f_finishedAt :: instant
  f_now :: instant
  f_readAt :: instant
  f_armedAt :: instant

datatype turn = Cancelled | Fired fired

record scheduled_run =
  sr_boundary :: instant
  sr_startedAt :: instant
  sr_finishedAt :: instant
  sr_metric :: telemetry_op

definition runTurn :: "instant \<Rightarrow> fired \<Rightarrow> scheduled_run" where
  "runTurn nextRun f =
     (let delay = max 0 (time_sub (f_startedAt f) nextRun);
          d = time_sub (f_finishedAt f) (f_startedAt f);
          outcome = (if f_failed f then ''error'' else ''success'')
      in \<lparr>sr_boundary = nextRun, sr_startedAt = f_startedAt f, sr_finishedAt = f_finishedAt f,
          sr_metric = OpScheduler delay d outcome\<rparr>)"

fun turns_loop :: "timer \<Rightarrow> turn list \<Rightarrow> scheduled_run list \<times> timer option" where
  "turns_loop timer [] = ([], Some timer)"
| "turns_loop timer (Cancelled # ts) = ([], None)"
| "turns_loop timer (Fired f # ts) =
     (case turns_loop (arm (nextMinuteBoundary (f_now f)) (f_readAt f) (f_armedAt f)) ts of
        (runs, next) \<Rightarrow> (runTurn (tm_nextRun timer) f # runs, next))"

definition RunEveryMinuteWithTelemetry :: "instant \<Rightarrow> instant \<Rightarrow> instant \<Rightarrow> turn list \<Rightarrow> scheduled_run list \<times> timer option" where
  "RunEveryMinuteWithTelemetry now readAt armedAt ts = turns_loop (arm (nextMinuteBoundary now) readAt armedAt) ts"

section \<open>Boundaries\<close>

lemma go_minute_pos: "0 < go_minute"
  by (simp add: go_units)

lemma nextMinuteBoundary_eq: "nextMinuteBoundary now = (now div go_minute + 1) * go_minute"
proof -
  have "now - now mod go_minute = now div go_minute * go_minute" by (simp add: minus_mod_eq_div_mult)
  moreover have "0 \<le> now mod go_minute" using go_minute_pos by simp
  ultimately show ?thesis
    using go_minute_pos
    by (simp add: nextMinuteBoundary_def time_truncate_def time_after_def time_add_def Let_def not_less algebra_simps)
qed

text \<open>
  The boundary waited for is the start of a minute, lies strictly after the given time and
  at most one minute later, and no other start of a minute lies between.
\<close>

lemma next_boundary_exact:
  "nextMinuteBoundary now mod go_minute = 0 \<and> now < nextMinuteBoundary now \<and> nextMinuteBoundary now \<le> now + go_minute \<and>
   (b mod go_minute = 0 \<and> now < b \<longrightarrow> nextMinuteBoundary now \<le> b)"
proof (intro conjI impI)
  show "nextMinuteBoundary now mod go_minute = 0" by (simp add: nextMinuteBoundary_eq)
  have "now mod go_minute < go_minute" "0 \<le> now mod go_minute" using go_minute_pos by simp_all
  moreover have "now = now div go_minute * go_minute + now mod go_minute" by simp
  ultimately show "now < nextMinuteBoundary now" "nextMinuteBoundary now \<le> now + go_minute"
    unfolding nextMinuteBoundary_eq distrib_right by linarith+
  assume b: "b mod go_minute = 0 \<and> now < b"
  then obtain k where k: "b = k * go_minute" by (metis mod_0_imp_dvd dvd_def mult.commute)
  have "now div go_minute < k"
  proof (rule ccontr)
    assume "\<not> now div go_minute < k"
    then have "k * go_minute \<le> now div go_minute * go_minute" using go_minute_pos by (intro mult_right_mono) auto
    also have "\<dots> \<le> now" using \<open>0 \<le> now mod go_minute\<close> \<open>now = now div go_minute * go_minute + now mod go_minute\<close> by linarith
    finally show False using b k by simp
  qed
  then show "nextMinuteBoundary now \<le> b"
    using go_minute_pos unfolding nextMinuteBoundary_eq k by (intro mult_right_mono) auto
qed

section \<open>Runs\<close>

text \<open>
  What the clock and a timer promise: a timer fires when the duration it was given has passed
  since it was armed, at once if that is negative, and no more than some latency later; successive
  readings do not decrease, and those between the end of a task and the arming of the timer are
  within the latency of each other. Nothing is said of the boundary.
\<close>

definition readings_ok :: "duration \<Rightarrow> instant \<Rightarrow> instant \<Rightarrow> instant \<Rightarrow> bool" where
  "readings_ok latency now readAt armedAt \<longleftrightarrow> now \<le> readAt \<and> readAt \<le> armedAt \<and> armedAt \<le> now + latency"

fun clock_ok :: "duration \<Rightarrow> timer \<Rightarrow> turn list \<Rightarrow> bool" where
  "clock_ok latency timer [] = True"
| "clock_ok latency timer (Cancelled # ts) = True"
| "clock_ok latency timer (Fired f # ts) \<longleftrightarrow>
     (let due = tm_armedAt timer + max 0 (tm_duration timer) in due \<le> f_startedAt f \<and> f_startedAt f \<le> due + latency) \<and>
     f_startedAt f \<le> f_finishedAt f \<and> f_finishedAt f \<le> f_now f \<and> f_now f \<le> f_finishedAt f + latency \<and>
     readings_ok latency (f_now f) (f_readAt f) (f_armedAt f) \<and>
     clock_ok latency (arm (nextMinuteBoundary (f_now f)) (f_readAt f) (f_armedAt f)) ts"

definition minute_of :: "instant \<Rightarrow> int" where
  "minute_of t = t div go_minute"

text \<open>The timer is due at its boundary, up to the latency.\<close>

definition timer_ok :: "duration \<Rightarrow> timer \<Rightarrow> bool" where
  "timer_ok latency timer \<longleftrightarrow> tm_nextRun timer mod go_minute = 0 \<and>
     (let due = tm_armedAt timer + max 0 (tm_duration timer) in tm_nextRun timer \<le> due \<and> due \<le> tm_nextRun timer + latency)"

lemma armed_timer_ok:
  assumes "readings_ok latency now readAt armedAt"
  shows "timer_ok latency (arm (nextMinuteBoundary now) readAt armedAt)"
proof -
  let ?b = "nextMinuteBoundary now"
  note b = next_boundary_exact [of now 0]
  have "?b - readAt \<le> go_minute" using b assms by (simp add: readings_ok_def)
  then have "max 0 (time_sub ?b readAt) = max 0 (?b - readAt)"
    by (simp add: time_sub_def go_units max_duration_def min_duration_def)
  with b assms show ?thesis by (auto simp: timer_ok_def arm_def readings_ok_def Let_def max_def)
qed

definition run_ok :: "duration \<Rightarrow> scheduled_run \<Rightarrow> bool" where
  "run_ok latency r \<longleftrightarrow> sr_boundary r mod go_minute = 0 \<and> sr_boundary r \<le> sr_startedAt r \<and>
     sr_startedAt r \<le> sr_boundary r + 2 * latency \<and> sr_startedAt r \<le> sr_finishedAt r"

definition run_before :: "scheduled_run \<Rightarrow> scheduled_run \<Rightarrow> bool" where
  "run_before r1 r2 \<longleftrightarrow>
     sr_finishedAt r1 < sr_boundary r2 \<and> minute_of (sr_finishedAt r1) < minute_of (sr_startedAt r2)"

lemma minute_mono: "t \<le> u \<Longrightarrow> minute_of t \<le> minute_of u"
  using go_minute_pos by (simp add: minute_of_def zdiv_mono1)

lemma minute_of_boundary: "minute_of (nextMinuteBoundary now) = minute_of now + 1"
  using go_minute_pos by (simp add: minute_of_def nextMinuteBoundary_eq)

lemma turns_loop_first: "fst (turns_loop timer ts) \<noteq> [] \<Longrightarrow> sr_boundary (hd (fst (turns_loop timer ts))) = tm_nextRun timer"
  by (cases "(timer, ts)" rule: turns_loop.cases) (auto simp: runTurn_def Let_def case_prod_unfold)

fun prompt :: "duration \<Rightarrow> scheduled_run list \<Rightarrow> bool" where
  "prompt latency (r1 # r2 # runs) \<longleftrightarrow> sr_boundary r2 \<le> sr_finishedAt r1 + latency + go_minute \<and> prompt latency (r2 # runs)"
| "prompt latency _ \<longleftrightarrow> True"

lemma prompt_nth: "prompt latency runs \<Longrightarrow> Suc i < length runs \<Longrightarrow>
    sr_boundary (runs ! Suc i) \<le> sr_finishedAt (runs ! i) + latency + go_minute"
proof (induction latency runs arbitrary: i rule: prompt.induct)
  case (1 latency r1 r2 runs)
  then show ?case by (cases i) auto
qed simp_all

lemma runs_from:
  assumes "clock_ok latency timer ts" "timer_ok latency timer"
  shows "(\<forall>r \<in> set (fst (turns_loop timer ts)). run_ok latency r \<and> tm_nextRun timer \<le> sr_boundary r) \<and>
         sorted_wrt run_before (fst (turns_loop timer ts)) \<and> prompt latency (fst (turns_loop timer ts))"
  using assms
proof (induction timer ts rule: turns_loop.induct)
  case (3 timer f ts)
  let ?t = "arm (nextMinuteBoundary (f_now f)) (f_readAt f) (f_armedAt f)"
  let ?b = "nextMinuteBoundary (f_now f)" and ?runs = "fst (turns_loop ?t ts)"
  note b = next_boundary_exact [of "f_now f" 0]
  have clock: "f_startedAt f \<le> f_finishedAt f" "f_finishedAt f \<le> f_now f" "f_now f \<le> f_finishedAt f + latency"
      "readings_ok latency (f_now f) (f_readAt f) (f_armedAt f)" "clock_ok latency ?t ts"
    and start: "tm_nextRun timer \<le> f_startedAt f" "f_startedAt f \<le> tm_nextRun timer + 2 * latency"
    using 3(2,3) by (simp_all add: timer_ok_def Let_def)
  note IH = 3(1) [OF clock(5) armed_timer_ok [OF clock(4)]]
  have tb: "tm_nextRun ?t = ?b" by (simp add: arm_def)
  have first: "run_ok latency (runTurn (tm_nextRun timer) f)" "sr_boundary (runTurn (tm_nextRun timer) f) = tm_nextRun timer"
    using clock start 3(3) by (simp_all add: runTurn_def run_ok_def timer_ok_def Let_def)
  moreover have "run_before (runTurn (tm_nextRun timer) f) r" if "r \<in> set ?runs" for r
  proof -
    from IH that tb have r: "run_ok latency r" "?b \<le> sr_boundary r" by auto
    have "minute_of (f_finishedAt f) < minute_of ?b"
      using minute_mono [OF clock(2)] by (simp add: minute_of_boundary)
    moreover have "?b \<le> sr_startedAt r" using r by (simp add: run_ok_def)
    ultimately have "minute_of (f_finishedAt f) < minute_of (sr_startedAt r)"
      using minute_mono [of ?b "sr_startedAt r"] by simp
    with r(2) b clock show ?thesis by (simp add: run_before_def runTurn_def Let_def)
  qed
  moreover have "tm_nextRun timer \<le> ?b" using clock start b by linarith
  moreover have "prompt latency (runTurn (tm_nextRun timer) f # ?runs)"
  proof (cases ?runs)
    case (Cons r rs)
    then have "sr_boundary r = ?b" using turns_loop_first [of ?t ts] tb by simp
    with Cons IH b clock show ?thesis by (simp add: runTurn_def Let_def)
  qed simp
  ultimately show ?case using IH tb by (auto simp: case_prod_unfold intro: order_trans)
qed simp_all

text \<open>
  C14. Whatever the tasks take, the timer is given durations that make every run start at the
  minute boundary it is meant for, never before it and at most twice the latency of clock and timer
  after it; runs never overlap, and no two of them start in the same minute: a run that overruns
  makes the loop skip boundaries instead of piling runs up. No boundary is skipped otherwise: the first
  run is meant for a boundary at most a minute after the start, and each later one for a boundary
  at most a minute, and the latency, after the end of the run before it.
\<close>

lemma one_run_per_minute:
  assumes "readings_ok latency now readAt armedAt"
    and "clock_ok latency (arm (nextMinuteBoundary now) readAt armedAt) ts"
    and "RunEveryMinuteWithTelemetry now readAt armedAt ts = (runs, next)"
  shows "(\<forall>r \<in> set runs. sr_boundary r mod go_minute = 0 \<and> now < sr_boundary r \<and>
       sr_boundary r \<le> sr_startedAt r \<and> sr_startedAt r \<le> sr_boundary r + 2 * latency) \<and>
    (\<forall>i j. i < j \<and> j < length runs \<longrightarrow>
       sr_finishedAt (runs ! i) < sr_startedAt (runs ! j) \<and>
       minute_of (sr_startedAt (runs ! i)) < minute_of (sr_startedAt (runs ! j))) \<and>
    (runs \<noteq> [] \<longrightarrow> sr_boundary (runs ! 0) \<le> now + go_minute) \<and>
    (\<forall>i. Suc i < length runs \<longrightarrow> sr_boundary (runs ! Suc i) \<le> sr_finishedAt (runs ! i) + latency + go_minute)"
proof -
  note b = next_boundary_exact [of now 0]
  let ?t = "arm (nextMinuteBoundary now) readAt armedAt"
  have runs: "runs = fst (turns_loop ?t ts)" using assms(3) by (simp add: RunEveryMinuteWithTelemetry_def)
  have tb: "tm_nextRun ?t = nextMinuteBoundary now" by (simp add: arm_def)
  note rf = runs_from [OF assms(2) armed_timer_ok [OF assms(1)], folded runs, unfolded tb]
  have before: "sr_finishedAt (runs ! i) < sr_startedAt (runs ! j) \<and>
      minute_of (sr_startedAt (runs ! i)) < minute_of (sr_startedAt (runs ! j))" if "i < j" "j < length runs" for i j
  proof -
    have "run_before (runs ! i) (runs ! j)" using rf that by (simp add: sorted_wrt_nth_less)
    moreover have "run_ok latency (runs ! i)" "run_ok latency (runs ! j)" using rf that by simp_all
    ultimately show ?thesis
      using minute_mono [of "sr_startedAt (runs ! i)" "sr_finishedAt (runs ! i)"]
      by (auto simp: run_before_def run_ok_def)
  qed
  have each: "sr_boundary r mod go_minute = 0 \<and> now < sr_boundary r \<and>
       sr_boundary r \<le> sr_startedAt r \<and> sr_startedAt r \<le> sr_boundary r + 2 * latency" if "r \<in> set runs" for r
    using rf that b by (force simp: run_ok_def)
  have "sr_boundary (runs ! 0) \<le> now + go_minute" if "runs \<noteq> []"
    using turns_loop_first [of ?t ts] that b tb by (simp add: runs hd_conv_nth)
  with before each prompt_nth [of latency runs] rf show ?thesis by blast
qed

text \<open>Two runs, the first of which overruns three boundaries; all readings are a millisecond late.\<close>

lemma one_run_per_minute_witness:
  "let ms = 1000000;
       f = (\<lambda>s e. Fired \<lparr>f_startedAt = s * go_second + ms, f_failed = False, f_finishedAt = e * go_second,
              f_now = e * go_second + ms, f_readAt = e * go_second + ms, f_armedAt = e * go_second + ms\<rparr>);
       runs = fst (RunEveryMinuteWithTelemetry (90 * go_second) (90 * go_second) (90 * go_second) [f 120 250, f 300 301, Cancelled])
   in map sr_boundary runs = [120 * go_second, 300 * go_second] \<and>
      sr_startedAt (runs ! 1) \<le> 300 * go_second + 2 * ms \<and>
      minute_of (sr_startedAt (runs ! 0)) < minute_of (sr_startedAt (runs ! 1))"
proof -
  let ?ms = "1000000 :: int" and ?s = "90 * go_second"
  let ?f = "\<lambda>s e. Fired \<lparr>f_startedAt = s * go_second + ?ms, f_failed = False, f_finishedAt = e * go_second,
              f_now = e * go_second + ?ms, f_readAt = e * go_second + ?ms, f_armedAt = e * go_second + ?ms\<rparr>"
  let ?ts = "[?f 120 250, ?f 300 301, Cancelled]"
  have b: "nextMinuteBoundary ?s = 120 * go_second" "nextMinuteBoundary (250 * go_second + ?ms) = 300 * go_second"
    "nextMinuteBoundary (301 * go_second + ?ms) = 360 * go_second"
    by (simp_all add: nextMinuteBoundary_eq go_units)
  have r0: "readings_ok ?ms ?s ?s ?s" by (simp add: readings_ok_def)
  have ok: "clock_ok ?ms (arm (nextMinuteBoundary ?s) ?s ?s) ?ts"
    by (simp add: nextMinuteBoundary_eq arm_def readings_ok_def time_sub_def max_duration_def min_duration_def go_units)
  obtain runs r1 r2 nxt where r: "RunEveryMinuteWithTelemetry ?s ?s ?s ?ts = (runs, nxt)"
    "runs = [r1, r2]" "sr_boundary r1 = 120 * go_second" "sr_boundary r2 = 300 * go_second"
    by (simp add: RunEveryMinuteWithTelemetry_def b runTurn_def Let_def arm_def)
  note all = one_run_per_minute [OF r0 ok r(1)]
  from all have "\<forall>i j. i < j \<and> j < length runs \<longrightarrow>
       minute_of (sr_startedAt (runs ! i)) < minute_of (sr_startedAt (runs ! j))" by blast
  then have "minute_of (sr_startedAt (runs ! 0)) < minute_of (sr_startedAt (runs ! 1))"
    unfolding r(2) by (elim allE [of _ 0] allE [of _ 1]) simp
  moreover have "sr_startedAt (runs ! 1) \<le> sr_boundary (runs ! 1) + 2 * ?ms"
    using all r(2) by (elim conjE ballE [of _ _ "runs ! 1"]) simp_all
  ultimately show ?thesis using r by (simp add: Let_def)
qed

text \<open>Every run is measured once, with its real lateness and outcome.\<close>

lemma run_metric:
  "turns_loop timer ts = (runs, next) \<Longrightarrow> r \<in> set runs \<Longrightarrow>
   \<exists>outcome \<in> {''success'', ''error''}. sr_metric r =
     OpScheduler (max 0 (time_sub (sr_startedAt r) (sr_boundary r))) (time_sub (sr_finishedAt r) (sr_startedAt r)) outcome"
  by (induction timer ts arbitrary: runs rule: turns_loop.induct) (auto simp: runTurn_def Let_def split: prod.splits)

end
