(* ===== verification/Worker_Pool.thy ===== *)
theory Worker_Pool
  imports Go_Prelude
begin

text \<open>
  The worker pool that \<open>runClaimedJobs\<close>, \<open>runResponse\<close>, \<open>runSSL\<close> and
  \<open>runDomainExpiration\<close> each build: an unbuffered channel, a fixed number of worker
  goroutines that range over it, a feeding loop that sends the jobs and then closes the
  channel, and a wait group.

  The feeding loop is a list of instructions: an effect of its own, or a send. A job taken by a
  worker unfolds into one of the effect sequences \<open>body\<close> allows for it (the answers of the
  network, the clock and the shared cadence state decide which). One transition is one
  effect, one hand-over of the channel, the close, or the exit of a worker; every schedule of
  the goroutines is a run of the relation. \<open>p_taken\<close> and \<open>p_trace\<close> record the jobs
  handed over and the effects so far.
\<close>

section \<open>Transitions\<close>

datatype ('j, 'e) feed = Emit 'e | Send 'j

datatype 'e worker = Waiting | Working "'e list" | Exited

record ('j, 'e) pool =
  p_feed :: "('j, 'e) feed list"
  p_closed :: bool
  p_workers :: "'e worker list"
  p_taken :: "'j list"
  p_trace :: "'e list"

definition new_pool :: "nat \<Rightarrow> ('j, 'e) feed list \<Rightarrow> ('j, 'e) pool" where
  "new_pool n fs = \<lparr>p_feed = fs, p_closed = False, p_workers = replicate n Waiting, p_taken = [], p_trace = []\<rparr>"

inductive pool_step :: "('j \<Rightarrow> 'e list \<Rightarrow> bool) \<Rightarrow> ('j, 'e) pool \<Rightarrow> ('j, 'e) pool \<Rightarrow> bool"
  for body :: "'j \<Rightarrow> 'e list \<Rightarrow> bool" where
  emit: "p_feed s = Emit e # fs \<Longrightarrow> pool_step body s (s\<lparr>p_feed := fs, p_trace := p_trace s @ [e]\<rparr>)"
| hand: "p_feed s = Send j # fs \<Longrightarrow> i < length (p_workers s) \<Longrightarrow> p_workers s ! i = Waiting \<Longrightarrow> body j es \<Longrightarrow>
    pool_step body s (s\<lparr>p_feed := fs, p_workers := (p_workers s)[i := Working es], p_taken := p_taken s @ [j]\<rparr>)"
| work: "i < length (p_workers s) \<Longrightarrow> p_workers s ! i = Working (e # es) \<Longrightarrow>
    pool_step body s (s\<lparr>p_workers := (p_workers s)[i := Working es], p_trace := p_trace s @ [e]\<rparr>)"
| again: "i < length (p_workers s) \<Longrightarrow> p_workers s ! i = Working [] \<Longrightarrow>
    pool_step body s (s\<lparr>p_workers := (p_workers s)[i := Waiting]\<rparr>)"
| close: "p_feed s = [] \<Longrightarrow> \<not> p_closed s \<Longrightarrow> pool_step body s (s\<lparr>p_closed := True\<rparr>)"
| exit: "p_closed s \<Longrightarrow> i < length (p_workers s) \<Longrightarrow> p_workers s ! i = Waiting \<Longrightarrow>
    pool_step body s (s\<lparr>p_workers := (p_workers s)[i := Exited]\<rparr>)"

text \<open>\<open>workers.Wait()\<close> returns once the channel is closed and every worker has exited.\<close>

definition pool_done :: "('j, 'e) pool \<Rightarrow> bool" where
  "pool_done s \<longleftrightarrow> p_closed s \<and> (\<forall>w \<in> set (p_workers s). w = Exited)"

abbreviation pool_run :: "('j \<Rightarrow> 'e list \<Rightarrow> bool) \<Rightarrow> ('j, 'e) pool \<Rightarrow> ('j, 'e) pool \<Rightarrow> bool" where
  "pool_run body \<equiv> (pool_step body)\<^sup>*\<^sup>*"

inductive_cases pool_stepE: "pool_step body s s'"

fun sends :: "('j, 'e) feed list \<Rightarrow> 'j list" where
  "sends [] = []"
| "sends (Emit e # fs) = sends fs"
| "sends (Send j # fs) = j # sends fs"

fun emits :: "('j, 'e) feed list \<Rightarrow> 'e list" where
  "emits [] = []"
| "emits (Emit e # fs) = e # emits fs"
| "emits (Send j # fs) = emits fs"

section \<open>Interleavings\<close>

text \<open>\<open>interleaves xss ys\<close>: \<open>ys\<close> merges the sequences \<open>xss\<close>, each kept in order.\<close>

inductive interleaves :: "'a list list \<Rightarrow> 'a list \<Rightarrow> bool" where
  stop: "\<forall>xs \<in> set xss. xs = [] \<Longrightarrow> interleaves xss []"
| pick: "i < length xss \<Longrightarrow> xss ! i = x # xs \<Longrightarrow> interleaves (xss[i := xs]) ys \<Longrightarrow> interleaves xss (x # ys)"

lemma interleaves_mset: "interleaves xss ys \<Longrightarrow> mset ys = (\<Sum>xs\<leftarrow>xss. mset xs)"
proof (induction rule: interleaves.induct)
  case (stop xss)
  then show ?case by (induction xss) auto
next
  case (pick i xss x xs ys)
  have "xss = take i xss @ (x # xs) # drop (Suc i) xss"
    using pick.hyps(1,2) by (metis id_take_nth_drop)
  then have "(\<Sum>zs\<leftarrow>xss. mset zs) = (\<Sum>zs\<leftarrow>take i xss. mset zs) + mset (x # xs) + (\<Sum>zs\<leftarrow>drop (Suc i) xss. mset zs)"
    by (metis (mono_tags, lifting) add.assoc list.simps(9) map_append sum_list.Cons sum_list.append)
  moreover have "xss[i := xs] = take i xss @ xs # drop (Suc i) xss"
    using pick.hyps(1) by (rule upd_conv_take_nth_drop)
  ultimately show ?case using pick.IH by simp
qed

lemma interleaves_filter: "interleaves xss ys \<Longrightarrow> interleaves (map (filter P) xss) (filter P ys)"
proof (induction rule: interleaves.induct)
  case (stop xss)
  then have "\<forall>xs \<in> set (map (filter P) xss). xs = []" by auto
  from interleaves.stop [OF this] show ?case by simp
next
  case (pick i xss x xs ys)
  show ?case
  proof (cases "P x")
    case True
    have "interleaves (map (filter P) xss) (x # filter P ys)"
      using pick.hyps pick.IH True by (intro interleaves.pick [of i _ _ "filter P xs"]) (auto simp: map_update)
    with True show ?thesis by simp
  next
    case False
    have "(map (filter P) xss)[i := filter P xs] = map (filter P) xss"
      using pick.hyps(1,2) False by (auto simp: list_update_same_conv)
    with pick.IH False show ?thesis by (simp add: map_update)
  qed
qed

lemma interleaves_some: "\<exists>ys. interleaves xss ys"
proof (induction "sum_list (map length xss)" arbitrary: xss rule: less_induct)
  case less
  show ?case
  proof (cases "\<forall>xs \<in> set xss. xs = []")
    case True
    then show ?thesis by (blast intro: interleaves.stop)
  next
    case False
    then obtain zs where "zs \<in> set xss" "zs \<noteq> []" by blast
    then obtain i x xs where i: "i < length xss" "xss ! i = x # xs"
      unfolding in_set_conv_nth by (metis list.exhaust)
    then have "sum_list (map length (xss[i := xs])) < sum_list (map length xss)"
    proof (induction xss arbitrary: i)
      case (Cons a xss)
      then show ?case by (cases i) auto
    qed simp
    from less [OF this] obtain ys where "interleaves (xss[i := xs]) ys" by blast
    with i show ?thesis by (blast intro: interleaves.pick)
  qed
qed

text \<open>The order of the merged sequences and empty ones among them do not matter.\<close>

abbreviation nonempty :: "'a list list \<Rightarrow> 'a list multiset" where
  "nonempty xss \<equiv> filter_mset (\<lambda>xs. xs \<noteq> []) (mset xss)"

lemma nonempty_update:
  "i < length xss \<Longrightarrow> xss ! i = x # xs \<Longrightarrow>
   nonempty (xss[i := xs]) = (nonempty xss - {#x # xs#}) + (if xs = [] then {#} else {#xs#})"
  by (simp add: mset_update)

lemma interleaves_cong:
  "interleaves xss ys \<Longrightarrow> nonempty xss = nonempty xss' \<Longrightarrow> interleaves xss' ys"
proof (induction arbitrary: xss' rule: interleaves.induct)
  case (stop xss)
  have "nonempty xss = {#}" using stop.hyps by simp
  with stop.prems have "nonempty xss' = {#}" by (rule trans [OF sym])
  then have "\<forall>xs \<in> set xss'. xs = []" by auto
  then show ?case by (rule interleaves.stop)
next
  case (pick i xss x xs ys)
  have "x # xs \<in># nonempty xss" using pick.hyps(1,2) by (auto simp: in_set_conv_nth)
  then have "x # xs \<in> set xss'" using pick.prems by auto
  then obtain k where k: "k < length xss'" "xss' ! k = x # xs" by (auto simp: in_set_conv_nth)
  have "nonempty (xss[i := xs]) = nonempty (xss'[k := xs])"
    using pick.prems nonempty_update [OF pick.hyps(1,2)] nonempty_update [OF k] by simp
  from pick.IH [OF this] k show ?case by (intro interleaves.pick [of k _ x xs]) auto
qed

section \<open>What a run does\<close>

lemma pool_step_workers: "pool_step body s s' \<Longrightarrow> length (p_workers s') = length (p_workers s)"
  by (induction rule: pool_step.induct) auto

lemma pool_run_workers: "pool_run body s s' \<Longrightarrow> length (p_workers s') = length (p_workers s)"
  by (induction rule: rtranclp_induct) (auto dest: pool_step_workers)

lemma pool_step_taken: "pool_step body s s' \<Longrightarrow> p_taken s' @ sends (p_feed s') = p_taken s @ sends (p_feed s)"
  by (induction rule: pool_step.induct) auto

lemma pool_run_taken: "pool_run body s s' \<Longrightarrow> p_taken s' @ sends (p_feed s') = p_taken s @ sends (p_feed s)"
  by (induction rule: rtranclp_induct) (auto dest: pool_step_taken)

lemma pool_step_closed: "pool_step body s s' \<Longrightarrow> (p_closed s \<longrightarrow> p_feed s = []) \<Longrightarrow> p_closed s' \<longrightarrow> p_feed s' = []"
  by (induction rule: pool_step.induct) auto

lemma pool_run_closed: "pool_run body s s' \<Longrightarrow> (p_closed s \<longrightarrow> p_feed s = []) \<Longrightarrow> p_closed s' \<longrightarrow> p_feed s' = []"
  by (induction rule: rtranclp_induct) (auto dest: pool_step_closed)

fun rest :: "'e worker \<Rightarrow> 'e list" where
  "rest (Working es) = es"
| "rest _ = []"

text \<open>From any state, what is still to come is a merge of the feeder's own effects, of what the
  workers have in hand and of one body per job still to be sent.\<close>

lemma pool_run_trace:
  assumes "pool_run body s t" "pool_done t" "p_closed t \<longrightarrow> p_feed t = []"
  shows "\<exists>ess tr. list_all2 body (sends (p_feed s)) ess \<and> p_trace t = p_trace s @ tr \<and>
           interleaves (emits (p_feed s) # map rest (p_workers s) @ ess) tr"
  using assms
proof (induction rule: converse_rtranclp_induct)
  case base
  then have "p_feed t = []" "\<forall>xs \<in> set (map rest (p_workers t)). xs = []"
    by (auto simp: pool_done_def)
  moreover from this(2) have "interleaves ([] # map rest (p_workers t) @ []) []"
    by (intro interleaves.stop) auto
  ultimately show ?case by (intro exI [of _ "[]"]) simp
next
  case (step s u)
  from step.IH [OF step.prems] obtain ess tr where u:
    "list_all2 body (sends (p_feed u)) ess" "p_trace t = p_trace u @ tr"
    "interleaves (emits (p_feed u) # map rest (p_workers u) @ ess) tr" by blast
  from step.hyps(1) show ?case
  proof (cases rule: pool_step.cases)
    case (emit e fs)
    have "interleaves (emits (p_feed s) # map rest (p_workers s) @ ess) (e # tr)"
      using emit u(3) by (intro interleaves.pick [of 0 _ e "emits fs"]) auto
    with emit u show ?thesis by (intro exI [of _ ess] exI [of _ "e # tr"]) simp
  next
    case (hand j fs i es)
    have "mset ((map rest (p_workers s))[i := es]) = add_mset es (mset (map rest (p_workers s)) - {#[]#})"
      using hand by (subst mset_update) auto
    then have "nonempty (map rest (p_workers u)) = nonempty (map rest (p_workers s)) + (if es = [] then {#} else {#es#})"
      using hand by (simp add: map_update)
    then have "nonempty (emits (p_feed u) # map rest (p_workers u) @ ess) =
        nonempty (emits (p_feed s) # map rest (p_workers s) @ es # ess)"
      using hand by simp
    from interleaves_cong [OF u(3) this] hand u(1,2) show ?thesis
      by (intro exI [of _ "es # ess"] exI [of _ tr]) simp
  next
    case (work i e es)
    have "interleaves (emits (p_feed s) # map rest (p_workers s) @ ess) (e # tr)"
      using work u(3) by (intro interleaves.pick [of "Suc i" _ e es]) (auto simp: nth_append map_update list_update_append)
    with work u show ?thesis by (intro exI [of _ ess] exI [of _ "e # tr"]) simp
  next
    case (again i)
    have "map rest (p_workers u) = map rest (p_workers s)"
      using again by (auto simp: map_update list_update_same_conv)
    with again u show ?thesis by (intro exI [of _ ess] exI [of _ tr]) simp
  next
    case close
    with u show ?thesis by (intro exI [of _ ess] exI [of _ tr]) simp
  next
    case (exit i)
    have "map rest (p_workers u) = map rest (p_workers s)"
      using exit by (auto simp: map_update list_update_same_conv)
    with exit u show ?thesis by (intro exI [of _ ess] exI [of _ tr]) simp
  qed
qed

section \<open>Every run ends, and ends with everything done\<close>

text \<open>No run is stuck: while the pool is not done, a step is possible.\<close>

lemma pool_progress:
  assumes "p_workers s \<noteq> []" "\<And>j. \<exists>es. body j es" "p_closed s \<longrightarrow> p_feed s = []"
    "p_closed s \<or> Exited \<notin> set (p_workers s)"
  shows "pool_done s \<or> (\<exists>s'. pool_step body s s')"
proof (cases "\<exists>i < length (p_workers s). \<exists>es. p_workers s ! i = Working es")
  case True
  then obtain i es where i: "i < length (p_workers s)" "p_workers s ! i = Working es" by blast
  then show ?thesis by (cases es) (auto intro: pool_step.work pool_step.again)
next
  case False
  then have idle: "w = Waiting \<or> w = Exited" if "w \<in> set (p_workers s)" for w
    using that by (cases w) (auto simp: in_set_conv_nth)
  show ?thesis
  proof (cases "p_closed s")
    case True
    then show ?thesis using idle pool_step.exit [of s _ body]
      by (auto simp: pool_done_def in_set_conv_nth) metis
  next
    case open_feed: False
    have "p_workers s ! 0 \<in> set (p_workers s)" using assms(1) by (cases "p_workers s") auto
    moreover from this have "p_workers s ! 0 \<noteq> Exited" using open_feed assms(4) by metis
    ultimately have "p_workers s ! 0 = Waiting" "0 < length (p_workers s)"
      using assms(1) idle by blast+
    then show ?thesis using open_feed assms(2) pool_step.close [of s body] pool_step.hand [of s _ _ 0 body]
        pool_step.emit [of s _ _ body]
      by (metis feed.exhaust list.exhaust)
  qed
qed

lemma pool_exited_step:
  "pool_step body s s' \<Longrightarrow> p_closed s \<or> Exited \<notin> set (p_workers s) \<Longrightarrow> p_closed s' \<or> Exited \<notin> set (p_workers s')"
  by (induction rule: pool_step.induct) (auto dest!: set_update_subset_insert [THEN subsetD])

lemma pool_exited_run:
  "pool_run body s s' \<Longrightarrow> p_closed s \<or> Exited \<notin> set (p_workers s) \<Longrightarrow> p_closed s' \<or> Exited \<notin> set (p_workers s')"
  by (induction rule: rtranclp_induct) (auto dest: pool_exited_step)

text \<open>No run is endless: what is left to feed, to do and to exit gets smaller.\<close>

fun worker_weight :: "'e worker \<Rightarrow> nat" where
  "worker_weight Waiting = 1"
| "worker_weight (Working es) = length es + 2"
| "worker_weight Exited = 0"

definition pool_weight :: "('j, 'e) pool \<Rightarrow> nat \<times> nat" where
  "pool_weight s = (length (p_feed s) + (if p_closed s then 0 else 1), sum_list (map worker_weight (p_workers s)))"

lemma weight_update:
  "i < length ws \<Longrightarrow> worker_weight w < worker_weight (ws ! i) \<Longrightarrow>
   sum_list (map worker_weight (ws[i := w])) < sum_list (map worker_weight ws)"
  by (induction ws arbitrary: i) (auto simp: nth_Cons' split: nat.splits)

lemma pool_step_weight: "pool_step body s s' \<Longrightarrow> (pool_weight s', pool_weight s) \<in> less_than <*lex*> less_than"
  by (induction rule: pool_step.induct) (auto simp: pool_weight_def weight_update)

lemma pool_terminates: "wfP (\<lambda>s' s. pool_step body s s')"
proof -
  have "wf (inv_image (less_than <*lex*> less_than) (pool_weight :: ('j, 'e) pool \<Rightarrow> nat \<times> nat))" by auto
  then have "wf {(s', s). pool_step body s s'}"
    by (rule wf_subset) (auto dest: pool_step_weight)
  then show ?thesis by (simp add: wfp_def)
qed

lemma pool_reaches_done:
  assumes "p_workers s \<noteq> []" "\<And>j. \<exists>es. body j es" "p_closed s \<longrightarrow> p_feed s = []"
    "p_closed s \<or> Exited \<notin> set (p_workers s)"
  shows "\<exists>t. pool_run body s t \<and> pool_done t"
  using assms(1,3,4)
proof (induction s rule: wfp_induct_rule [OF pool_terminates [of body]])
  case (1 s)
  from pool_progress [OF 1(2) assms(2) 1(3,4)] show ?case
  proof
    assume "pool_done s"
    then show ?thesis by blast
  next
    assume "\<exists>s'. pool_step body s s'"
    then obtain s' where s': "pool_step body s s'" by blast
    have "p_workers s' \<noteq> []" using pool_step_workers [OF s'] 1(2) by (metis length_0_conv)
    with 1(1) [OF s'] pool_step_closed [OF s' 1(3)] pool_exited_step [OF s' 1(4)]
    obtain t where "pool_run body s' t" "pool_done t" by blast
    with s' show ?thesis by (meson converse_rtranclp_into_rtranclp)
  qed
qed

lemma new_pool_reaches_done:
  assumes "0 < n" "\<And>j. \<exists>es. body j es"
  shows "\<exists>t. pool_run body (new_pool n fs) t \<and> pool_done t"
  using assms by (intro pool_reaches_done) (auto simp: new_pool_def)

text \<open>
  C7. A pool with at least one worker serves every job it is fed exactly once and in the
  order it is fed, under every schedule: from any reachable state the wait group can be
  reached, the wait group is the only place a schedule can stop, no schedule is endless, there
  are never more than \<open>n\<close> workers, and when the wait returns the effects are a merge of
  the feeder's and one complete body per job.
\<close>

lemma pool_serves_each_job_once:
  assumes "0 < n" "\<forall>j. \<exists>es. body j es" "pool_run body (new_pool n fs) s"
  shows "(\<exists>t. pool_run body s t \<and> pool_done t) \<and>
    ((\<nexists>t. pool_step body s t) \<longrightarrow> pool_done s) \<and>
    wfP (\<lambda>s' s. pool_step body s s') \<and>
    length (p_workers s) = n \<and>
    (pool_done s \<longrightarrow> p_taken s = sends fs \<and>
       (\<exists>ess. list_all2 body (sends fs) ess \<and> interleaves (emits fs # ess) (p_trace s)))"
proof -
  have len: "length (p_workers s) = n"
    using pool_run_workers [OF assms(3)] by (simp add: new_pool_def)
  have ne: "p_workers s \<noteq> []" using len assms(1) by auto
  have cl: "p_closed s \<longrightarrow> p_feed s = []"
    by (rule pool_run_closed [OF assms(3)]) (simp add: new_pool_def)
  have ex: "p_closed s \<or> Exited \<notin> set (p_workers s)"
    by (rule pool_exited_run [OF assms(3)]) (simp add: new_pool_def)
  have all_jobs: "p_taken s = sends fs \<and> (\<exists>ess. list_all2 body (sends fs) ess \<and> interleaves (emits fs # ess) (p_trace s))"
    if d: "pool_done s"
  proof -
    have "p_taken s = sends fs"
      using pool_run_taken [OF assms(3)] cl d by (simp add: new_pool_def pool_done_def)
    moreover from pool_run_trace [OF assms(3) d cl] obtain ess tr where
      "list_all2 body (sends fs) ess" "p_trace s = tr"
      "interleaves (emits fs # replicate n [] @ ess) tr" by (auto simp: new_pool_def)
    moreover from this(3) have "interleaves (emits fs # ess) tr"
      by (rule interleaves_cong) simp
    ultimately show ?thesis by blast
  qed
  show ?thesis
    using pool_reaches_done [OF ne _ cl ex] pool_progress [OF ne _ cl ex] assms(2) all_jobs len pool_terminates
    by metis
qed

lemma pool_serves_each_job_once_witness:
  "\<exists>t. pool_run (\<lambda>j es. es = [j, j + 1]) (new_pool 2 [Emit (0::nat), Send 1, Send 5]) t \<and> pool_done t"
  using pool_serves_each_job_once [of 2 "\<lambda>j es. es = [j, j + 1]" "[Emit (0::nat), Send 1, Send 5]"
      "new_pool 2 [Emit (0::nat), Send 1, Send 5]"] by simp

end
