(* ===== verification/Go_Time.thy ===== *)
theory Go_Time
  imports Go_Strconv
begin

text \<open>
  \<open>time.Parse\<close> for the layouts the worker uses. A layout is the list of its elements, as
  \<open>nextStdChunk\<close> splits it; the parser reads the value element by element, as Go's does. What
  a time zone abbreviation means depends on the machine's local zone, which is an argument. The
  special path for RFC 3339 accepts a part of what the general one does and gives the same.
\<close>

datatype chunk =
    Lit char | LongYear | ZeroMonth | Month | LongMonth | ZeroDay | Day | Hour | ZeroMinute | ZeroSecond | FracSecond9
  | TZ | NumTZ | ISO8601ColonTZ

text \<open>What has been read: unset numbers are negative, as in the code.\<close>

record time_parts =
  tp_year :: int
  tp_month :: int
  tp_day :: int
  tp_hour :: int
  tp_min :: int
  tp_sec :: int
  tp_nsec :: int
  tp_utc :: bool
  tp_offset :: "int option"
  tp_zone :: string

definition no_parts :: time_parts where
  "no_parts = \<lparr>tp_year = 0, tp_month = - 1, tp_day = - 1, tp_hour = 0, tp_min = 0, tp_sec = 0, tp_nsec = 0,
               tp_utc = False, tp_offset = None, tp_zone = []\<rparr>"

section \<open>Elements\<close>

definition is_digit_at :: "string \<Rightarrow> nat \<Rightarrow> bool" where
  "is_digit_at s i \<longleftrightarrow> i < length s \<and> digit_val (s ! i) \<noteq> None"

definition digit_at :: "string \<Rightarrow> nat \<Rightarrow> int" where
  "digit_at s i = (case digit_val (s ! i) of None \<Rightarrow> 0 | Some d \<Rightarrow> int d)"

text \<open>\<open>getnum\<close>: one or two digits, or exactly two.\<close>

definition getnum :: "bool \<Rightarrow> string \<Rightarrow> (int \<times> string) option" where
  "getnum fixed s =
     (if \<not> is_digit_at s 0 then None
      else if \<not> is_digit_at s 1 then (if fixed then None else Some (digit_at s 0, drop 1 s))
      else Some (10 * digit_at s 0 + digit_at s 1, drop 2 s))"

definition getnum_in :: "bool \<Rightarrow> int \<Rightarrow> int \<Rightarrow> string \<Rightarrow> (int \<times> string) option" where
  "getnum_in fixed lo hi s =
     (case getnum fixed s of None \<Rightarrow> None | Some (n, rst) \<Rightarrow> if lo \<le> n \<and> n \<le> hi then Some (n, rst) else None)"

text \<open>\<open>skip\<close>, for one literal: a space stands for any number of spaces, none only at the end.\<close>

definition skip_literal :: "char \<Rightarrow> string \<Rightarrow> string option" where
  "skip_literal c s =
     (if c = CHR '' '' then
        (if s \<noteq> [] \<and> hd s \<noteq> CHR '' '' then None else Some (dropWhile (\<lambda>x. x = CHR '' '') s))
      else if s = [] \<or> hd s \<noteq> c then None else Some (tl s))"

definition short_months :: "string list" where
  "short_months = [''jan'', ''feb'', ''mar'', ''apr'', ''may'', ''jun'', ''jul'', ''aug'', ''sep'', ''oct'', ''nov'', ''dec'']"

definition long_months :: "string list" where
  "long_months =
     [''january'', ''february'', ''march'', ''april'', ''may'', ''june'', ''july'', ''august'', ''september'', ''october'',
      ''november'', ''december'']"

definition ascii_lower :: "char \<Rightarrow> char" where
  "ascii_lower c = (let n = (of_char c :: nat) in if 65 \<le> n \<and> n \<le> 90 then char_of (n + 32) else c)"

fun lookup_name :: "int \<Rightarrow> string list \<Rightarrow> string \<Rightarrow> (int \<times> string) option" where
  "lookup_name i [] s = None"
| "lookup_name i (name # names) s =
     (if map ascii_lower (take (length name) s) = name then Some (i, drop (length name) s)
      else lookup_name (i + 1) names s)"

text \<open>The fraction after a point or a comma: nine digits count, any number is read.\<close>

definition frac_digits :: "string \<Rightarrow> string option" where
  "frac_digits s =
     (if length s \<ge> 2 \<and> (hd s = CHR ''.'' \<or> hd s = CHR '','') \<and> is_digit_at s 1
      then Some (takeWhile (\<lambda>c. digit_val c \<noteq> None) (tl s)) else None)"

definition nanoseconds :: "string \<Rightarrow> int" where
  "nanoseconds ds =
     (let used = take 9 ds in (case digits_val 0 used of None \<Rightarrow> 0 | Some n \<Rightarrow> int n * 10 ^ (9 - length used)))"

definition read_fraction :: "string \<Rightarrow> time_parts \<Rightarrow> string \<times> time_parts" where
  "read_fraction s p =
     (case frac_digits s of None \<Rightarrow> (s, p) | Some ds \<Rightarrow> (drop (1 + length ds) s, p\<lparr>tp_nsec := nanoseconds ds\<rparr>))"

text \<open>\<open>parseSignedOffset\<close> and \<open>parseTimeZone\<close>: the length of a zone abbreviation, 0 for none.\<close>

definition parseSignedOffset :: "string \<Rightarrow> nat" where
  "parseSignedOffset s =
     (if s = [] \<or> (hd s \<noteq> CHR ''-'' \<and> hd s \<noteq> CHR ''+'') then 0
      else let ds = takeWhile (\<lambda>c. digit_val c \<noteq> None) (tl s)
           in case digits_val 0 ds of
                None \<Rightarrow> 0
              | Some x \<Rightarrow> if ds = [] \<or> x > 23 then 0 else 1 + length ds)"

definition is_upper :: "char \<Rightarrow> bool" where
  "is_upper c \<longleftrightarrow> 65 \<le> (of_char c :: nat) \<and> (of_char c :: nat) \<le> 90"

definition parseTimeZone :: "string \<Rightarrow> nat" where
  "parseTimeZone s =
     (if length s < 3 then 0
      else if take 4 s = ''ChST'' \<or> take 4 s = ''MeST'' then 4
      else if take 3 s = ''GMT'' then 3 + parseSignedOffset (drop 3 s)
      else if hd s = CHR ''+'' \<or> hd s = CHR ''-'' then parseSignedOffset s
      else let n = length (takeWhile is_upper (take 6 s))
           in if n = 3 \<or> (n = 4 \<and> (s ! 3 = CHR ''T'' \<or> take 4 s = ''WITA'')) \<or> (n = 5 \<and> s ! 4 = CHR ''T'') then n else 0)"

definition zone_offset :: "char \<Rightarrow> string \<Rightarrow> string \<Rightarrow> int option" where
  "zone_offset sign hh mm =
     (case (getnum_in True 0 24 hh, getnum_in True 0 60 mm) of
        (Some (h, _), Some (m, _)) \<Rightarrow>
          if sign = CHR ''+'' then Some ((h * 60 + m) * 60)
          else if sign = CHR ''-'' then Some (- ((h * 60 + m) * 60))
          else None
      | _ \<Rightarrow> None)"

definition read_offset :: "bool \<Rightarrow> string \<Rightarrow> time_parts \<Rightarrow> (string \<times> time_parts) option" where
  "read_offset colon s p =
     (let n = (if colon then 6 else 5)
      in if length s < n \<or> (colon \<and> s ! 3 \<noteq> CHR '':'') then None
         else case zone_offset (hd s) (take 2 (drop 1 s)) (take 2 (drop (n - 2) s)) of
                None \<Rightarrow> None
              | Some off \<Rightarrow> Some (drop n s, p\<lparr>tp_offset := Some off\<rparr>))"

section \<open>The parser\<close>

definition read_chunk :: "chunk \<Rightarrow> bool \<Rightarrow> string \<Rightarrow> time_parts \<Rightarrow> (string \<times> time_parts) option" where
  "read_chunk ch fraction_follows s p =
     (case ch of
        Lit c \<Rightarrow> map_option (\<lambda>rst. (rst, p)) (skip_literal c s)
      | LongYear \<Rightarrow>
          (if length s < 4 then None
           else case digits_val 0 (take 4 s) of None \<Rightarrow> None | Some y \<Rightarrow> Some (drop 4 s, p\<lparr>tp_year := int y\<rparr>))
      | ZeroMonth \<Rightarrow> map_option (\<lambda>(n, rst). (rst, p\<lparr>tp_month := n\<rparr>)) (getnum_in True 1 12 s)
      | Month \<Rightarrow> map_option (\<lambda>(n, rst). (rst, p\<lparr>tp_month := n\<rparr>)) (lookup_name 1 short_months s)
      | LongMonth \<Rightarrow> map_option (\<lambda>(n, rst). (rst, p\<lparr>tp_month := n\<rparr>)) (lookup_name 1 long_months s)
      | ZeroDay \<Rightarrow> map_option (\<lambda>(n, rst). (rst, p\<lparr>tp_day := n\<rparr>)) (getnum True s)
      | Day \<Rightarrow> map_option (\<lambda>(n, rst). (rst, p\<lparr>tp_day := n\<rparr>)) (getnum False s)
      | Hour \<Rightarrow> map_option (\<lambda>(n, rst). (rst, p\<lparr>tp_hour := n\<rparr>)) (getnum_in False 0 23 s)
      | ZeroMinute \<Rightarrow> map_option (\<lambda>(n, rst). (rst, p\<lparr>tp_min := n\<rparr>)) (getnum_in True 0 59 s)
      | ZeroSecond \<Rightarrow>
          (case getnum_in True 0 59 s of
             None \<Rightarrow> None
           | Some (n, rst) \<Rightarrow> Some (if fraction_follows then (rst, p\<lparr>tp_sec := n\<rparr>) else read_fraction rst (p\<lparr>tp_sec := n\<rparr>)))
      | FracSecond9 \<Rightarrow> Some (read_fraction s p)
      | ISO8601ColonTZ \<Rightarrow>
          (if s \<noteq> [] \<and> hd s = CHR ''Z'' then Some (tl s, p\<lparr>tp_utc := True\<rparr>) else read_offset True s p)
      | NumTZ \<Rightarrow> read_offset False s p
      | TZ \<Rightarrow>
          (if take 3 s = ''UTC'' then Some (drop 3 s, p\<lparr>tp_utc := True\<rparr>)
           else let n = parseTimeZone s in if n = 0 then None else Some (drop n s, p\<lparr>tp_zone := take n s\<rparr>)))"

fun read_layout :: "chunk list \<Rightarrow> string \<Rightarrow> time_parts \<Rightarrow> time_parts option" where
  "read_layout [] s p = (if s = [] then Some p else None)"
| "read_layout (ch # layout) s p =
     (case read_chunk ch (layout \<noteq> [] \<and> hd layout = FracSecond9) s p of
        None \<Rightarrow> None
      | Some (rst, p') \<Rightarrow> read_layout layout rst p')"

definition is_leap :: "int \<Rightarrow> bool" where
  "is_leap y \<longleftrightarrow> y mod 4 = 0 \<and> (y mod 100 \<noteq> 0 \<or> y mod 400 = 0)"

definition days_in :: "int \<Rightarrow> int \<Rightarrow> int" where
  "days_in m y = (if m = 2 then if is_leap y then 29 else 28 else if m \<in> {4, 6, 9, 11} then 30 else 31)"

text \<open>Days since 1 January of the year 1.\<close>

definition days_before_year :: "int \<Rightarrow> int" where
  "days_before_year y = 365 * (y - 1) + (y - 1) div 4 - (y - 1) div 100 + (y - 1) div 400"

definition day_number :: "int \<Rightarrow> int \<Rightarrow> int \<Rightarrow> int" where
  "day_number y m d = days_before_year y + sum_list (map (\<lambda>i. days_in i y) [1..m - 1]) + d - 1"

definition date_utc :: "time_parts \<Rightarrow> instant" where
  "date_utc p =
     (((day_number (tp_year p) (tp_month p) (tp_day p) * 24 + tp_hour p) * 60 + tp_min p) * 60 + tp_sec p) * go_second
     + tp_nsec p"

text \<open>The local zone: the offset an abbreviation stands for at a time read as UTC, if it is known.\<close>

type_synonym local_zone = "string \<Rightarrow> instant \<Rightarrow> int option"

definition time_Parse :: "local_zone \<Rightarrow> chunk list \<Rightarrow> string \<Rightarrow> instant option" where
  "time_Parse zone layout s =
     (case read_layout layout s no_parts of
        None \<Rightarrow> None
      | Some p \<Rightarrow>
          (let p = p\<lparr>tp_month := (if tp_month p < 0 then 1 else tp_month p), tp_day := (if tp_day p < 0 then 1 else tp_day p)\<rparr>;
               t = date_utc p
           in if tp_day p < 1 \<or> tp_day p > days_in (tp_month p) (tp_year p) then None
              else if tp_utc p then Some t
              else case tp_offset p of
                     Some off \<Rightarrow> Some (t - off * go_second)
                   | None \<Rightarrow>
                       if tp_zone p \<noteq> [] then
                         (case zone (tp_zone p) t of Some off \<Rightarrow> Some (t - off * go_second) | None \<Rightarrow> Some t)
                       else Some t))"

text \<open>Some values with their known instants: the epoch of Unix time lies 62135596800 seconds after year 1.\<close>

definition date_layout :: "chunk list" where
  "date_layout = [LongYear, Lit CHR ''-'', ZeroMonth, Lit CHR ''-'', ZeroDay]"

lemma epoch_parsed: "time_Parse (\<lambda>_ _. None) date_layout ''1970-01-01'' = Some (62135596800 * go_second)"
  by code_simp

lemma no_thirtieth_of_february: "time_Parse (\<lambda>_ _. None) date_layout ''2024-02-30'' = None"
  by code_simp

section \<open>Printed dates are read back\<close>

definition two_digits :: "nat \<Rightarrow> string" where
  "two_digits n = [dec_digit (n div 10), dec_digit (n mod 10)]"

definition four_digits :: "nat \<Rightarrow> string" where
  "four_digits n = two_digits (n div 100) @ two_digits (n mod 100)"

lemma digit_val_two: "n < 100 \<Longrightarrow> digit_val (dec_digit (n div 10)) = Some (n div 10)" "digit_val (dec_digit (n mod 10)) = Some (n mod 10)"
  by (simp_all add: digit_val_dec_digit)

lemma getnum_two [simp]: "n < 100 \<Longrightarrow> getnum fixed (two_digits n @ rst) = Some (int n, rst)"
  by (simp add: getnum_def two_digits_def is_digit_at_def digit_at_def digit_val_dec_digit zdiv_int zmod_int)

lemma getnum_in_two [simp]:
  "n < 100 \<Longrightarrow> lo \<le> int n \<Longrightarrow> int n \<le> hi \<Longrightarrow> getnum_in fixed lo hi (two_digits n @ rst) = Some (int n, rst)"
  by (simp add: getnum_in_def)

lemma digits_val_four [simp]: "n < 10000 \<Longrightarrow> digits_val 0 (four_digits n) = Some n"
  by (simp add: four_digits_def two_digits_def digit_val_dec_digit)

lemma length_digits [simp]: "length (two_digits n) = 2" "length (four_digits n) = 4"
  by (simp_all add: two_digits_def four_digits_def)

lemma read_digits:
  "n < 10000 \<Longrightarrow> read_chunk LongYear f (four_digits n @ rst) p = Some (rst, p\<lparr>tp_year := int n\<rparr>)"
  "c \<noteq> CHR '' '' \<Longrightarrow> read_chunk (Lit c) f (c # rst) p = Some (rst, p)"
  "1 \<le> n \<Longrightarrow> n \<le> 12 \<Longrightarrow> read_chunk ZeroMonth f (two_digits n @ rst) p = Some (rst, p\<lparr>tp_month := int n\<rparr>)"
  "n < 100 \<Longrightarrow> read_chunk ZeroDay f (two_digits n @ rst) p = Some (rst, p\<lparr>tp_day := int n\<rparr>)"
  "n < 24 \<Longrightarrow> read_chunk Hour f (two_digits n @ rst) p = Some (rst, p\<lparr>tp_hour := int n\<rparr>)"
  "n < 60 \<Longrightarrow> read_chunk ZeroMinute f (two_digits n @ rst) p = Some (rst, p\<lparr>tp_min := int n\<rparr>)"
  "n < 60 \<Longrightarrow> read_chunk ZeroSecond True (two_digits n @ rst) p = Some (rst, p\<lparr>tp_sec := int n\<rparr>)"
  "read_chunk FracSecond9 f (CHR ''Z'' # rst) p = Some (CHR ''Z'' # rst, p)"
  "read_chunk ISO8601ColonTZ f (CHR ''Z'' # rst) p = Some (rst, p\<lparr>tp_utc := True\<rparr>)"
  by (simp_all add: read_chunk_def skip_literal_def read_fraction_def frac_digits_def)

text \<open>RFC 3339 in UTC, with whole seconds.\<close>

definition rfc3339 :: "nat \<Rightarrow> nat \<Rightarrow> nat \<Rightarrow> nat \<Rightarrow> nat \<Rightarrow> nat \<Rightarrow> string" where
  "rfc3339 y mo d h mi s =
     four_digits y @ CHR ''-'' # two_digits mo @ CHR ''-'' # two_digits d @ CHR ''T'' # two_digits h @ CHR '':'' #
     two_digits mi @ CHR '':'' # two_digits s @ [CHR ''Z'']"

definition calendar_ok :: "nat \<Rightarrow> nat \<Rightarrow> nat \<Rightarrow> nat \<Rightarrow> nat \<Rightarrow> nat \<Rightarrow> bool" where
  "calendar_ok y mo d h mi s \<longleftrightarrow>
     y < 10000 \<and> 1 \<le> mo \<and> mo \<le> 12 \<and> 1 \<le> d \<and> int d \<le> days_in (int mo) (int y) \<and> h < 24 \<and> mi < 60 \<and> s < 60"

definition calendar_instant :: "nat \<Rightarrow> nat \<Rightarrow> nat \<Rightarrow> nat \<Rightarrow> nat \<Rightarrow> nat \<Rightarrow> instant" where
  "calendar_instant y mo d h mi s =
     (((day_number (int y) (int mo) (int d) * 24 + int h) * 60 + int mi) * 60 + int s) * go_second"

definition rfc3339_layout :: "chunk list" where
  "rfc3339_layout =
     [LongYear, Lit CHR ''-'', ZeroMonth, Lit CHR ''-'', ZeroDay, Lit CHR ''T'', Hour, Lit CHR '':'', ZeroMinute, Lit CHR '':'',
      ZeroSecond, FracSecond9, ISO8601ColonTZ]"

lemma time_Parse_rfc3339:
  "calendar_ok y mo d h mi s \<Longrightarrow> time_Parse zone rfc3339_layout (rfc3339 y mo d h mi s) = Some (calendar_instant y mo d h mi s)"
proof -
  assume ok: "calendar_ok y mo d h mi s"
  then have "d < 100" by (auto simp: calendar_ok_def days_in_def split: if_splits)
  with ok have "read_layout rfc3339_layout (rfc3339 y mo d h mi s) no_parts =
      Some \<lparr>tp_year = int y, tp_month = int mo, tp_day = int d, tp_hour = int h, tp_min = int mi, tp_sec = int s,
            tp_nsec = 0, tp_utc = True, tp_offset = None, tp_zone = []\<rparr>"
    by (simp add: calendar_ok_def rfc3339_layout_def rfc3339_def read_digits no_parts_def)
  with ok show ?thesis by (simp add: time_Parse_def Let_def calendar_ok_def date_utc_def calendar_instant_def)
qed

text \<open>
  RFC 3339 as systems write it: a fraction of up to nine digits or none, and \<open>Z\<close> or a
  numeric offset.
\<close>

definition date_clock :: "nat \<Rightarrow> nat \<Rightarrow> nat \<Rightarrow> nat \<Rightarrow> nat \<Rightarrow> nat \<Rightarrow> string" where
  "date_clock y mo d h mi s =
     four_digits y @ CHR ''-'' # two_digits mo @ CHR ''-'' # two_digits d @ CHR ''T'' # two_digits h @ CHR '':'' #
     two_digits mi @ CHR '':'' # two_digits s"

inductive fraction_text :: "int \<Rightarrow> string \<Rightarrow> bool" where
  no_fraction: "fraction_text 0 []"
| decimals: "ds \<noteq> [] \<Longrightarrow> length ds \<le> 9 \<Longrightarrow> digits_val 0 ds = Some n \<Longrightarrow>
    fraction_text (int n * 10 ^ (9 - length ds)) (CHR ''.'' # ds)"

inductive zone_text :: "int \<Rightarrow> string \<Rightarrow> bool" where
  utc: "zone_text 0 ''Z''"
| ahead: "oh < 24 \<Longrightarrow> om < 60 \<Longrightarrow> zone_text ((int oh * 60 + int om) * 60) (CHR ''+'' # two_digits oh @ CHR '':'' # two_digits om)"
| behind: "oh < 24 \<Longrightarrow> om < 60 \<Longrightarrow> zone_text (- ((int oh * 60 + int om) * 60)) (CHR ''-'' # two_digits oh @ CHR '':'' # two_digits om)"

lemma digits_val_digits: "digits_val n ds = Some k \<Longrightarrow> \<forall>c \<in> set ds. digit_val c \<noteq> None"
  by (induction ds arbitrary: n) (auto split: option.splits)

lemma zone_text_head: "zone_text off z \<Longrightarrow> z \<noteq> [] \<and> digit_val (hd z) = None \<and> hd z \<noteq> CHR ''.'' \<and> hd z \<noteq> CHR '',''"
  by (cases rule: zone_text.cases) (auto, code_simp+)

lemma read_fraction_text:
  assumes "fraction_text ns f" "zone_text off z"
  shows "read_fraction (f @ z) (p\<lparr>tp_nsec := 0\<rparr>) = (z, p\<lparr>tp_nsec := ns\<rparr>)"
  using assms(1)
proof cases
  case no_fraction
  with zone_text_head [OF assms(2)] show ?thesis by (simp add: read_fraction_def frac_digits_def)
next
  case (decimals ds n)
  have "takeWhile (\<lambda>c. digit_val c \<noteq> None) (ds @ z) = ds"
    using digits_val_digits [OF decimals(5)] zone_text_head [OF assms(2)]
    by (cases z) (auto simp: takeWhile_append2 takeWhile_eq_all_conv takeWhile_append)
  moreover have "is_digit_at (CHR ''.'' # ds @ z) 1"
    using digits_val_digits [OF decimals(5)] decimals(3) by (cases ds) (auto simp: is_digit_at_def)
  ultimately show ?thesis
    using decimals by (cases ds) (simp_all add: read_fraction_def frac_digits_def nanoseconds_def Let_def)
qed

lemma getnum_in_two_only: "n < 100 \<Longrightarrow> lo \<le> int n \<Longrightarrow> int n \<le> hi \<Longrightarrow> getnum_in fixed lo hi (two_digits n) = Some (int n, [])"
  using getnum_in_two [of n lo hi fixed "[]"] by simp

lemma read_zone_text:
  assumes "zone_text off z"
  shows "read_chunk ISO8601ColonTZ False z p = Some ([], if z = ''Z'' then p\<lparr>tp_utc := True\<rparr> else p\<lparr>tp_offset := Some off\<rparr>) \<and>
    (z = ''Z'' \<longrightarrow> off = 0)"
  using assms
proof cases
  case (ahead oh om)
  obtain a b c d where two: "two_digits oh = [a, b]" "two_digits om = [c, d]" by (simp add: two_digits_def)
  have "getnum_in True 0 24 [a, b] = Some (int oh, [])" "getnum_in True 0 60 [c, d] = Some (int om, [])"
    using getnum_in_two_only [of oh 0 24 True] getnum_in_two_only [of om 0 60 True] ahead two by simp_all
  with ahead two show ?thesis by (simp add: read_chunk_def read_offset_def zone_offset_def)
next
  case (behind oh om)
  obtain a b c d where two: "two_digits oh = [a, b]" "two_digits om = [c, d]" by (simp add: two_digits_def)
  have "getnum_in True 0 24 [a, b] = Some (int oh, [])" "getnum_in True 0 60 [c, d] = Some (int om, [])"
    using getnum_in_two_only [of oh 0 24 True] getnum_in_two_only [of om 0 60 True] behind two by simp_all
  with behind two show ?thesis by (simp add: read_chunk_def read_offset_def zone_offset_def)
qed (simp add: read_chunk_def)

lemma time_Parse_rfc3339_nano:
  assumes ok: "calendar_ok y mo d h mi s" and f: "fraction_text ns f" and z: "zone_text off z"
  shows "time_Parse zone rfc3339_layout (date_clock y mo d h mi s @ f @ z) =
     Some (calendar_instant y mo d h mi s + ns - off * go_second)"
proof -
  have "d < 100" using ok by (auto simp: calendar_ok_def days_in_def split: if_splits)
  let ?p = "\<lparr>tp_year = int y, tp_month = int mo, tp_day = int d, tp_hour = int h, tp_min = int mi, tp_sec = int s,
            tp_nsec = ns, tp_utc = False, tp_offset = None, tp_zone = []\<rparr>"
  have "read_chunk FracSecond9 fl (f @ z) (?p\<lparr>tp_nsec := 0\<rparr>) = Some (z, ?p)" for fl
    using read_fraction_text [OF f z, of ?p] by (simp add: read_chunk_def)
  with ok \<open>d < 100\<close> read_zone_text [OF z, of ?p]
  have "read_layout rfc3339_layout (date_clock y mo d h mi s @ f @ z) no_parts =
      Some (if z = ''Z'' then ?p\<lparr>tp_utc := True\<rparr> else ?p\<lparr>tp_offset := Some off\<rparr>)"
    by (simp add: calendar_ok_def rfc3339_layout_def date_clock_def read_digits no_parts_def)
  with ok read_zone_text [OF z, of ?p] show ?thesis
    by (cases "z = ''Z''") (simp_all add: time_Parse_def Let_def calendar_ok_def date_utc_def calendar_instant_def)
qed

lemma dec_digit_plain: "n < 10 \<Longrightarrow> printable (dec_digit n)"
  by (simp add: printable_def dec_digit_code)

lemma two_digits_printable: "n < 100 \<Longrightarrow> c \<in> set (two_digits n) \<Longrightarrow> printable c"
  by (auto simp: two_digits_def dec_digit_plain)

lemma four_digits_printable: "n < 10000 \<Longrightarrow> c \<in> set (four_digits n) \<Longrightarrow> printable c"
  using two_digits_printable [of "n div 100"] two_digits_printable [of "n mod 100"] by (auto simp: four_digits_def)

lemma two_digits_nonempty [simp]: "two_digits n \<noteq> []" "four_digits n \<noteq> []"
  by (simp_all add: two_digits_def four_digits_def)

text \<open>A day alone.\<close>

definition iso_date :: "nat \<Rightarrow> nat \<Rightarrow> nat \<Rightarrow> string" where
  "iso_date y mo d = four_digits y @ CHR ''-'' # two_digits mo @ CHR ''-'' # two_digits d"

lemma printed_dates_printable:
  "calendar_ok y mo d h mi s \<Longrightarrow> \<forall>c \<in> set (rfc3339 y mo d h mi s). printable c"
  "calendar_ok y mo d h mi s \<Longrightarrow> \<forall>c \<in> set (iso_date y mo d). printable c"
proof -
  assume ok: "calendar_ok y mo d h mi s"
  then have "d < 100" by (auto simp: calendar_ok_def days_in_def split: if_splits)
  with ok have "y < 10000" "mo < 100" "d < 100" "h < 100" "mi < 100" "s < 100" by (simp_all add: calendar_ok_def)
  then show "\<forall>c \<in> set (rfc3339 y mo d h mi s). printable c" "\<forall>c \<in> set (iso_date y mo d). printable c"
    unfolding rfc3339_def iso_date_def
    by (auto intro: two_digits_printable four_digits_printable) (simp_all add: printable_def)
qed

end
