(* ===== verification/Go_Float.thy ===== *)
theory Go_Float
  imports Go_Strconv "HOL-Library.Log_Nat"
begin

text \<open>
  The \<open>float64\<close> arithmetic behind the reported response times. A finite \<open>float64\<close> is the
  rational number it denotes; \<open>to_float\<close> is rounding to nearest, ties to even, with 53 bits
  and the smallest exponent of the format, so that a product or a quotient of floats is
  \<open>to_float\<close> of the exact one. \<open>math_round\<close> rounds half away from zero.
\<close>

definition two_power :: "int \<Rightarrow> rat" where
  "two_power e = (if e \<ge> 0 then 2 ^ nat e else 1 / 2 ^ nat (- e))"

text \<open>The largest \<open>e\<close> with \<open>2^e \<le> q\<close>, for a positive \<open>q\<close>.\<close>

definition binade :: "rat \<Rightarrow> int" where
  "binade q =
     (case quotient_of q of
        (a, b) \<Rightarrow> let e = int (floorlog 2 (nat a)) - int (floorlog 2 (nat b))
                 in if two_power e \<le> q then e else e - 1)"

definition round_half_even :: "rat \<Rightarrow> int" where
  "round_half_even q =
     (let f = \<lfloor>q\<rfloor>; r = q - of_int f
      in if r < 1 / 2 then f else if r > 1 / 2 then f + 1 else if even f then f else f + 1)"

definition to_float :: "rat \<Rightarrow> rat" where
  "to_float q =
     (if q = 0 then 0
      else let ulp = two_power (max (binade \<bar>q\<bar> - 52) (- 1074))
           in of_int (round_half_even (q / ulp)) * ulp)"

definition math_round :: "rat \<Rightarrow> rat" where
  "math_round q = (if q < 0 then - of_int \<lfloor>- q + 1 / 2\<rfloor> else of_int \<lfloor>q + 1 / 2\<rfloor>)"

definition quot_towards_zero :: "int \<Rightarrow> int \<Rightarrow> int" where
  "quot_towards_zero a b = (if a < 0 then - ((- a) div b) else a div b)"

definition roundMilliseconds :: "duration \<Rightarrow> rat" where
  "roundMilliseconds d =
     (let v = to_float (to_float (of_int (quot_towards_zero d 1000)) / 1000)
      in to_float (math_round (to_float (v * 100)) / 100))"

text \<open>The smallest number that rounds to an infinity.\<close>

definition float_overflow :: rat where
  "float_overflow = 2 ^ 1024 - 2 ^ 970"

section \<open>Signs\<close>

lemma two_power_pos: "0 < two_power e"
  by (simp add: two_power_def)

lemma round_half_even_nonneg: "0 \<le> q \<Longrightarrow> 0 \<le> round_half_even q"
  by (simp add: round_half_even_def Let_def)

lemma to_float_nonneg: "0 \<le> q \<Longrightarrow> 0 \<le> to_float q"
  using two_power_pos by (auto simp: to_float_def Let_def less_imp_le intro!: mult_nonneg_nonneg round_half_even_nonneg divide_nonneg_pos)

lemma math_round_nonneg: "0 \<le> q \<Longrightarrow> 0 \<le> math_round q"
  by (simp add: math_round_def)

lemma roundMilliseconds_nonneg: "0 \<le> d \<Longrightarrow> 0 \<le> roundMilliseconds d"
proof -
  assume "0 \<le> d"
  then have "0 \<le> quot_towards_zero d 1000" by (simp add: quot_towards_zero_def)
  then show ?thesis
    unfolding roundMilliseconds_def Let_def
    by (intro to_float_nonneg divide_nonneg_nonneg math_round_nonneg mult_nonneg_nonneg) simp_all
qed

section \<open>Small integers are exact\<close>

lemma round_half_even_of_int [simp]: "round_half_even (of_int z) = z"
  by (simp add: round_half_even_def Let_def)

lemma binade_of_nat_le:
  assumes "n < 2 ^ 53"
  shows "binade (of_nat n) \<le> 52"
proof -
  have "floorlog 2 n \<le> 53" using assms by (intro floorlog_leI) simp_all
  moreover have "quotient_of (of_nat n) = (int n, 1)" by (simp add: of_nat_rat quotient_of_Fract)
  moreover have "floorlog 2 (Suc 0) = 1" by (simp add: floorlog_def)
  ultimately show ?thesis by (simp add: binade_def Let_def)
qed

lemma to_float_of_int:
  assumes "\<bar>i\<bar> < 2 ^ 53"
  shows "to_float (of_int i) = of_int i"
proof (cases "i = 0")
  case False
  define j where "j = nat (- max (binade \<bar>of_int i\<bar> - 52) (- 1074))"
  have "nat \<bar>i\<bar> < 2 ^ 53" using assms by (simp add: nat_less_iff)
  from binade_of_nat_le [OF this] have "binade \<bar>of_int i\<bar> \<le> 52" by simp
  then have ulp: "two_power (max (binade \<bar>of_int i\<bar> - 52) (- 1074)) = 1 / 2 ^ j"
    by (auto simp: two_power_def j_def)
  have "(of_int i :: rat) / (1 / 2 ^ j) = of_int (i * 2 ^ j)" by simp
  then have "to_float (of_int i) = of_int (round_half_even (of_int (i * 2 ^ j))) * (1 / 2 ^ j)"
    using False by (simp only: to_float_def ulp Let_def) simp
  then show ?thesis by (simp only: round_half_even_of_int) simp
qed (simp add: to_float_def)

end
