(* ===== verification/Monitor_Types.thy ===== *)
theory Monitor_Types
  imports Go_Time Go_Float
begin

text \<open>
  The domain model of \<open>internal/domain/monitor/types.go\<close>: monitorings, observations, result
  payloads and leased jobs, and the tolerant decoding of a monitoring received from Core, with
  the forms its fields may have on the wire.

  Types, statuses and phases are Go string types, so any string is a value of them; the
  declared constants are definitions. A nullable pointer is an \<open>option\<close>.
\<close>

section \<open>Types and statuses\<close>

type_synonym mon_type = string
type_synonym mon_status = string

definition TypeHTTP :: mon_type where "TypeHTTP = ''http''"
definition TypePing :: mon_type where "TypePing = ''ping''"
definition TypeKeyword :: mon_type where "TypeKeyword = ''keyword''"
definition TypePort :: mon_type where "TypePort = ''port''"
definition TypeDNSRecord :: mon_type where "TypeDNSRecord = ''dns_record''"
definition TypeHeartbeat :: mon_type where "TypeHeartbeat = ''heartbeat''"
definition TypeDomainExpiration :: mon_type where "TypeDomainExpiration = ''domain_expiration''"

lemmas mon_type_defs = TypeHTTP_def TypePing_def TypeKeyword_def TypePort_def TypeDNSRecord_def
  TypeHeartbeat_def TypeDomainExpiration_def

definition StatusUp :: mon_status where "StatusUp = ''up''"
definition StatusDown :: mon_status where "StatusDown = ''down''"
definition StatusUnknown :: mon_status where "StatusUnknown = ''unknown''"

lemmas mon_status_defs = StatusUp_def StatusDown_def StatusUnknown_def

text \<open>
  A Go value of type \<open>any\<close>. The decoder of \<open>encoding/json\<close> produces nil, booleans,
  \<open>float64\<close>, strings, slices and maps; the type switches of the code also name
  \<open>int64\<close>, \<open>int\<close>, \<open>json.Number\<close>, \<open>time.Time\<close> and \<open>map[string]string\<close>.
\<close>

datatype go_any =
    AnyNil
  | AnyBool bool
  | AnyFloat64 rat
  | AnyInt64 int
  | AnyInt int
  | AnyNumber string
  | AnyString string
  | AnyTime instant
  | AnySlice "go_any list"
  | AnyMap "(string \<times> go_any) list"
  | AnyStringMap "(string \<times> string) list"

record monitoring =
  m_ID :: string
  m_Type :: mon_type
  m_PreferredLocation :: string
  m_PreferredLocations :: "string list"
  m_Target :: string
  m_Timeout :: int
  m_CheckIntervalSeconds :: int
  m_LastResponseAt :: "instant option"
  m_HTTPMethod :: string
  m_HTTPBody :: go_any
  m_HTTPHeaders :: go_any
  m_AuthUsername :: string
  m_AuthPassword :: string
  m_Keyword :: string
  m_Port :: int
  m_DNSRecordType :: string
  m_DNSExpectedValues :: "string list"
  m_HeartbeatIntervalMinutes :: "int option"
  m_HeartbeatGraceMinutes :: "int option"
  m_HeartbeatLastPingAt :: "instant option"
  m_MaintenanceActive :: bool

text \<open>The zero value of \<open>Monitoring\<close>.\<close>

definition zero_monitoring :: monitoring where
  "zero_monitoring =
     \<lparr>m_ID = [], m_Type = [], m_PreferredLocation = [], m_PreferredLocations = [], m_Target = [],
      m_Timeout = 0, m_CheckIntervalSeconds = 0, m_LastResponseAt = None, m_HTTPMethod = [],
      m_HTTPBody = AnyNil, m_HTTPHeaders = AnyNil, m_AuthUsername = [], m_AuthPassword = [],
      m_Keyword = [], m_Port = 0, m_DNSRecordType = [], m_DNSExpectedValues = [],
      m_HeartbeatIntervalMinutes = None, m_HeartbeatGraceMinutes = None,
      m_HeartbeatLastPingAt = None, m_MaintenanceActive = False\<rparr>"

section \<open>Result payloads and jobs\<close>

record raw_observation =
  o_Type :: mon_type
  o_ObservedAt :: instant
  o_HTTPStatusCode :: "int option"
  o_ResponseTime :: "rat option"
  o_TransportError :: "string option"
  o_Connected :: "bool option"
  o_KeywordMatched :: "bool option"
  o_DNSRecordType :: string
  o_DNSExpectedValues :: "string list"
  o_DNSObservedValues :: "string list"
  o_DNSMatched :: "bool option"
  o_Metadata :: "(string \<times> string) list"

record response_payload =
  rp_MonitoringID :: string
  rp_IdempotencyKey :: string
  rp_Status :: mon_status
  rp_ResponseTime :: "rat option"
  rp_HTTPStatusCode :: "int option"
  rp_CheckIntervalSeconds :: "int option"
  rp_Observation :: "raw_observation option"

record ssl_payload =
  sp_MonitoringID :: string
  sp_IdempotencyKey :: string
  sp_IsValid :: bool
  sp_ExpiresAt :: "instant option"
  sp_Issuer :: "string option"
  sp_IssuedAt :: "instant option"

record domain_payload =
  dp_MonitoringID :: string
  dp_IdempotencyKey :: string
  dp_IsValid :: bool
  dp_ExpiresAt :: "instant option"
  dp_Registrar :: "string option"
  dp_CheckedAt :: instant

record claimed_job =
  j_ID :: string
  j_Phase :: string
  j_LeaseExpiresAt :: instant
  j_Attempt :: int
  j_IdempotencyKey :: string
  j_Monitoring :: monitoring

record claim_request =
  cr_Location :: string
  cr_InstanceID :: string
  cr_Capabilities :: "string list"
  cr_Capacity :: int
  cr_MaxBatchSize :: int

record job_result =
  jr_Response :: "response_payload option"
  jr_SSL :: "ssl_payload option"
  jr_Domain :: "domain_payload option"

section \<open>Tolerant decoding\<close>

datatype decode_error =
    JSONError string
  | InvalidType string
  | InvalidValue string
  | NegativeInterval

text \<open>
  What the language leaves to the machine: the value of an out-of-range \<open>float64\<close> to
  \<open>int64\<close> conversion.
\<close>

record decode_lib =
  float_oor :: "rat \<Rightarrow> int"

text \<open>\<open>time.Parse(time.RFC3339Nano, _)\<close>; the layout has no zone abbreviation, so the local zone is never asked.\<close>

definition parse_rfc3339 :: "string \<Rightarrow> instant option" where
  "parse_rfc3339 = time_Parse (\<lambda>_ _. None) rfc3339_layout"

fun parseStringFlexible :: "decode_lib \<Rightarrow> go_any \<Rightarrow> string \<Rightarrow> decode_error + string" where
  "parseStringFlexible L AnyNil field = Inr []"
| "parseStringFlexible L (AnyString s) field = Inr (trim_space s)"
| "parseStringFlexible L (AnyFloat64 q) field = Inr (int_dec (float_to_int64 (float_oor L) q))"
| "parseStringFlexible L (AnyInt64 i) field = Inr (int_dec i)"
| "parseStringFlexible L (AnyInt i) field = Inr (int_dec i)"
| "parseStringFlexible L (AnyNumber s) field = Inr s"
| "parseStringFlexible L _ field = Inl (InvalidType field)"

fun parseInt64Flexible :: "decode_lib \<Rightarrow> go_any \<Rightarrow> string \<Rightarrow> decode_error + int" where
  "parseInt64Flexible L AnyNil field = Inr 0"
| "parseInt64Flexible L (AnyFloat64 q) field = Inr (float_to_int64 (float_oor L) q)"
| "parseInt64Flexible L (AnyInt64 i) field = Inr i"
| "parseInt64Flexible L (AnyInt i) field = Inr i"
| "parseInt64Flexible L (AnyNumber s) field =
     (case parse_int64 s of None \<Rightarrow> Inl (InvalidValue field) | Some i \<Rightarrow> Inr i)"
| "parseInt64Flexible L (AnyString s) field =
     (let trimmed = trim_space s
      in if trimmed = [] then Inr 0
         else case parse_int64 trimmed of None \<Rightarrow> Inl (InvalidValue field) | Some i \<Rightarrow> Inr i)"
| "parseInt64Flexible L _ field = Inl (InvalidType field)"

definition parseIntFlexible :: "decode_lib \<Rightarrow> go_any \<Rightarrow> string \<Rightarrow> decode_error + int" where
  "parseIntFlexible L v field =
     (case parseInt64Flexible L v field of Inl e \<Rightarrow> Inl e | Inr i \<Rightarrow> Inr i)"

definition parseOptionalIntFlexible ::
    "decode_lib \<Rightarrow> go_any \<Rightarrow> string \<Rightarrow> decode_error + int option" where
  "parseOptionalIntFlexible L v field =
     (if v = AnyNil then Inr None
      else case parseIntFlexible L v field of Inl e \<Rightarrow> Inl e | Inr i \<Rightarrow> Inr (Some i))"

fun parseTimeFlexible :: "decode_lib \<Rightarrow> go_any \<Rightarrow> string \<Rightarrow> decode_error + instant option" where
  "parseTimeFlexible L AnyNil field = Inr None"
| "parseTimeFlexible L (AnyString s) field =
     (let trimmed = trim_space s
      in if trimmed = [] then Inr None
         else case parse_rfc3339 trimmed of
                None \<Rightarrow> Inl (InvalidValue field) | Some t \<Rightarrow> Inr (Some t))"
| "parseTimeFlexible L (AnyTime t) field = Inr (Some t)"
| "parseTimeFlexible L _ field = Inl (InvalidType field)"

fun parseBoolFlexible :: "decode_lib \<Rightarrow> go_any \<Rightarrow> string \<Rightarrow> decode_error + bool" where
  "parseBoolFlexible L AnyNil field = Inr False"
| "parseBoolFlexible L (AnyBool b) field = Inr b"
| "parseBoolFlexible L (AnyFloat64 q) field = Inr (q \<noteq> 0)"
| "parseBoolFlexible L (AnyNumber s) field =
     (case parse_int64 s of None \<Rightarrow> Inl (InvalidValue field) | Some i \<Rightarrow> Inr (i \<noteq> 0))"
| "parseBoolFlexible L (AnyString s) field =
     (let trimmed = trim_space (to_lower s)
      in if trimmed = [] then Inr False
         else if trimmed \<in> {''1'', ''true'', ''yes'', ''on''} then Inr True
         else if trimmed \<in> {''0'', ''false'', ''no'', ''off''} then Inr False
         else Inl (InvalidValue field))"
| "parseBoolFlexible L _ field = Inl (InvalidType field)"

section \<open>Decoding a monitoring\<close>

text \<open>The struct \<open>rawMonitoring\<close> local to \<open>UnmarshalJSON\<close>.\<close>

record raw_monitoring =
  r_ID :: go_any
  r_Type :: mon_type
  r_PreferredLocation :: string
  r_PreferredLocations :: "string list"
  r_Target :: string
  r_Timeout :: go_any
  r_CheckIntervalSeconds :: go_any
  r_LastResponseAt :: go_any
  r_HTTPMethod :: string
  r_HTTPBody :: go_any
  r_HTTPHeaders :: go_any
  r_AuthUsername :: string
  r_AuthPassword :: string
  r_Keyword :: string
  r_Port :: go_any
  r_DNSRecordType :: string
  r_DNSExpectedValues :: "string list"
  r_HeartbeatIntervalMinutes :: go_any
  r_HeartbeatGraceMinutes :: go_any
  r_HeartbeatLastPingAt :: go_any
  r_MaintenanceActive :: go_any

text \<open>
  \<open>json.Unmarshal(data, &raw)\<close> is the argument \<open>decode\<close>; the checks then run in the
  order of the source and the first failure is returned.
\<close>

definition UnmarshalJSON ::
    "decode_lib \<Rightarrow> (string \<Rightarrow> string + raw_monitoring) \<Rightarrow> string \<Rightarrow> decode_error + monitoring" where
  "UnmarshalJSON L decode data =
    (case decode data of Inl e \<Rightarrow> Inl (JSONError e) | Inr raw \<Rightarrow>
    (case parseStringFlexible L (r_ID raw) ''id'' of Inl e \<Rightarrow> Inl e | Inr ident \<Rightarrow>
    (case parseIntFlexible L (r_Timeout raw) ''timeout'' of Inl e \<Rightarrow> Inl e | Inr timeout \<Rightarrow>
    (case parseIntFlexible L (r_CheckIntervalSeconds raw) ''check_interval_seconds'' of
       Inl e \<Rightarrow> Inl e | Inr checkIntervalSeconds \<Rightarrow>
    (if checkIntervalSeconds < 0 then Inl NegativeInterval else
    (case parseTimeFlexible L (r_LastResponseAt raw) ''last_response_at'' of
       Inl e \<Rightarrow> Inl e | Inr lastResponseAt \<Rightarrow>
    (case parseIntFlexible L (r_Port raw) ''port'' of Inl e \<Rightarrow> Inl e | Inr port \<Rightarrow>
    (case parseOptionalIntFlexible L (r_HeartbeatIntervalMinutes raw) ''heartbeat_interval_minutes'' of
       Inl e \<Rightarrow> Inl e | Inr heartbeatIntervalMinutes \<Rightarrow>
    (case parseOptionalIntFlexible L (r_HeartbeatGraceMinutes raw) ''heartbeat_grace_minutes'' of
       Inl e \<Rightarrow> Inl e | Inr heartbeatGraceMinutes \<Rightarrow>
    (case parseTimeFlexible L (r_HeartbeatLastPingAt raw) ''heartbeat_last_ping_at'' of
       Inl e \<Rightarrow> Inl e | Inr heartbeatLastPingAt \<Rightarrow>
    (case parseBoolFlexible L (r_MaintenanceActive raw) ''maintenance_active'' of
       Inl e \<Rightarrow> Inl e | Inr maintenanceActive \<Rightarrow>
      Inr \<lparr>m_ID = ident, m_Type = r_Type raw,
           m_PreferredLocation = trim_space (r_PreferredLocation raw),
           m_PreferredLocations = r_PreferredLocations raw, m_Target = r_Target raw,
           m_Timeout = timeout, m_CheckIntervalSeconds = checkIntervalSeconds,
           m_LastResponseAt = lastResponseAt, m_HTTPMethod = r_HTTPMethod raw,
           m_HTTPBody = r_HTTPBody raw, m_HTTPHeaders = r_HTTPHeaders raw,
           m_AuthUsername = r_AuthUsername raw, m_AuthPassword = r_AuthPassword raw,
           m_Keyword = r_Keyword raw, m_Port = port, m_DNSRecordType = r_DNSRecordType raw,
           m_DNSExpectedValues = r_DNSExpectedValues raw,
           m_HeartbeatIntervalMinutes = heartbeatIntervalMinutes,
           m_HeartbeatGraceMinutes = heartbeatGraceMinutes,
           m_HeartbeatLastPingAt = heartbeatLastPingAt,
           m_MaintenanceActive = maintenanceActive\<rparr>)))))))))))"

section \<open>What decoding establishes\<close>

text \<open>
  Go values of type \<open>int\<close> and \<open>int64\<close> are 64-bit integers.
\<close>

fun any_in_range :: "go_any \<Rightarrow> bool" where
  "any_in_range (AnyInt i) \<longleftrightarrow> int64_range i"
| "any_in_range (AnyInt64 i) \<longleftrightarrow> int64_range i"
| "any_in_range _ \<longleftrightarrow> True"

definition raw_in_range :: "raw_monitoring \<Rightarrow> bool" where
  "raw_in_range raw \<longleftrightarrow> any_in_range (r_Timeout raw) \<and> any_in_range (r_CheckIntervalSeconds raw) \<and>
     any_in_range (r_Port raw) \<and> any_in_range (r_HeartbeatIntervalMinutes raw) \<and>
     any_in_range (r_HeartbeatGraceMinutes raw)"

definition monitoring_wf :: "monitoring \<Rightarrow> bool" where
  "monitoring_wf m \<longleftrightarrow> int64_range (m_Timeout m) \<and> int64_range (m_Port m) \<and>
     0 \<le> m_CheckIntervalSeconds m \<and> int64_range (m_CheckIntervalSeconds m) \<and>
     trim_space (m_PreferredLocation m) = m_PreferredLocation m \<and>
     pred_option int64_range (m_HeartbeatIntervalMinutes m) \<and>
     pred_option int64_range (m_HeartbeatGraceMinutes m)"

lemma parseIntFlexible_range:
  "any_in_range v \<Longrightarrow> parseIntFlexible L v field = Inr i \<Longrightarrow> int64_range i"
  by (cases v)
     (auto simp: parseIntFlexible_def Let_def dest: parse_int64_range split: option.splits if_splits)

lemma parseOptionalIntFlexible_range:
  "any_in_range v \<Longrightarrow> parseOptionalIntFlexible L v field = Inr i \<Longrightarrow> pred_option int64_range i"
  by (auto simp: parseOptionalIntFlexible_def dest: parseIntFlexible_range split: if_splits sum.splits)

lemmas unmarshal_splits = sum.splits if_splits

text \<open>
  Core may send an integer field as a JSON number or as text, with white space around
  it: every encoding of a 64-bit integer decodes to that integer, and as an identifier to
  the same decimal text.
\<close>

lemma flexible_int_encodings:
  assumes "int64_range i" "set before \<subseteq> set go_spaces" "set after \<subseteq> set go_spaces"
    and "v \<in> {AnyFloat64 (of_int i), AnyInt64 i, AnyInt i,
              AnyString (concat before @ int_dec i @ concat after)}"
  shows "parseIntFlexible L v field = Inr i \<and> parseStringFlexible L v field = Inr (int_dec i)"
proof -
  have "trim_space (concat before @ int_dec i @ concat after) = int_dec i"
    using assms(2,3) by (intro trim_space_pad) (auto intro: int_dec_printable)
  with assms(1,4) show ?thesis
    by (auto simp: parseIntFlexible_def float_to_int64_of_int parse_int64_int_dec)
qed

lemma flexible_int_encodings_witness:
  "\<forall>L. parseIntFlexible L (AnyString '' 443 '') ''port'' = Inr 443 \<and>
       parseStringFlexible L (AnyFloat64 42) ''id'' = Inr ''42''"
proof
  fix L
  have "int_dec 443 = ''443''" "int_dec 42 = ''42''" by code_simp+
  then show "parseIntFlexible L (AnyString '' 443 '') ''port'' = Inr 443 \<and>
       parseStringFlexible L (AnyFloat64 42) ''id'' = Inr ''42''"
    using flexible_int_encodings [of 443 "['' '']" "['' '']" "AnyString '' 443 ''" L "''port''"]
      flexible_int_encodings [of 42 "[]" "[]" "AnyFloat64 42" L "''id''"]
    by (simp add: int64_range_def go_spaces_def)
qed

section \<open>The wire\<close>

text \<open>
  What \<open>encoding/json\<close> leaves in a field of type \<open>any\<close>: a number becomes the
  \<open>float64\<close> nearest to it, text a string, a truth value a boolean and null nil. The relations say
  which such values Core may send for a value of the model.
\<close>

definition json_number :: "int \<Rightarrow> go_any" where
  "json_number i = AnyFloat64 (to_float (of_int i))"

definition padded :: "string list \<Rightarrow> string \<Rightarrow> string list \<Rightarrow> go_any" where
  "padded before s after = AnyString (concat before @ s @ concat after)"

abbreviation blanks :: "string list \<Rightarrow> bool" where
  "blanks xs \<equiv> set xs \<subseteq> set go_spaces"

inductive wire_int :: "int \<Rightarrow> go_any \<Rightarrow> bool" where
  int_number: "\<bar>i\<bar> < 2 ^ 53 \<Longrightarrow> wire_int i (json_number i)"
| int_text: "int64_range i \<Longrightarrow> blanks before \<Longrightarrow> blanks after \<Longrightarrow> wire_int i (padded before (int_dec i) after)"
| int_null: "wire_int 0 AnyNil"
| int_empty: "wire_int 0 (AnyString [])"

definition wire_opt_int :: "int option \<Rightarrow> go_any \<Rightarrow> bool" where
  "wire_opt_int x v \<longleftrightarrow> (case x of None \<Rightarrow> v = AnyNil | Some i \<Rightarrow> wire_int i v \<and> v \<noteq> AnyNil)"

inductive wire_id :: "string \<Rightarrow> go_any \<Rightarrow> bool" where
  id_number: "\<bar>i\<bar> < 2 ^ 53 \<Longrightarrow> wire_id (int_dec i) (json_number i)"
| id_text: "trim_space sent = ident \<Longrightarrow> wire_id ident (AnyString sent)"

inductive wire_time :: "instant option \<Rightarrow> go_any \<Rightarrow> bool" where
  time_null: "wire_time None AnyNil"
| time_empty: "wire_time None (AnyString [])"
| time_text: "calendar_ok y mo d h mi s \<Longrightarrow> fraction_text ns f \<Longrightarrow> zone_text off z \<Longrightarrow> blanks before \<Longrightarrow> blanks after \<Longrightarrow>
    wire_time (Some (calendar_instant y mo d h mi s + ns - off * go_second)) (padded before (date_clock y mo d h mi s @ f @ z) after)"

inductive wire_bool :: "bool \<Rightarrow> go_any \<Rightarrow> bool" where
  bool_bool: "wire_bool b (AnyBool b)"
| bool_number: "\<bar>i\<bar> < 2 ^ 53 \<Longrightarrow> wire_bool (i \<noteq> 0) (json_number i)"
| bool_true: "s \<in> {''1'', ''true'', ''yes'', ''on'', ''True'', ''TRUE''} \<Longrightarrow> wire_bool True (AnyString s)"
| bool_false: "s \<in> {''0'', ''false'', ''no'', ''off'', ''False'', ''FALSE'', []} \<Longrightarrow> wire_bool False (AnyString s)"
| bool_null: "wire_bool False AnyNil"

definition wire_monitoring :: "monitoring \<Rightarrow> raw_monitoring \<Rightarrow> bool" where
  "wire_monitoring m raw \<longleftrightarrow>
     wire_id (m_ID m) (r_ID raw) \<and> r_Type raw = m_Type m \<and>
     trim_space (r_PreferredLocation raw) = m_PreferredLocation m \<and> r_PreferredLocations raw = m_PreferredLocations m \<and>
     r_Target raw = m_Target m \<and> wire_int (m_Timeout m) (r_Timeout raw) \<and>
     0 \<le> m_CheckIntervalSeconds m \<and> wire_int (m_CheckIntervalSeconds m) (r_CheckIntervalSeconds raw) \<and>
     wire_time (m_LastResponseAt m) (r_LastResponseAt raw) \<and> r_HTTPMethod raw = m_HTTPMethod m \<and>
     r_HTTPBody raw = m_HTTPBody m \<and> r_HTTPHeaders raw = m_HTTPHeaders m \<and> r_AuthUsername raw = m_AuthUsername m \<and>
     r_AuthPassword raw = m_AuthPassword m \<and> r_Keyword raw = m_Keyword m \<and> wire_int (m_Port m) (r_Port raw) \<and>
     r_DNSRecordType raw = m_DNSRecordType m \<and> r_DNSExpectedValues raw = m_DNSExpectedValues m \<and>
     wire_opt_int (m_HeartbeatIntervalMinutes m) (r_HeartbeatIntervalMinutes raw) \<and>
     wire_opt_int (m_HeartbeatGraceMinutes m) (r_HeartbeatGraceMinutes raw) \<and>
     wire_time (m_HeartbeatLastPingAt m) (r_HeartbeatLastPingAt raw) \<and>
     wire_bool (m_MaintenanceActive m) (r_MaintenanceActive raw)"

lemma float_to_int64_number: "\<bar>i\<bar> < 2 ^ 53 \<Longrightarrow> float_to_int64 oor (to_float (of_int i)) = i"
proof -
  assume i: "\<bar>i\<bar> < 2 ^ 53"
  then have "int64_range i" by (auto simp: int64_range_def)
  with i show ?thesis by (simp add: to_float_of_int float_to_int64_of_int del: power_numeral_even)
qed

lemma trim_padded: "blanks before \<Longrightarrow> blanks after \<Longrightarrow> \<forall>c \<in> set s. printable c \<Longrightarrow> s \<noteq> [] \<Longrightarrow>
    trim_space (concat before @ s @ concat after) = s"
  by (intro trim_space_pad) auto

lemma trim_nil: "trim_space [] = []"
  by code_simp

lemma wire_int_read: "wire_int i v \<Longrightarrow> parseIntFlexible L v field = Inr i"
proof (induction rule: wire_int.induct)
  case (int_text i before after)
  then have "trim_space (concat before @ int_dec i @ concat after) = int_dec i"
    by (intro trim_padded) (auto intro: int_dec_printable)
  with int_text show ?case by (simp add: parseIntFlexible_def padded_def Let_def parse_int64_int_dec)
qed (simp_all add: parseIntFlexible_def json_number_def float_to_int64_number trim_nil)

lemma wire_opt_int_read: "wire_opt_int x v \<Longrightarrow> parseOptionalIntFlexible L v field = Inr x"
  by (auto simp: wire_opt_int_def parseOptionalIntFlexible_def wire_int_read split: option.splits)

lemma wire_id_read: "wire_id x v \<Longrightarrow> parseStringFlexible L v field = Inr x"
  by (induction rule: wire_id.induct) (simp_all add: json_number_def float_to_int64_number)

lemma digit_printable: "digit_val c = Some n \<Longrightarrow> printable c"
  by (auto simp: digit_val_def printable_def Let_def split: if_splits)

lemma date_clock_printable:
  assumes "calendar_ok y mo d h mi s" "fraction_text ns f" "zone_text off z"
  shows "\<forall>c \<in> set (date_clock y mo d h mi s @ f @ z). printable c"
proof -
  have "d < 100" using assms(1) by (auto simp: calendar_ok_def days_in_def split: if_splits)
  with assms(1) have n: "y < 10000" "mo < 100" "d < 100" "h < 100" "mi < 100" "s < 100" by (simp_all add: calendar_ok_def)
  have p: "printable CHR ''-''" "printable CHR '':''" "printable CHR ''T''" "printable CHR ''Z''" "printable CHR ''+''" "printable CHR ''.''"
    by (simp_all add: printable_def)
  have "\<forall>c \<in> set (date_clock y mo d h mi s). printable c"
    using n p unfolding date_clock_def by (auto intro: two_digits_printable four_digits_printable)
  moreover have "\<forall>c \<in> set f. printable c"
    using assms(2) by cases (auto simp: p dest: digits_val_digits intro: digit_printable)
  moreover have "\<forall>c \<in> set z. printable c"
  proof -
    have two: "\<forall>c \<in> set (two_digits k). printable c" if "k < 60" for k
      using that by (auto intro: two_digits_printable [of k])
    from assms(3) show ?thesis
    proof cases
      case (ahead oh om)
      with two [of oh] two [of om] p show ?thesis by auto
    next
      case (behind oh om)
      with two [of oh] two [of om] p show ?thesis by auto
    qed (simp add: p)
  qed
  ultimately show ?thesis by auto
qed

lemma wire_time_read: "wire_time t v \<Longrightarrow> parseTimeFlexible L v field = Inr t"
proof (induction rule: wire_time.induct)
  case (time_text y mo d h mi s ns f off z before after)
  let ?text = "date_clock y mo d h mi s @ f @ z"
  have "?text \<noteq> []" by (simp add: date_clock_def)
  moreover from this have "trim_space (concat before @ ?text @ concat after) = ?text"
    using time_text date_clock_printable by (intro trim_padded) auto
  ultimately show ?case
    using time_Parse_rfc3339_nano [OF time_text(1,2,3)] by (simp add: padded_def Let_def parse_rfc3339_def del: append_assoc)
qed (simp_all add: trim_nil)

lemma wire_bool_texts:
  "trim_space (to_lower ''1'') = ''1''" "trim_space (to_lower ''true'') = ''true''" "trim_space (to_lower ''yes'') = ''yes''"
  "trim_space (to_lower ''on'') = ''on''" "trim_space (to_lower ''True'') = ''true''" "trim_space (to_lower ''TRUE'') = ''true''"
  "trim_space (to_lower ''0'') = ''0''" "trim_space (to_lower ''false'') = ''false''" "trim_space (to_lower ''no'') = ''no''"
  "trim_space (to_lower ''off'') = ''off''" "trim_space (to_lower ''False'') = ''false''" "trim_space (to_lower ''FALSE'') = ''false''"
  "trim_space (to_lower []) = []"
  by code_simp+

lemma wire_bool_read: "wire_bool b v \<Longrightarrow> parseBoolFlexible L v field = Inr b"
  by (induction rule: wire_bool.induct) (auto simp: json_number_def to_float_of_int wire_bool_texts)

lemmas wire_read = wire_id_read wire_int_read wire_opt_int_read wire_time_read wire_bool_read

text \<open>
  C36. Round trip: a monitoring is decoded to itself from whichever of the following forms each of its
  fields has in the JSON Core sends. Integers may be numbers (below \<open>2^53\<close>, where a \<open>float64\<close> is
  exact) or decimal text of any 64-bit integer; times RFC 3339 text with any fraction of a second and
  any offset, up to the year 9999; truth values booleans, numbers or the usual words; identifiers text or numbers;
  null and empty text stand for the zero values; text of an identifier, an integer or a time may
  have white space around it.
\<close>

lemma UnmarshalJSON_roundtrip:
  assumes "wire_monitoring m raw" "decode data = Inr raw"
  shows "UnmarshalJSON L decode data = Inr m"
proof -
  have w: "wire_monitoring m raw" by (rule assms(1))
  note fields = w [unfolded wire_monitoring_def]
  have parsed: "parseStringFlexible L (r_ID raw) ''id'' = Inr (m_ID m)"
    "parseIntFlexible L (r_Timeout raw) ''timeout'' = Inr (m_Timeout m)"
    "parseIntFlexible L (r_CheckIntervalSeconds raw) ''check_interval_seconds'' = Inr (m_CheckIntervalSeconds m)"
    "parseTimeFlexible L (r_LastResponseAt raw) ''last_response_at'' = Inr (m_LastResponseAt m)"
    "parseIntFlexible L (r_Port raw) ''port'' = Inr (m_Port m)"
    "parseOptionalIntFlexible L (r_HeartbeatIntervalMinutes raw) ''heartbeat_interval_minutes'' = Inr (m_HeartbeatIntervalMinutes m)"
    "parseOptionalIntFlexible L (r_HeartbeatGraceMinutes raw) ''heartbeat_grace_minutes'' = Inr (m_HeartbeatGraceMinutes m)"
    "parseTimeFlexible L (r_HeartbeatLastPingAt raw) ''heartbeat_last_ping_at'' = Inr (m_HeartbeatLastPingAt m)"
    "parseBoolFlexible L (r_MaintenanceActive raw) ''maintenance_active'' = Inr (m_MaintenanceActive m)"
    using fields by (blast intro: wire_read)+
  show ?thesis unfolding UnmarshalJSON_def assms(2) sum.case parsed using fields by simp
qed

text \<open>
  A monitoring as Core sends it: a numeric identifier and port, an interval as text, a time
  with microseconds and an offset.
\<close>

definition wire_sample :: raw_monitoring where
  "wire_sample =
     \<lparr>r_ID = AnyFloat64 42, r_Type = ''port'', r_PreferredLocation = '' de '', r_PreferredLocations = [], r_Target = ''a.b'',
      r_Timeout = AnyNil, r_CheckIntervalSeconds = AnyString '' 60 '', r_LastResponseAt = AnyString ''2028-02-29T12:30:00.250000+01:00'',
      r_HTTPMethod = [], r_HTTPBody = AnyNil, r_HTTPHeaders = AnyNil, r_AuthUsername = [], r_AuthPassword = [], r_Keyword = [],
      r_Port = AnyFloat64 443, r_DNSRecordType = [], r_DNSExpectedValues = [], r_HeartbeatIntervalMinutes = AnyNil,
      r_HeartbeatGraceMinutes = AnyFloat64 5, r_HeartbeatLastPingAt = AnyNil, r_MaintenanceActive = AnyString ''yes''\<rparr>"

definition decoded_sample :: monitoring where
  "decoded_sample = zero_monitoring\<lparr>m_ID := ''42'', m_Type := TypePort, m_PreferredLocation := ''de'', m_Target := ''a.b'',
     m_CheckIntervalSeconds := 60, m_LastResponseAt := Some (calendar_instant 2028 2 29 11 30 0 + 250000000), m_Port := 443,
     m_HeartbeatGraceMinutes := Some 5, m_MaintenanceActive := True\<rparr>"

lemma wire_sample_sent: "wire_monitoring decoded_sample wire_sample"
proof -
  have "int_dec 42 = ''42''" "int_dec 60 = ''60''" "trim_space '' de '' = ''de''" by code_simp+
  note texts = this
  have n: "json_number 42 = AnyFloat64 42" "json_number 443 = AnyFloat64 443" "json_number 5 = AnyFloat64 5"
    using to_float_of_int [of 42] to_float_of_int [of 443] to_float_of_int [of 5] by (simp_all add: json_number_def)
  have i: "wire_id ''42'' (AnyFloat64 42)" "wire_int 443 (AnyFloat64 443)" "wire_int 5 (AnyFloat64 5)"
    using id_number [of 42] int_number [of 443] int_number [of 5] by (simp_all add: n texts)
  have t: "wire_int 60 (AnyString '' 60 '')"
    using int_text [of 60 "['' '']" "['' '']"] by (simp add: padded_def texts int64_range_def go_spaces_def)
  have f: "fraction_text 250000000 ''.250000''"
  proof -
    have "digits_val 0 ''250000'' = Some 250000" by (simp add: digit_val_def)
    from decimals [OF _ _ this] show ?thesis by simp
  qed
  have z: "zone_text 3600 ''+01:00''"
  proof -
    have "two_digits 1 = ''01''" "two_digits 0 = ''00''" by code_simp+
    with ahead [of 1 0] show ?thesis by simp
  qed
  have c: "calendar_ok 2028 2 29 12 30 0" by code_simp
  have clock: "date_clock 2028 2 29 12 30 0 = ''2028-02-29T12:30:00''" by code_simp
  have "calendar_instant 2028 2 29 12 30 0 = calendar_instant 2028 2 29 11 30 0 + 3600 * go_second"
    by (simp add: calendar_instant_def distrib_right [symmetric])
  with time_text [OF c f z, of "[]" "[]"]
  have "wire_time (Some (calendar_instant 2028 2 29 11 30 0 + 250000000)) (AnyString ''2028-02-29T12:30:00.250000+01:00'')"
    by (simp add: padded_def clock)
  with i t bool_true [of "''yes''"] show ?thesis
    by (simp add: wire_monitoring_def decoded_sample_def wire_sample_def zero_monitoring_def mon_type_defs texts
        wire_opt_int_def int_null time_null)
qed

lemma UnmarshalJSON_roundtrip_witness:
  "\<forall>L. UnmarshalJSON L (\<lambda>_. Inr wire_sample) [] = Inr decoded_sample \<and> m_Port decoded_sample = 443"
proof
  fix L
  from UnmarshalJSON_roundtrip [OF wire_sample_sent, of "\<lambda>_. Inr wire_sample" "[]" L]
  show "UnmarshalJSON L (\<lambda>_. Inr wire_sample) [] = Inr decoded_sample \<and> m_Port decoded_sample = 443"
    by (simp add: decoded_sample_def)
qed

text \<open>Above \<open>2^53\<close> a number is rounded on its way, and an identifier may turn into another.\<close>

lemma large_number_rounded:
  "parseStringFlexible L (json_number 9007199254740993) field = Inr (int_dec 9007199254740992)"
proof -
  have "floorlog 2 9007199254740993 = 54" by (simp add: compute_floorlog)
  moreover have "floorlog 2 (Suc 0) = 1" by (simp add: floorlog_def)
  ultimately have "binade 9007199254740993 = 53" by (simp add: binade_def two_power_def)
  then have "to_float (of_int 9007199254740993) = of_int 9007199254740992"
    using floor_unique [of 4503599627370496 "9007199254740993 / 2 :: rat"]
    by (simp add: to_float_def two_power_def round_half_even_def Let_def)
  then show ?thesis
    using float_to_int64_of_int [of 9007199254740992 "float_oor L"]
    by (simp add: json_number_def int64_range_def)
qed

text \<open>
  Decoding accepts only well-formed monitorings: the interval is never negative, every
  number is a 64-bit integer and the preferred location is trimmed.
\<close>

lemma UnmarshalJSON_wf:
  assumes "decode data = Inr raw" "raw_in_range raw" "UnmarshalJSON L decode data = Inr m"
  shows "monitoring_wf m"
  using assms
  by (auto simp: UnmarshalJSON_def monitoring_wf_def raw_in_range_def
      dest: parseIntFlexible_range parseOptionalIntFlexible_range split: unmarshal_splits)

end
