(* ===== verification/Executor_Registry.thy ===== *)
theory Executor_Registry
  imports Monitor_Types
begin

text \<open>
  \<open>internal/adapters/runner/executor_registry.go\<close>: execution phases, normalized results, the
  registry of executors and the lookup by phase and monitoring type.

  An executor's check itself is network work: \<open>x_execute\<close> gives the result the check
  produces for the monitoring it is handed.
\<close>

section \<open>Phases and results\<close>

type_synonym phase = string

definition PhaseResponse :: phase where "PhaseResponse = ''response''"
definition PhaseSSL :: phase where "PhaseSSL = ''ssl''"
definition PhaseDomainExpiration :: phase where "PhaseDomainExpiration = ''domain_expiration''"

lemmas phase_defs = PhaseResponse_def PhaseSSL_def PhaseDomainExpiration_def

record execution =
  e_Response :: "response_payload option"
  e_SSL :: "ssl_payload option"
  e_Domain :: "domain_payload option"

definition empty_execution :: execution where
  "empty_execution = \<lparr>e_Response = None, e_SSL = None, e_Domain = None\<rparr>"

definition responseExecutionWithObservation ::
    "string \<Rightarrow> mon_status \<Rightarrow> rat option \<Rightarrow> int option \<Rightarrow> raw_observation option \<Rightarrow> execution" where
  "responseExecutionWithObservation monitoringID status responseTime httpStatusCode observation =
     \<lparr>e_Response = Some \<lparr>rp_MonitoringID = monitoringID, rp_IdempotencyKey = [], rp_Status = status,
        rp_ResponseTime = responseTime, rp_HTTPStatusCode = httpStatusCode,
        rp_CheckIntervalSeconds = None, rp_Observation = observation\<rparr>,
      e_SSL = None, e_Domain = None\<rparr>"

definition responseExecution :: "string \<Rightarrow> mon_status \<Rightarrow> rat option \<Rightarrow> int option \<Rightarrow> execution" where
  "responseExecution monitoringID status responseTime httpStatusCode =
     responseExecutionWithObservation monitoringID status responseTime httpStatusCode None"

definition maintenanceExecution :: "phase \<Rightarrow> string \<Rightarrow> execution" where
  "maintenanceExecution phase monitoringID =
     (if phase = PhaseSSL then empty_execution
      else responseExecution monitoringID StatusUnknown None None)"

text \<open>\<open>executeSSL\<close> and \<open>executeDomainExpiration\<close>, given what the crawl returned.\<close>

definition executeSSL :: "(monitoring \<Rightarrow> ssl_payload) \<Rightarrow> monitoring \<Rightarrow> execution" where
  "executeSSL crawl m = \<lparr>e_Response = None, e_SSL = Some (crawl m), e_Domain = None\<rparr>"

definition executeDomainExpiration ::
    "(monitoring \<Rightarrow> mon_status \<times> domain_payload \<times> bool) \<Rightarrow> monitoring \<Rightarrow> execution" where
  "executeDomainExpiration crawl m =
     (case crawl m of (status, payload, hasPayload) \<Rightarrow>
        let execution = responseExecution (m_ID m) status None None
        in if hasPayload then execution\<lparr>e_Domain := Some payload\<rparr> else execution)"

definition executionOutcome :: "execution \<Rightarrow> string" where
  "executionOutcome e =
     (case e_Response e of
        Some r \<Rightarrow> rp_Status r
      | None \<Rightarrow>
          (case e_SSL e of
             Some s \<Rightarrow> if sp_IsValid s then ''up'' else ''down''
           | None \<Rightarrow>
               (case e_Domain e of
                  Some d \<Rightarrow> if dp_IsValid d then ''up'' else ''down''
                | None \<Rightarrow> ''unknown'')))"

section \<open>The registry\<close>

record executor =
  x_name :: string
  x_phase :: phase
  x_types :: "mon_type list"
  x_execute :: "monitoring \<Rightarrow> execution"

definition supports_type :: "executor \<Rightarrow> mon_type \<Rightarrow> bool" where
  "supports_type x t = List.member (x_types x) t"

text \<open>The inner and the outer loop of \<open>Types\<close>, with the set of types seen so far.\<close>

fun types_loop :: "mon_type set \<Rightarrow> mon_type list \<Rightarrow> mon_type list" where
  "types_loop seen [] = []"
| "types_loop seen (t # ts) = (if t \<in> seen then types_loop seen ts else t # types_loop (insert t seen) ts)"

fun types_of :: "phase \<Rightarrow> mon_type set \<Rightarrow> executor list \<Rightarrow> mon_type list" where
  "types_of phase seen [] = []"
| "types_of phase seen (x # xs) =
     (if x_phase x \<noteq> phase then types_of phase seen xs
      else types_loop seen (x_types x) @ types_of phase (seen \<union> set (x_types x)) xs)"

definition Types :: "executor list \<Rightarrow> phase \<Rightarrow> mon_type list" where
  "Types registry phase = types_of phase {} registry"

fun find_executor :: "executor list \<Rightarrow> phase \<Rightarrow> mon_type \<Rightarrow> executor option" where
  "find_executor [] phase t = None"
| "find_executor (x # xs) phase t =
     (if x_phase x = phase \<and> supports_type x t then Some x else find_executor xs phase t)"

definition Supports :: "executor list \<Rightarrow> phase \<Rightarrow> mon_type \<Rightarrow> bool" where
  "Supports registry phase t = (find_executor registry phase t \<noteq> None)"

definition boundedMonitoringTimeout :: "int \<Rightarrow> int" where
  "boundedMonitoringTimeout timeout =
     (if timeout < 0 then 0 else if timeout > 60 then 60 else timeout)"

definition Execute :: "executor list \<Rightarrow> phase \<Rightarrow> monitoring \<Rightarrow> execution \<times> bool" where
  "Execute registry phase m =
     (case find_executor registry phase (m_Type m) of
        None \<Rightarrow> (empty_execution, False)
      | Some x \<Rightarrow>
          (let m' = m\<lparr>m_Timeout := boundedMonitoringTimeout (m_Timeout m)\<rparr>;
               e = x_execute x m'
           in case e_Response e of
                Some r \<Rightarrow>
                  if m_CheckIntervalSeconds m' > 0
                  then (e\<lparr>e_Response := Some (r\<lparr>rp_CheckIntervalSeconds := Some (m_CheckIntervalSeconds m')\<rparr>)\<rparr>, True)
                  else (e, True)
              | None \<Rightarrow> (e, True)))"

text \<open>The checks of the service, one per executor.\<close>

record checks =
  executeHTTP :: "monitoring \<Rightarrow> execution"
  executePing :: "monitoring \<Rightarrow> execution"
  executeKeyword :: "monitoring \<Rightarrow> execution"
  executePort :: "monitoring \<Rightarrow> execution"
  executeDNSRecord :: "monitoring \<Rightarrow> execution"
  crawlMonitoringSSL :: "monitoring \<Rightarrow> ssl_payload"
  crawlDomainExpiration :: "monitoring \<Rightarrow> mon_status \<times> domain_payload \<times> bool"

definition newExecutorRegistry :: "checks \<Rightarrow> executor list" where
  "newExecutorRegistry c =
     [\<lparr>x_name = ''http'', x_phase = PhaseResponse, x_types = [TypeHTTP], x_execute = executeHTTP c\<rparr>,
      \<lparr>x_name = ''ping'', x_phase = PhaseResponse, x_types = [TypePing], x_execute = executePing c\<rparr>,
      \<lparr>x_name = ''keyword'', x_phase = PhaseResponse, x_types = [TypeKeyword], x_execute = executeKeyword c\<rparr>,
      \<lparr>x_name = ''tcp-port'', x_phase = PhaseResponse, x_types = [TypePort], x_execute = executePort c\<rparr>,
      \<lparr>x_name = ''dns-record'', x_phase = PhaseResponse, x_types = [TypeDNSRecord], x_execute = executeDNSRecord c\<rparr>,
      \<lparr>x_name = ''tls-certificate'', x_phase = PhaseSSL, x_types = [TypeHTTP, TypeKeyword, TypePort],
       x_execute = executeSSL (crawlMonitoringSSL c)\<rparr>,
      \<lparr>x_name = ''domain-expiration'', x_phase = PhaseDomainExpiration, x_types = [TypeDomainExpiration],
       x_execute = executeDomainExpiration (crawlDomainExpiration c)\<rparr>]"

section \<open>Lookup\<close>

lemma types_loop_keep_first: "types_loop seen ts = keep_first (\<lambda>t. t) seen ts"
  by (induction ts arbitrary: seen) auto

lemma set_types_loop: "set (types_loop seen ts) = set ts - seen"
  using keep_first_keys [of "\<lambda>t. t" seen ts] by (simp add: types_loop_keep_first)

lemma set_types_of: "set (types_of phase seen xs) = (\<Union>x \<in> {x \<in> set xs. x_phase x = phase}. set (x_types x)) - seen"
  by (induction xs arbitrary: seen) (auto simp: set_types_loop)

lemma distinct_types_of: "distinct (types_of phase seen xs)"
proof (induction xs arbitrary: seen)
  case (Cons x xs)
  have "distinct (types_loop seen (x_types x))"
    using keep_first_distinct [of "\<lambda>t. t" seen "x_types x"] by (simp add: types_loop_keep_first)
  with Cons show ?case by (auto simp: set_types_of set_types_loop)
qed simp

lemma find_executor_Some:
  "find_executor xs phase t = Some x \<Longrightarrow> x \<in> set xs \<and> x_phase x = phase \<and> t \<in> set (x_types x)"
  by (induction xs) (auto simp: supports_type_def split: if_splits)

lemma find_executor_None:
  "find_executor xs phase t = None \<longleftrightarrow> (\<forall>x \<in> set xs. x_phase x = phase \<longrightarrow> t \<notin> set (x_types x))"
  by (induction xs) (auto simp: supports_type_def)

text \<open>
  For any registry, the types a phase asks Core for are listed once each, and they are
  exactly the types for which that phase has an executor.
\<close>

lemma types_are_supported:
  "distinct (Types registry phase) \<and> (t \<in> set (Types registry phase) \<longleftrightarrow> Supports registry phase t)"
  unfolding Types_def Supports_def find_executor_None by (auto simp: set_types_of distinct_types_of)

text \<open>
  The worker's registry covers exactly the documented phase and type combinations; a
  heartbeat monitoring is never executed.
\<close>

lemma registry_coverage:
  "Supports (newExecutorRegistry c) phase t \<longleftrightarrow>
     phase = ''response'' \<and> t \<in> {''http'', ''ping'', ''keyword'', ''port'', ''dns_record''} \<or>
     phase = ''ssl'' \<and> t \<in> {''http'', ''keyword'', ''port''} \<or>
     phase = ''domain_expiration'' \<and> t = ''domain_expiration''"
  by (auto simp: Supports_def newExecutorRegistry_def supports_type_def phase_defs mon_type_defs)

lemma boundedMonitoringTimeout_bounds: "0 \<le> boundedMonitoringTimeout t \<and> boundedMonitoringTimeout t \<le> 60"
  by (simp add: boundedMonitoringTimeout_def)

text \<open>
  An executor only ever sees a timeout between 0 and 60 seconds and an otherwise
  unchanged monitoring, and the response it produces reports the interval the check was run
  for; the rest of its result is passed on as it is.
\<close>

lemma execute_bounds_timeout:
  assumes "find_executor registry phase (m_Type m) = Some x"
  shows "\<exists>timeout. 0 \<le> timeout \<and> timeout \<le> 60 \<and>
    (0 \<le> m_Timeout m \<and> m_Timeout m \<le> 60 \<longrightarrow> timeout = m_Timeout m) \<and>
    (let e = x_execute x (m\<lparr>m_Timeout := timeout\<rparr>) in
      Execute registry phase m =
        (e\<lparr>e_Response := map_option (\<lambda>r. if m_CheckIntervalSeconds m > 0
            then r\<lparr>rp_CheckIntervalSeconds := Some (m_CheckIntervalSeconds m)\<rparr> else r) (e_Response e)\<rparr>, True))"
  using assms
  by (intro exI [of _ "boundedMonitoringTimeout (m_Timeout m)"])
     (auto simp: Execute_def boundedMonitoringTimeout_def Let_def split: option.splits)

lemma execute_bounds_timeout_witness:
  "\<forall>c. \<exists>timeout \<le> 60. 0 \<le> timeout \<and>
     e_Response (fst (Execute (newExecutorRegistry (c\<lparr>executeHTTP := \<lambda>m. responseExecution (m_ID m) ''up'' None (Some (m_Timeout m))\<rparr>))
       PhaseResponse (zero_monitoring\<lparr>m_Type := ''http'', m_Timeout := 900\<rparr>))) =
     e_Response (responseExecution [] ''up'' None (Some timeout))"
proof
  fix c :: checks
  let ?c = "c\<lparr>executeHTTP := \<lambda>m. responseExecution (m_ID m) ''up'' None (Some (m_Timeout m))\<rparr>"
  let ?m = "zero_monitoring\<lparr>m_Type := ''http'', m_Timeout := 900\<rparr>"
  let ?x = "\<lparr>x_name = ''http'', x_phase = PhaseResponse, x_types = [TypeHTTP], x_execute = executeHTTP ?c\<rparr>"
  have "find_executor (newExecutorRegistry ?c) PhaseResponse (m_Type ?m) = Some ?x"
    by (simp add: newExecutorRegistry_def supports_type_def mon_type_defs zero_monitoring_def)
  from execute_bounds_timeout [OF this]
  show "\<exists>timeout \<le> 60. 0 \<le> timeout \<and>
     e_Response (fst (Execute (newExecutorRegistry ?c) PhaseResponse ?m)) =
     e_Response (responseExecution [] ''up'' None (Some timeout))"
    by (auto simp: Let_def zero_monitoring_def responseExecution_def responseExecutionWithObservation_def)
qed

end
