(* ===== verification/Idempotency_Key.thy ===== *)
theory Idempotency_Key
  imports Go_Strconv
begin

text \<open>
  \<open>internal/adapters/runner/idempotency.go\<close>: the version 4 UUIDs that make a callback
  idempotent, their generation from 16 random bytes and the test the runner applies to the
  keys Core sends.
\<close>

unbundle bit_operations_syntax

lemma hex_encode_append: "hex_encode (as @ bs) = hex_encode as @ hex_encode bs"
  by (simp add: hex_encode_def)

lemma hex_decode_iff: "hex_decode s \<noteq> None \<longleftrightarrow> even (length s) \<and> (\<forall>c \<in> set s. hex_value c \<noteq> None)"
  by (induction s rule: hex_decode.induct) (auto split: option.splits)

lemma hex_value_dash: "hex_value CHR ''-'' = None"
  by (simp add: hex_value_def)

lemma hex_digit_not_dash: "n < 16 \<Longrightarrow> hex_digit n \<noteq> CHR ''-''"
  using hex_value_digit [of n] hex_value_dash by auto

lemma hex_encode_no_dash: "CHR ''-'' \<notin> set (hex_encode bs)"
proof (induction bs)
  case (Cons b bs)
  with hex_digit_not_dash [OF unat_byte(1), of b] hex_digit_not_dash [OF unat_byte(2), of b]
  show ?case by (auto simp: hex_encode_def hex_byte_def)
qed (simp add: hex_encode_def)

section \<open>Generation\<close>

text \<open>
  \<open>rand.Read\<close> fills a \<open>[16]byte\<close> array, here a function of the index, or fails.
\<close>

definition stamped :: "(nat \<Rightarrow> 8 word) \<Rightarrow> 8 word list" where
  "stamped bytes =
     (let v = map bytes [0..<16];
          v = v[6 := ((v ! 6) AND 0x0f) OR 0x40];
          v = v[8 := ((v ! 8) AND 0x3f) OR 0x80]
      in v)"

definition newIdempotencyKey :: "(nat \<Rightarrow> 8 word) option \<Rightarrow> string + string" where
  "newIdempotencyKey rand =
     (case rand of
        None \<Rightarrow> Inl ''generate callback idempotency key''
      | Some bytes \<Rightarrow>
          (let v = stamped bytes
           in Inr (hex_encode (take 4 v) @ ''-'' @ hex_encode (take 2 (drop 4 v)) @ ''-'' @
                   hex_encode (take 2 (drop 6 v)) @ ''-'' @ hex_encode (take 2 (drop 8 v)) @ ''-'' @
                   hex_encode (take 6 (drop 10 v)))))"

section \<open>Recognition\<close>

definition isUUIDVersion :: "string \<Rightarrow> char \<Rightarrow> bool" where
  "isUUIDVersion v version =
     (if length v \<noteq> 36 \<or> v ! 8 \<noteq> CHR ''-'' \<or> v ! 13 \<noteq> CHR ''-'' \<or> v ! 18 \<noteq> CHR ''-'' \<or> v ! 23 \<noteq> CHR ''-''
      then False
      else if v ! 14 \<noteq> version \<or> v ! 19 \<notin> set ''89abAB'' then False
      else hex_decode (filter (\<lambda>c. c \<noteq> CHR ''-'') v) \<noteq> None)"

definition isUUIDv4 :: "string \<Rightarrow> bool" where
  "isUUIDv4 v = isUUIDVersion v (CHR ''4'')"

text \<open>The version and the variant land in the digits 14 and 19.\<close>

lemma unat_div_16: "unat (b :: 8 word) div 16 = unat (drop_bit 4 b)"
  by (simp add: drop_bit_eq_div unat_div)

lemma version_digit: "hex_digit (unat (((b :: 8 word) AND 0x0f) OR 0x40) div 16) = CHR ''4''"
proof -
  have "drop_bit 4 ((b AND 0x0f) OR 0x40) = 4" by (simp add: drop_bit_and drop_bit_or)
  then have "unat ((b AND 0x0f) OR 0x40) div 16 = 4" by (simp add: unat_div_16)
  moreover have "hex_digit 4 = CHR ''4''" by code_simp
  ultimately show ?thesis by simp
qed

lemma small_or_8: "n \<in> {0, 1, 2, 3} \<Longrightarrow> unat ((word_of_nat n :: 8 word) OR 8) \<in> {8, 9, 10, 11}"
  by auto

lemma variant_digit: "hex_digit (unat (((b :: 8 word) AND 0x3f) OR 0x80) div 16) \<in> set ''89abAB''"
proof -
  let ?y = "drop_bit 4 b AND 3"
  have "unat ?y \<le> unat (3 :: 8 word)" by (rule word_and_le1 [THEN word_le_nat_alt [THEN iffD1]])
  then have "unat ?y \<in> {0, 1, 2, 3}" by auto
  from small_or_8 [OF this] have "unat (?y OR 8) \<in> {8, 9, 10, 11}" by simp
  moreover have "drop_bit 4 ((b AND 0x3f) OR 0x80) = ?y OR 8" by (simp add: drop_bit_and drop_bit_or)
  ultimately have "unat ((b AND 0x3f) OR 0x80) div 16 \<in> {8, 9, 10, 11}" by (simp add: unat_div_16)
  moreover have "hex_digit 8 = CHR ''8''" "hex_digit 9 = CHR ''9''" "hex_digit 10 = CHR ''a''" "hex_digit 11 = CHR ''b''"
    by code_simp+
  ultimately show ?thesis by auto
qed

lemma upt_16: "[0..<16] = [0, 1, 2, 3, 4, 5, 6, 7, 8, 9, 10, 11, 12, 13, 14, 15 :: nat]"
  by (simp add: upt_rec)

lemma stamped_list:
  "stamped f = [f 0, f 1, f 2, f 3, f 4, f 5, (f 6 AND 0x0f) OR 0x40, f 7, (f 8 AND 0x3f) OR 0x80,
                f 9, f 10, f 11, f 12, f 13, f 14, f 15]"
  by (simp add: stamped_def upt_16 Let_def)

lemma length_stamped [simp]: "length (stamped f) = 16"
  by (simp add: stamped_list)

lemma newIdempotencyKey_undashed:
  assumes "newIdempotencyKey (Some f) = Inr k"
  shows "filter (\<lambda>c. c \<noteq> CHR ''-'') k = hex_encode (stamped f)"
proof -
  have nd: "filter (\<lambda>c. c \<noteq> CHR ''-'') (hex_encode bs) = hex_encode bs" for bs
    using hex_encode_no_dash [of bs] by (intro filter_True) auto
  have "take (4 + 2 + 2 + 2 + 6) xs = take 4 xs @ take 2 (drop 4 xs) @ take 2 (drop (4 + 2) xs) @
      take 2 (drop (4 + 2 + 2) xs) @ take 6 (drop (4 + 2 + 2 + 2) xs)" for xs :: "8 word list"
    by (simp only: take_add append_assoc)
  from this [of "stamped f"]
  have "stamped f = take 4 (stamped f) @ take 2 (drop 4 (stamped f)) @ take 2 (drop 6 (stamped f)) @
      take 2 (drop 8 (stamped f)) @ take 6 (drop 10 (stamped f))"
    by simp
  from arg_cong [OF this, of hex_encode]
  have "hex_encode (stamped f) = hex_encode (take 4 (stamped f)) @ hex_encode (take 2 (drop 4 (stamped f))) @
      hex_encode (take 2 (drop 6 (stamped f))) @ hex_encode (take 2 (drop 8 (stamped f))) @
      hex_encode (take 6 (drop 10 (stamped f)))"
    by (simp only: hex_encode_append)
  with assms show ?thesis by (auto simp: newIdempotencyKey_def Let_def nd)
qed

section \<open>Properties\<close>

lemma hex_encode_digits: "c \<in> set (hex_encode bs) \<Longrightarrow> hex_value c \<noteq> None"
proof -
  assume "c \<in> set (hex_encode bs)"
  moreover have "hex_decode (hex_encode bs) \<noteq> None" by simp
  ultimately show ?thesis unfolding hex_decode_iff by blast
qed

lemma hex_encode_byte: "hex_encode (b # bs) = hex_digit (unat b div 16) # hex_digit (unat b mod 16) # hex_encode bs"
  by (simp add: hex_encode_def hex_byte_def)

lemma hex_encode_Nil [simp]: "hex_encode [] = []"
  by (simp add: hex_encode_def)

text \<open>
  Every generated callback key passes the runner's own UUIDv4 test, whatever the random
  bytes are.
\<close>

lemma generated_key_valid:
  assumes "newIdempotencyKey rand = Inr k"
  shows "isUUIDv4 k"
proof -
  from assms obtain f where f: "rand = Some f" by (cases rand) (auto simp: newIdempotencyKey_def)
  have k: "newIdempotencyKey (Some f) = Inr k" using assms f by simp
  have "hex_decode (filter (\<lambda>c. c \<noteq> CHR ''-'') k) \<noteq> None"
    by (simp add: newIdempotencyKey_undashed [OF k])
  moreover have "length k = 36 \<and> k ! 8 = CHR ''-'' \<and> k ! 13 = CHR ''-'' \<and> k ! 18 = CHR ''-'' \<and> k ! 23 = CHR ''-'' \<and>
      k ! 14 = CHR ''4'' \<and> k ! 19 \<in> set ''89abAB''"
    using k version_digit [of "f 6"] variant_digit [of "f 8"]
    by (auto simp: newIdempotencyKey_def Let_def stamped_list hex_encode_byte)
  ultimately show ?thesis by (simp add: isUUIDv4_def isUUIDVersion_def)
qed

lemma generated_key_valid_witness:
  "newIdempotencyKey (Some (\<lambda>_. 0)) = Inr ''00000000-0000-4000-8000-000000000000'' \<and>
   isUUIDv4 ''00000000-0000-4000-8000-000000000000''"
proof -
  have "newIdempotencyKey (Some (\<lambda>_. 0)) = Inr ''00000000-0000-4000-8000-000000000000''"
    by code_simp
  with generated_key_valid [OF this] show ?thesis by simp
qed

text \<open>
  The key carries all 122 random bits: two arrays of random bytes give the same key
  exactly when they agree outside the version and variant bits.
\<close>

lemma generated_key_entropy:
  "newIdempotencyKey (Some f) = newIdempotencyKey (Some g) \<longleftrightarrow>
     map f [0, 1, 2, 3, 4, 5, 7, 9, 10, 11, 12, 13, 14, 15] = map g [0, 1, 2, 3, 4, 5, 7, 9, 10, 11, 12, 13, 14, 15] \<and>
     f 6 AND 0x0f = g 6 AND 0x0f \<and> f 8 AND 0x3f = g 8 AND 0x3f"
proof -
  have mask6: "((a :: 8 word) AND 0x0f) OR 0x40 = (b AND 0x0f) OR 0x40 \<longleftrightarrow> a AND 0x0f = b AND 0x0f" for a b
  proof
    assume "(a AND 0x0f) OR 0x40 = (b AND 0x0f) OR 0x40"
    then have "((a AND 0x0f) OR 0x40) AND 0x0f = ((b AND 0x0f) OR 0x40) AND 0x0f" by simp
    then show "a AND 0x0f = b AND 0x0f" by (simp add: and.assoc bit.conj_disj_distrib2)
  qed simp
  have mask8: "((a :: 8 word) AND 0x3f) OR 0x80 = (b AND 0x3f) OR 0x80 \<longleftrightarrow> a AND 0x3f = b AND 0x3f" for a b
  proof
    assume "(a AND 0x3f) OR 0x80 = (b AND 0x3f) OR 0x80"
    then have "((a AND 0x3f) OR 0x80) AND 0x3f = ((b AND 0x3f) OR 0x80) AND 0x3f" by simp
    then show "a AND 0x3f = b AND 0x3f" by (simp add: and.assoc bit.conj_disj_distrib2)
  qed simp
  have "newIdempotencyKey (Some f) = newIdempotencyKey (Some g) \<longleftrightarrow> stamped f = stamped g"
  proof
    assume eq: "newIdempotencyKey (Some f) = newIdempotencyKey (Some g)"
    obtain k where k: "newIdempotencyKey (Some f) = Inr k" by (simp add: newIdempotencyKey_def Let_def)
    with eq have "newIdempotencyKey (Some g) = Inr k" by simp
    with newIdempotencyKey_undashed [OF k] newIdempotencyKey_undashed [OF this]
    show "stamped f = stamped g" by (simp add: hex_encode_inject)
  qed (simp add: newIdempotencyKey_def)
  also have "\<dots> \<longleftrightarrow>
     map f [0, 1, 2, 3, 4, 5, 7, 9, 10, 11, 12, 13, 14, 15] = map g [0, 1, 2, 3, 4, 5, 7, 9, 10, 11, 12, 13, 14, 15] \<and>
     f 6 AND 0x0f = g 6 AND 0x0f \<and> f 8 AND 0x3f = g 8 AND 0x3f"
    by (auto simp: stamped_list mask6 mask8)
  finally show ?thesis .
qed

text \<open>
  The test accepts text that is no UUID: it removes every dash before it decodes the
  digits, so an even number of digits may be replaced by further dashes.
\<close>

lemma uuid_test_accepts_extra_dashes:
  "isUUIDv4 ''00000000-0000-4000-8000-0000000000--'' \<and>
   length (filter (\<lambda>c. hex_value c \<noteq> None) ''00000000-0000-4000-8000-0000000000--'') = 30"
  by code_simp

section \<open>The contract of a key source\<close>

text \<open>
  What the publisher of callbacks relies on: a generator whose keys are valid, and a choice
  that keeps a valid key it was given and generates one otherwise.
\<close>

locale callback_keys =
  fixes generate :: "'seed \<Rightarrow> 'e + string"
    and valid :: "string \<Rightarrow> bool"
    and pick :: "string list \<Rightarrow> 'seed \<Rightarrow> 'e + string"
  assumes generate_valid: "generate seed = Inr k \<Longrightarrow> valid k"
    and pick_given: "valid k \<Longrightarrow> pick (k # ks) seed = Inr k"
    and pick_invalid: "\<not> valid k \<Longrightarrow> pick (k # ks) seed = generate seed"
    and pick_none: "pick [] seed = generate seed"
begin

lemma pick_valid: "pick ks seed = Inr k \<Longrightarrow> valid k"
  by (cases ks) (metis pick_given pick_invalid pick_none generate_valid sum.inject(2))+

end

end
