(* ===== verification/Gateway.thy ===== *)
theory Gateway
  imports Executor_Registry Telemetry Idempotency_Key
begin

text \<open>
  The boundary to WebGuard Core (\<open>internal/application/ports.go\<close>) and the result publisher
  of \<open>executor_registry.go\<close>.

  What the runner does to the world is a list of effects in program order: a call of a
  gateway method or a telemetry update. Logging is left out. The answers of Core are inputs.
\<close>

section \<open>Calls of the gateway\<close>

datatype core_call =
    GetMonitorings string "mon_type list"
  | PostMonitoringResponse response_payload
  | PostSSLResult ssl_payload
  | PostDomainResult domain_payload
  | ClaimMonitoringJobs claim_request
  | CompleteMonitoringJob string string int job_result
  | ReleaseMonitoringJob string int string
  | ExtendMonitoringJob string int

text \<open>
  An effect is a call of the telemetry, a call of the gateway, or an attempt to start a response
  check: the monitoring, the time and the verdict of the shared cadence.
\<close>

datatype effect = Tel telemetry_op | Core core_call | TryStart monitoring instant bool

definition tel_ops :: "effect list \<Rightarrow> telemetry_op list" where
  "tel_ops es = List.map_filter (\<lambda>e. case e of Tel x \<Rightarrow> Some x | _ \<Rightarrow> None) es"

definition core_calls :: "effect list \<Rightarrow> core_call list" where
  "core_calls es = List.map_filter (\<lambda>e. case e of Core c \<Rightarrow> Some c | _ \<Rightarrow> None) es"

lemma tel_ops_simps [simp]:
  "tel_ops [] = []" "tel_ops (Tel x # es) = x # tel_ops es" "tel_ops (Core c # es) = tel_ops es"
  "tel_ops (TryStart m now v # es) = tel_ops es"
  "tel_ops (es @ fs) = tel_ops es @ tel_ops fs"
  by (simp_all add: tel_ops_def map_filter_def)

lemma core_calls_simps [simp]:
  "core_calls [] = []" "core_calls (Tel x # es) = core_calls es" "core_calls (Core c # es) = c # core_calls es"
  "core_calls (TryStart m now v # es) = core_calls es"
  "core_calls (es @ fs) = core_calls es @ core_calls fs"
  by (simp_all add: core_calls_def map_filter_def)

lemma core_calls_map [simp]: "core_calls (map Core cs) = cs"
  by (induction cs) simp_all

lemma tel_ops_map [simp]: "tel_ops (map Core cs) = []"
  by (induction cs) simp_all

section \<open>Publishing a result\<close>

text \<open>
  \<open>publishExecution\<close> takes the first of the given keys if it is a UUIDv4 and generates a
  key otherwise. The payloads are shared by pointer, so the caller sees the key in them: the
  updated execution is returned with the calls. A failed post is only logged.
\<close>

definition callbackKey :: "string list \<Rightarrow> (nat \<Rightarrow> 8 word) option \<Rightarrow> string + string" where
  "callbackKey executionKeys rand =
     (let idempotencyKey =
        (case executionKeys of k # _ \<Rightarrow> if isUUIDv4 k then k else [] | [] \<Rightarrow> [])
      in if idempotencyKey = [] then newIdempotencyKey rand else Inr idempotencyKey)"

definition setExecutionIdempotencyKey :: "string \<Rightarrow> execution \<Rightarrow> execution" where
  "setExecutionIdempotencyKey key e =
     e\<lparr>e_Response := map_option (\<lambda>r. r\<lparr>rp_IdempotencyKey := key\<rparr>) (e_Response e),
       e_SSL := map_option (\<lambda>r. r\<lparr>sp_IdempotencyKey := key\<rparr>) (e_SSL e),
       e_Domain := map_option (\<lambda>r. r\<lparr>dp_IdempotencyKey := key\<rparr>) (e_Domain e)\<rparr>"

definition opt_call :: "('a \<Rightarrow> core_call) \<Rightarrow> 'a option \<Rightarrow> core_call list" where
  "opt_call f v = (case v of None \<Rightarrow> [] | Some x \<Rightarrow> [f x])"

definition publishExecution ::
    "execution \<Rightarrow> string list \<Rightarrow> (nat \<Rightarrow> 8 word) option \<Rightarrow> core_call list \<times> execution" where
  "publishExecution e executionKeys rand =
     (if e_Response e = None \<and> e_SSL e = None \<and> e_Domain e = None then ([], e)
      else case callbackKey executionKeys rand of
             Inl err \<Rightarrow> ([], e)
           | Inr key \<Rightarrow>
               (let e' = setExecutionIdempotencyKey key e
                in (opt_call PostMonitoringResponse (e_Response e') @
                    opt_call PostSSLResult (e_SSL e') @
                    opt_call PostDomainResult (e_Domain e'), e')))"

definition jobResult :: "execution \<Rightarrow> job_result" where
  "jobResult e = \<lparr>jr_Response = e_Response e, jr_SSL = e_SSL e, jr_Domain = e_Domain e\<rparr>"

text \<open>The publisher's choice of a key meets the contract of a key source.\<close>

lemma isUUIDv4_nonempty: "isUUIDv4 k \<Longrightarrow> k \<noteq> []"
  by (auto simp: isUUIDv4_def isUUIDVersion_def split: if_splits)

lemma callbackKey_simps:
  "callbackKey [] rand = newIdempotencyKey rand"
  "isUUIDv4 k \<Longrightarrow> callbackKey (k # ks) rand = Inr k"
  "\<not> isUUIDv4 k \<Longrightarrow> callbackKey (k # ks) rand = newIdempotencyKey rand"
  by (auto simp: callbackKey_def Let_def dest: isUUIDv4_nonempty)

interpretation publisher_keys: callback_keys newIdempotencyKey isUUIDv4 callbackKey
  by unfold_locales (auto simp: callbackKey_simps dest: generated_key_valid)

fun callback_key_of :: "core_call \<Rightarrow> string option" where
  "callback_key_of (PostMonitoringResponse p) = Some (rp_IdempotencyKey p)"
| "callback_key_of (PostSSLResult p) = Some (sp_IdempotencyKey p)"
| "callback_key_of (PostDomainResult p) = Some (dp_IdempotencyKey p)"
| "callback_key_of _ = None"

text \<open>
  C37. Everything published for one execution goes out at most once per result kind, and all
  of it under one and the same valid UUIDv4 key, whatever keys the caller supplied; the posts
  are the execution's payloads with only that key filled in.
\<close>

lemma publish_one_valid_key:
  assumes "publishExecution e keys rand = (calls, e')"
  shows "calls = [] \<and> e' = e \<or>
    (\<exists>key. isUUIDv4 key \<and> e' = setExecutionIdempotencyKey key e \<and>
       map callback_key_of calls = replicate (length calls) (Some key) \<and>
       calls = opt_call PostMonitoringResponse (e_Response e') @ opt_call PostSSLResult (e_SSL e') @
               opt_call PostDomainResult (e_Domain e') \<and>
       (\<forall>k ks. keys = k # ks \<and> isUUIDv4 k \<longrightarrow> key = k))"
proof (cases "e_Response e = None \<and> e_SSL e = None \<and> e_Domain e = None")
  case True
  with assms show ?thesis by (simp add: publishExecution_def)
next
  case False
  show ?thesis
  proof (cases "callbackKey keys rand")
    case (Inl err)
    with False assms show ?thesis by (auto simp: publishExecution_def split: if_splits)
  next
    case (Inr key)
    then have "isUUIDv4 key" by (rule publisher_keys.pick_valid)
    moreover have "\<forall>k ks. keys = k # ks \<and> isUUIDv4 k \<longrightarrow> key = k"
      using Inr by (auto simp: callbackKey_simps)
    moreover have "e' = setExecutionIdempotencyKey key e"
      "calls = opt_call PostMonitoringResponse (e_Response e') @ opt_call PostSSLResult (e_SSL e') @
         opt_call PostDomainResult (e_Domain e')"
      using False Inr assms by (auto simp: publishExecution_def Let_def split: if_splits)
    moreover from this have "map callback_key_of calls = replicate (length calls) (Some key)"
      by (auto simp: setExecutionIdempotencyKey_def opt_call_def split: option.splits)
    ultimately show ?thesis by blast
  qed
qed

lemma publish_one_valid_key_witness:
  "let k = ''00000000-0000-4000-8000-000000000000''; e = responseExecution ''m'' ''up'' None None in
   \<exists>key. isUUIDv4 key \<and> snd (publishExecution e [k] None) = setExecutionIdempotencyKey key e \<and> key = k"
proof -
  let ?k = "''00000000-0000-4000-8000-000000000000''" and ?e = "responseExecution ''m'' ''up'' None None"
  have v: "isUUIDv4 ?k" by code_simp
  have "publishExecution ?e [?k] None =
    ([PostMonitoringResponse (the (e_Response ?e)\<lparr>rp_IdempotencyKey := ?k\<rparr>)], setExecutionIdempotencyKey ?k ?e)"
    by (simp add: publishExecution_def callbackKey_simps v responseExecution_def responseExecutionWithObservation_def
        setExecutionIdempotencyKey_def opt_call_def)
  from publish_one_valid_key [OF this] this v show ?thesis by (auto simp: Let_def)
qed

text \<open>
  A domain check that reached a verdict reports it twice: its result carries a response
  and a domain payload, although the payload type is documented to carry exactly one.
\<close>

lemma domain_result_has_two_payloads:
  assumes "crawl m = (status, payload, True)"
  shows "jr_Response (jobResult (executeDomainExpiration crawl m)) \<noteq> None \<and>
         jr_Domain (jobResult (executeDomainExpiration crawl m)) = Some payload"
  using assms
  by (simp add: jobResult_def executeDomainExpiration_def responseExecution_def responseExecutionWithObservation_def)

lemma domain_result_has_two_payloads_witness:
  "\<forall>p. jr_Domain (jobResult (executeDomainExpiration (\<lambda>_. (''up'', p, True)) zero_monitoring)) = Some p"
proof
  fix p show "jr_Domain (jobResult (executeDomainExpiration (\<lambda>_. (''up'', p, True)) zero_monitoring)) = Some p"
    using domain_result_has_two_payloads [of "\<lambda>_. (''up'', p, True)" zero_monitoring "''up''" p] by simp
qed

end
