(* ===== verification/Pool_Gauges.thy ===== *)
theory Pool_Gauges
  imports Worker_Pool Gateway
begin

text \<open>
  The gauges \<open>jobsQueued\<close> and \<open>jobsActive\<close> while a worker pool runs. Every worker's
  remaining effects either still have to take its job out of the queue (a start or a drop comes
  first), or have to finish it, or do not touch the gauges.
\<close>

definition gauge_ops :: "effect list \<Rightarrow> telemetry_op list" where
  "gauge_ops es = filter moves_gauge (tel_ops es)"

fun counts_queued :: "telemetry_op list \<Rightarrow> nat" where
  "counts_queued (OpStart # xs) = 1"
| "counts_queued (OpDrop p r # xs) = 1"
| "counts_queued _ = 0"

fun counts_active :: "telemetry_op list \<Rightarrow> nat" where
  "counts_active (OpFinish p r d # xs) = 1"
| "counts_active _ = 0"

text \<open>What a job does to the gauges: a drop, or a start and later a finish; or a rest of that.\<close>

fun one_life :: "telemetry_op list \<Rightarrow> bool" where
  "one_life [OpDrop p r] = True"
| "one_life [OpStart, OpFinish p r d] = True"
| "one_life _ = False"

fun part_of_life :: "telemetry_op list \<Rightarrow> bool" where
  "part_of_life [] = True"
| "part_of_life [OpFinish p r d] = True"
| "part_of_life xs = one_life xs"

lemma gauge_ops_simps [simp]:
  "gauge_ops [] = []" "gauge_ops (Core c # es) = gauge_ops es"
  "gauge_ops (TryStart m now v # es) = gauge_ops es"
  "gauge_ops (Tel x # es) = (if moves_gauge x then [x] else []) @ gauge_ops es"
  "gauge_ops (es @ fs) = gauge_ops es @ gauge_ops fs"
  by (simp_all add: gauge_ops_def)

lemma one_life_part: "one_life xs \<Longrightarrow> part_of_life xs \<and> counts_queued xs = 1 \<and> counts_active xs = 0"
  by (induction xs rule: one_life.induct) auto

text \<open>Sends that still have to be counted as queued are negative, those already counted positive.\<close>

fun pending :: "('j, effect) feed list \<Rightarrow> int" where
  "pending [] = 0"
| "pending (Send j # fs) = 1 + pending fs"
| "pending (Emit (Tel OpQueue) # fs) = pending fs - 1"
| "pending (Emit e # fs) = pending fs"

text \<open>A feed never sends a job it has not counted as queued, and moves no gauge otherwise.\<close>

fun feed_ok :: "('j, effect) feed list \<Rightarrow> bool" where
  "feed_ok [] = True"
| "feed_ok (Send j # fs) = feed_ok fs"
| "feed_ok (Emit e # fs) = (feed_ok fs \<and> (gauge_ops [e] = [] \<or> e = Tel OpQueue \<and> 1 \<le> pending fs))"

lemma pending_emit: "e \<noteq> Tel OpQueue \<Longrightarrow> pending (Emit e # fs) = pending fs"
proof (cases e)
  case (Tel x)
  then show "e \<noteq> Tel OpQueue \<Longrightarrow> pending (Emit e # fs) = pending fs" by (cases x) auto
qed simp_all

lemma pending_nonneg: "feed_ok fs \<Longrightarrow> 0 \<le> pending fs"
  by (induction fs rule: pending.induct) auto

lemma pending_length: "pending fs \<le> int (length fs)"
  by (induction fs rule: pending.induct) auto

section \<open>Net effect of a history on a gauge\<close>

text \<open>
  What an operation adds to the number of waiting and of running jobs, and the range in which
  the sum stays over a history. Ranges add up when histories are interleaved, and as long as
  the range fits, the gauges of the telemetry follow the sums.
\<close>

fun d_queued :: "telemetry_op \<Rightarrow> int" where
  "d_queued OpQueue = 1"
| "d_queued OpStart = -1"
| "d_queued (OpDrop phase outcome) = -1"
| "d_queued _ = 0"

fun d_active :: "telemetry_op \<Rightarrow> int" where
  "d_active OpStart = 1"
| "d_active (OpFinish phase outcome d) = -1"
| "d_active _ = 0"

definition net :: "('a \<Rightarrow> int) \<Rightarrow> 'a list \<Rightarrow> int" where
  "net d xs = sum_list (map d xs)"

definition stays :: "('a \<Rightarrow> int) \<Rightarrow> int \<Rightarrow> int \<Rightarrow> 'a list \<Rightarrow> bool" where
  "stays d lo hi xs \<longleftrightarrow> (\<forall>ps. prefix ps xs \<longrightarrow> lo \<le> net d ps \<and> net d ps \<le> hi)"

lemma net_simps [simp]: "net d [] = 0" "net d (x # xs) = d x + net d xs" "net d (xs @ ys) = net d xs + net d ys"
  by (simp_all add: net_def)

lemma stays_Nil [simp]: "stays d lo hi [] \<longleftrightarrow> lo \<le> 0 \<and> 0 \<le> hi"
  by (simp add: stays_def)

lemma stays_0: "stays d lo hi xs \<Longrightarrow> lo \<le> 0 \<and> 0 \<le> hi"
  unfolding stays_def by (drule spec [of _ "[]"]) simp

lemma stays_hd: "stays d lo hi (x # xs) \<Longrightarrow> lo \<le> d x \<and> d x \<le> hi"
  unfolding stays_def by (drule spec [of _ "[x]"]) simp

lemma sum_list_set: "i < length xs \<Longrightarrow> sum_list (xs[i := x]) = sum_list xs - xs ! i + (x :: int)"
  by (induction xs arbitrary: i) (auto simp: nth_Cons' split: nat.splits)

lemma stays_Cons: "stays d lo hi (x # xs) \<longleftrightarrow> lo \<le> 0 \<and> 0 \<le> hi \<and> stays d (lo - d x) (hi - d x) xs"
  proof
  assume s: "stays d lo hi (x # xs)"
  have "lo - d x \<le> net d ps \<and> net d ps \<le> hi - d x" if "prefix ps xs" for ps
    using s that unfolding stays_def by (drule_tac x = "x # ps" in spec) simp
  with stays_0 [OF s] show "lo \<le> 0 \<and> 0 \<le> hi \<and> stays d (lo - d x) (hi - d x) xs" by (simp add: stays_def)
next
  assume "lo \<le> 0 \<and> 0 \<le> hi \<and> stays d (lo - d x) (hi - d x) xs"
  then show "stays d lo hi (x # xs)" by (auto simp: stays_def prefix_Cons algebra_simps)
qed

lemma stays_snoc: "stays d lo hi (xs @ [x]) \<longleftrightarrow> stays d lo hi xs \<and> lo \<le> net d xs + d x \<and> net d xs + d x \<le> hi"
  by (auto simp: stays_def prefix_snoc)

lemma stays_append: "stays d lo hi (xs @ ys) \<longleftrightarrow> stays d lo hi xs \<and> stays d (lo - net d xs) (hi - net d xs) ys"
  by (induction xs arbitrary: lo hi) (auto simp: stays_Cons algebra_simps dest: stays_0)

lemma stays_weaken: "stays d lo hi xs \<Longrightarrow> lo' \<le> lo \<Longrightarrow> hi \<le> hi' \<Longrightarrow> stays d lo' hi' xs"
  by (force simp: stays_def)

lemma net_interleaves: "interleaves xss ys \<Longrightarrow> net d ys = (\<Sum>xs\<leftarrow>xss. net d xs)"
proof (induction rule: interleaves.induct)
  case (stop xss)
  then show ?case by (induction xss) auto
next
  case (pick i xss x xs ys)
  have "(\<Sum>zs\<leftarrow>xss[i := xs]. net d zs) = (\<Sum>zs\<leftarrow>xss. net d zs) - d x"
    using pick.hyps(1,2) by (simp add: map_update sum_list_set)
  with pick.IH show ?case by simp
qed

lemma stays_interleaves:
  assumes "interleaves xss ys" "length los = length xss" "length his = length xss"
    "\<And>i. i < length xss \<Longrightarrow> stays d (los ! i) (his ! i) (xss ! i)"
  shows "stays d (sum_list los) (sum_list his) ys"
  using assms
proof (induction arbitrary: los his rule: interleaves.induct)
  case (stop xss)
  have "los ! i \<le> 0 \<and> 0 \<le> his ! i" if "i < length xss" for i
    using stays_0 [OF stop.prems(3) [OF that]] .
  then have "\<forall>l \<in> set los. l \<le> 0" "\<forall>h \<in> set his. 0 \<le> h"
    using stop.prems(1,2) by (auto simp: in_set_conv_nth)
  then show ?case by (simp add: sum_list_nonneg sum_list_nonpos)
next
  case (pick i xss x xs ys)
  have i: "stays d (los ! i - d x) (his ! i - d x) xs"
    using pick.prems(3) [OF pick.hyps(1)] pick.hyps(2) by (simp add: stays_Cons)
  have "stays d (sum_list (los[i := los ! i - d x])) (sum_list (his[i := his ! i - d x])) ys"
  proof (rule pick.IH)
    fix j assume "j < length (xss[i := xs])"
    then show "stays d (los[i := los ! i - d x] ! j) (his[i := his ! i - d x] ! j) (xss[i := xs] ! j)"
      using i pick.prems by (cases "j = i") auto
  qed (use pick.prems in auto)
  moreover have "los ! k \<le> 0 \<and> 0 \<le> his ! k" if "k < length xss" for k
    using stays_0 [OF pick.prems(3) [OF that]] .
  then have "\<forall>l \<in> set los. l \<le> 0" "\<forall>h \<in> set his. 0 \<le> h"
    using pick.prems(1,2) by (auto simp: in_set_conv_nth)
  ultimately show ?case
    using pick.prems(1,2) pick.hyps(1) by (simp add: stays_Cons sum_list_set sum_list_nonneg sum_list_nonpos)
qed

lemma gauges_follow:
  assumes "stays d_queued lo hi ops" "stays d_active lo' hi' ops"
    "0 \<le> t_jobsQueued t + lo" "t_jobsQueued t + hi < 2 ^ 63" "0 \<le> t_jobsActive t + lo'" "t_jobsActive t + hi' < 2 ^ 63"
  shows "t_jobsQueued (apply_ops ops t) = t_jobsQueued t + net d_queued ops \<and>
         t_jobsActive (apply_ops ops t) = t_jobsActive t + net d_active ops"
  using assms
proof (induction ops arbitrary: t lo hi lo' hi')
  case (Cons x ops)
  have fits: "0 \<le> t_jobsQueued t + d_queued x" "t_jobsQueued t + d_queued x < 2 ^ 63"
    "0 \<le> t_jobsActive t + d_active x" "t_jobsActive t + d_active x < 2 ^ 63"
    using Cons.prems(3-6) stays_hd [OF Cons.prems(1)] stays_hd [OF Cons.prems(2)] by linarith+
  have step: "t_jobsQueued (apply_op x t) = t_jobsQueued t + d_queued x \<and>
      t_jobsActive (apply_op x t) = t_jobsActive t + d_active x"
    using fits Cons.prems by (cases x) (auto simp: telemetry_op_defs dec_gauge_def wrap64_id int64_range_def counter_simps stays_Cons)
  from Cons.IH [of "lo - d_queued x" "hi - d_queued x" "lo' - d_active x" "hi' - d_active x" "apply_op x t"] Cons.prems step
  show ?case by (simp add: stays_Cons)
qed simp

definition total :: "(telemetry_op list \<Rightarrow> nat) \<Rightarrow> effect worker list \<Rightarrow> int" where
  "total f ws = int (sum_list (map (\<lambda>w. f (gauge_ops (rest w))) ws))"

lemma total_update:
  "i < length ws \<Longrightarrow>
   total f (ws[i := w]) = total f ws - int (f (gauge_ops (rest (ws ! i)))) + int (f (gauge_ops (rest w)))"
  by (induction ws arbitrary: i) (auto simp: total_def nth_Cons' split: nat.splits)

lemma counts_le: "counts_queued xs \<le> 1" "counts_active xs \<le> 1"
  by (cases xs rule: counts_queued.cases; simp) (cases xs rule: counts_active.cases; simp)

lemma total_bound: "(\<And>xs. f xs \<le> 1) \<Longrightarrow> total f ws \<le> int (length ws)"
proof -
  assume f: "\<And>xs. f xs \<le> 1"
  have "sum_list (map (\<lambda>w. f (gauge_ops (rest w))) ws) \<le> length ws" for ws
  proof (induction ws)
    case (Cons w ws)
    then show ?case using f [of "gauge_ops (rest w)"] by simp
  qed simp
  then show ?thesis by (simp add: total_def)
qed

lemma total_nonneg: "0 \<le> total f ws"
  by (simp add: total_def)

lemma elem_le_sum_list_nat: "(x :: nat) \<in> set xs \<Longrightarrow> x \<le> sum_list xs"
  by (induction xs) auto

section \<open>Net effect of a pool\<close>

definition gauge_inv :: "int \<Rightarrow> int \<Rightarrow> int \<Rightarrow> ('j, effect) pool \<Rightarrow> bool" where
  "gauge_inv fed room n s \<longleftrightarrow>
     feed_ok (p_feed s) \<and> (\<forall>w \<in> set (p_workers s). part_of_life (gauge_ops (rest w))) \<and>
     int (length (p_feed s)) \<le> room \<and> int (length (p_workers s)) = n \<and>
     fed + net d_queued (tel_ops (p_trace s)) = pending (p_feed s) + total counts_queued (p_workers s) \<and>
     net d_active (tel_ops (p_trace s)) = total counts_active (p_workers s) \<and>
     stays d_queued (- fed) (room + n - fed) (tel_ops (p_trace s)) \<and> stays d_active 0 n (tel_ops (p_trace s))"

lemma total_le: "total counts_queued ws \<le> int (length ws)" "total counts_active ws \<le> int (length ws)"
  using total_bound counts_le by blast+

text \<open>A step that keeps the sums keeps the ranges: the sums are counts of jobs.\<close>

lemma gauge_invI:
  assumes "gauge_inv fed room n s" "feed_ok (p_feed s')" "\<forall>w \<in> set (p_workers s'). part_of_life (gauge_ops (rest w))"
    "length (p_feed s') \<le> length (p_feed s)" "length (p_workers s') = length (p_workers s)"
    "p_trace s' = p_trace s \<or> (\<exists>e. p_trace s' = p_trace s @ [e])"
    "fed + net d_queued (tel_ops (p_trace s')) = pending (p_feed s') + total counts_queued (p_workers s')"
    "net d_active (tel_ops (p_trace s')) = total counts_active (p_workers s')"
  shows "gauge_inv fed room n s'"
proof -
  have b: "0 \<le> fed + net d_queued (tel_ops (p_trace s'))" "fed + net d_queued (tel_ops (p_trace s')) \<le> room + n"
    "0 \<le> net d_active (tel_ops (p_trace s'))" "net d_active (tel_ops (p_trace s')) \<le> n"
    using assms(1,4,5,7,8) pending_nonneg [OF assms(2)] pending_length [of "p_feed s'"] total_nonneg
      total_le [of "p_workers s'"]
    unfolding gauge_inv_def by (simp; linarith)+
  have "stays d_queued (- fed) (room + n - fed) (tel_ops (p_trace s')) \<and> stays d_active 0 n (tel_ops (p_trace s'))"
    using assms(6)
  proof
    assume "\<exists>e. p_trace s' = p_trace s @ [e]"
    then obtain e where e: "p_trace s' = p_trace s @ [e]" by blast
    show ?thesis using assms(1) b e by (cases e) (auto simp: gauge_inv_def stays_snoc)
  qed (use assms(1) in \<open>simp add: gauge_inv_def\<close>)
  with assms show ?thesis by (auto simp: gauge_inv_def)
qed

lemma net_gauge: "\<not> moves_gauge x \<Longrightarrow> d_queued x = 0 \<and> d_active x = 0"
  by (cases x) auto

text \<open>One effect of a job, seen from the job's own share.\<close>

lemma one_effect:
  assumes "part_of_life (gauge_ops (e # es))"
  shows "part_of_life (gauge_ops es) \<and>
         int (counts_queued (gauge_ops es)) = int (counts_queued (gauge_ops (e # es))) + net d_queued (tel_ops [e]) \<and>
         int (counts_active (gauge_ops es)) = int (counts_active (gauge_ops (e # es))) + net d_active (tel_ops [e])"
proof (cases e)
  case (Tel x)
  show ?thesis
  proof (cases "moves_gauge x")
    case False
    then show ?thesis using assms Tel net_gauge [OF False] by simp
  next
    case True
    with assms Tel have life: "part_of_life (x # gauge_ops es)" by simp
    from True show ?thesis
    proof (cases x)
      case OpStart
      then show ?thesis using life Tel by (cases "gauge_ops es" rule: one_life.cases) (auto elim: one_life.elims)
    next
      case (OpFinish p r d)
      then have "gauge_ops es = []" using life by (cases "gauge_ops es") auto
      then show ?thesis using Tel OpFinish by simp
    next
      case (OpDrop p r)
      then have "gauge_ops es = []" using life by (cases "gauge_ops es") auto
      then show ?thesis using Tel OpDrop by simp
    qed (use life in auto)
  qed
qed (use assms in simp_all)

lemma gauge_inv_step:
  assumes "pool_step body s s'" "gauge_inv fed room n s" "\<And>j es. body j es \<Longrightarrow> one_life (gauge_ops es)"
  shows "gauge_inv fed room n s'"
  using assms(1)
proof (cases rule: pool_step.cases)
  case (emit e fs)
  have "pending fs = pending (p_feed s) + net d_queued (tel_ops [e]) \<and> net d_active (tel_ops [e]) = 0 \<and> feed_ok fs"
  proof (cases "e = Tel OpQueue")
    case True
    with assms(2) emit(2) show ?thesis by (simp add: gauge_inv_def)
  next
    case False
    have "gauge_ops [e] = []" using assms(2) emit False by (auto simp: gauge_inv_def)
    then have "net d_queued (tel_ops [e]) = 0 \<and> net d_active (tel_ops [e]) = 0"
      using net_gauge by (cases e) (auto split: if_splits)
    with assms(2) emit(2) False show ?thesis by (auto simp: gauge_inv_def pending_emit)
  qed
  with assms(2) emit show ?thesis by (intro gauge_invI [OF assms(2)]) (auto simp: gauge_inv_def)
next
  case (hand j fs i es)
  from one_life_part [OF assms(3) [OF hand(5)]] hand assms(2) show ?thesis
    using total_update [OF hand(3), of _ "Working es"]
    by (intro gauge_invI [OF assms(2)]) (auto simp: gauge_inv_def dest!: set_update_subset_insert [THEN subsetD])
next
  case (work i e es)
  have wi: "Working (e # es) \<in> set (p_workers s)" using work nth_mem by fastforce
  then have "part_of_life (gauge_ops (e # es))" using assms(2) unfolding gauge_inv_def by (metis rest.simps(1))
  note one = one_effect [OF this]
  have upd: "total f ((p_workers s)[i := Working es]) =
      total f (p_workers s) - int (f (gauge_ops (e # es))) + int (f (gauge_ops es))" for f
    using total_update [OF work(2), of f "Working es"] work(3) by simp
  show ?thesis
    by (rule gauge_invI [OF assms(2)])
       (use one upd assms(2) work in \<open>auto simp: gauge_inv_def dest!: set_update_subset_insert [THEN subsetD]\<close>)
next
  case (again i)
  with assms(2) total_update [OF again(2), of _ Waiting] show ?thesis
    by (intro gauge_invI [OF assms(2)]) (auto simp: gauge_inv_def dest!: set_update_subset_insert [THEN subsetD])
next
  case close
  with assms(2) show ?thesis by (intro gauge_invI [OF assms(2)]) (auto simp: gauge_inv_def)
next
  case (exit i)
  with assms(2) total_update [OF exit(3), of _ Exited] show ?thesis
    by (intro gauge_invI [OF assms(2)]) (auto simp: gauge_inv_def dest!: set_update_subset_insert [THEN subsetD])
qed

lemma gauge_inv_run:
  assumes "pool_run body s s'" "gauge_inv fed room n s" "\<And>j es. body j es \<Longrightarrow> one_life (gauge_ops es)"
  shows "gauge_inv fed room n s'"
  using assms by (induction rule: rtranclp_induct) (auto intro: gauge_inv_step)

lemma total_idle: "\<forall>w \<in> set ws. rest w = [] \<Longrightarrow> f [] = 0 \<Longrightarrow> total f ws = 0"
  by (induction ws) (auto simp: total_def)

lemma rest_Exited: "w = Exited \<Longrightarrow> rest w = []"
  by simp

text \<open>
  The history of a finished pool takes out of the queue what was put there before the pool,
  leaves nobody running, and never takes out or finishes more than there is.
\<close>

lemma pool_net:
  assumes "pool_run body (new_pool n fs) s" "pool_done s" "feed_ok fs" "\<And>j es. body j es \<Longrightarrow> one_life (gauge_ops es)"
  shows "net d_queued (tel_ops (p_trace s)) = - pending fs \<and> net d_active (tel_ops (p_trace s)) = 0 \<and>
    stays d_queued (- pending fs) (int (length fs) + int n - pending fs) (tel_ops (p_trace s)) \<and>
    stays d_active 0 (int n) (tel_ops (p_trace s))"
proof -
  have "gauge_inv (pending fs) (int (length fs)) (int n) (new_pool n fs)"
    using assms(3) pending_nonneg pending_length [of fs]
    by (simp add: gauge_inv_def new_pool_def total_idle pending_nonneg)
  from gauge_inv_run [OF assms(1) this assms(4)]
  have inv: "gauge_inv (pending fs) (int (length fs)) (int n) s" .
  have "p_feed s = []"
    using pool_run_closed [OF assms(1)] assms(2) by (simp add: new_pool_def pool_done_def)
  moreover have "total f (p_workers s) = 0" if "f [] = 0" for f
    using assms(2) that by (intro total_idle) (auto simp: pool_done_def)
  ultimately show ?thesis
    using inv unfolding gauge_inv_def by auto
qed

section \<open>Histories that leave the gauges as they were\<close>

definition of_effect :: "(telemetry_op \<Rightarrow> int) \<Rightarrow> effect \<Rightarrow> int" where
  "of_effect d e = (case e of Tel x \<Rightarrow> d x | _ \<Rightarrow> 0)"

definition quiet :: "int \<Rightarrow> effect list \<Rightarrow> bool" where
  "quiet b es \<longleftrightarrow>
     (\<forall>d \<in> {d_queued, d_active}. net (of_effect d) es = 0 \<and> stays (of_effect d) 0 b es)"

lemma net_effects: "net (of_effect d) es = net d (tel_ops es)"
proof (induction es)
  case (Cons e es)
  then show ?case by (cases e) (simp_all add: of_effect_def)
qed simp

lemma stays_effects: "stays (of_effect d) lo hi es \<longleftrightarrow> stays d lo hi (tel_ops es)"
proof (induction es arbitrary: lo hi)
  case (Cons e es)
  then show ?case by (cases e) (auto simp: of_effect_def stays_Cons dest: stays_0)
qed simp

lemma stays_filter: "\<forall>x. \<not> P x \<longrightarrow> d x = 0 \<Longrightarrow> stays d lo hi (filter P xs) \<longleftrightarrow> stays d lo hi xs"
  by (induction xs arbitrary: lo hi) (auto simp: stays_Cons dest: stays_0)

lemma net_filter: "\<forall>x. \<not> P x \<longrightarrow> d x = 0 \<Longrightarrow> net d (filter P xs) = net d xs"
  by (induction xs) auto

lemma gauge_ops_net:
  assumes "d \<in> {d_queued, d_active}"
  shows "net d (tel_ops es) = net d (gauge_ops es)" "stays d lo hi (tel_ops es) = stays d lo hi (gauge_ops es)"
proof -
  have "\<forall>x. \<not> moves_gauge x \<longrightarrow> d x = 0" using assms net_gauge by blast
  then show "net d (tel_ops es) = net d (gauge_ops es)" "stays d lo hi (tel_ops es) = stays d lo hi (gauge_ops es)"
    by (simp_all add: gauge_ops_def net_filter stays_filter)
qed

lemma quiet_weaken: "quiet b es \<Longrightarrow> b \<le> b' \<Longrightarrow> quiet b' es"
  by (auto simp: quiet_def elim: stays_weaken)

lemma quiet_nonneg: "quiet b es \<Longrightarrow> 0 \<le> b"
  by (auto simp: quiet_def dest: stays_0)

lemma quiet_still: "gauge_ops es = [] \<Longrightarrow> 0 \<le> b \<Longrightarrow> quiet b es"
  using gauge_ops_net(1) [where es = es] gauge_ops_net(2) [where es = es]
  by (simp add: quiet_def net_effects stays_effects)

lemma quiet_interleaves:
  assumes "interleaves xss ys" "list_all2 quiet bs xss"
  shows "quiet (sum_list bs) ys"
proof -
  have "net d ys = 0 \<and> stays d 0 (sum_list bs) ys"
    if q: "\<And>b xs. quiet b xs \<Longrightarrow> net d xs = 0 \<and> stays d 0 b xs" for d
  proof -
    have each: "quiet (bs ! i) (xss ! i)" if "i < length xss" for i
      using assms(2) that by (simp add: list_all2_conv_all_nth)
    have "\<forall>xs \<in> set xss. net d xs = 0"
    proof
      fix xs assume "xs \<in> set xss"
      then obtain i where "i < length xss" "xs = xss ! i" by (auto simp: in_set_conv_nth)
      with q each show "net d xs = 0" by blast
    qed
    then have "(\<Sum>xs\<leftarrow>xss. net d xs) = (\<Sum>xs\<leftarrow>xss. 0)" by (intro arg_cong [of _ _ sum_list] map_cong) auto
    moreover have "stays d (sum_list (replicate (length xss) 0)) (sum_list bs) ys"
      using assms q each by (intro stays_interleaves [OF assms(1)]) (auto simp: list_all2_lengthD)
    ultimately show ?thesis using net_interleaves [OF assms(1), of d] by (simp add: sum_list_replicate)
  qed
  then show ?thesis unfolding quiet_def by (meson quiet_def)
qed

lemma quiet_gauges:
  assumes "quiet b es" "0 \<le> t_jobsQueued t" "0 \<le> t_jobsActive t"
    "t_jobsQueued t + b < 2 ^ 63" "t_jobsActive t + b < 2 ^ 63"
  shows "t_jobsQueued (apply_ops (tel_ops es) t) = t_jobsQueued t \<and> t_jobsActive (apply_ops (tel_ops es) t) = t_jobsActive t"
  using gauges_follow [of 0 b "tel_ops es" 0 b t] assms
  by (simp add: quiet_def net_effects stays_effects)

text \<open>A batch: effects that queue as many jobs as the pool is fed beyond those it queues itself.\<close>

lemma pool_quiet:
  assumes "pool_run body (new_pool n fs) s" "pool_done s" "feed_ok fs" "\<And>j es. body j es \<Longrightarrow> one_life (gauge_ops es)"
    "gauge_ops es = replicate (nat (pending fs)) OpQueue"
  shows "quiet (int (length fs) + int n) (es @ p_trace s)"
proof -
  have p: "int (nat (pending fs)) = pending fs" using pending_nonneg [OF assms(3)] by simp
  have q: "net d_queued (replicate k OpQueue) = int k" "net d_active (replicate k OpQueue) = 0"
    "int k \<le> hi \<Longrightarrow> stays d_queued 0 hi (replicate k OpQueue)" "0 \<le> hi \<Longrightarrow> stays d_active 0 hi (replicate k OpQueue)"
    for k hi
  proof -
    have "lo \<le> 0 \<Longrightarrow> int k \<le> hi \<Longrightarrow> stays d_queued lo hi (replicate k OpQueue)"
      "lo \<le> 0 \<Longrightarrow> 0 \<le> hi \<Longrightarrow> stays d_active lo hi (replicate k OpQueue)" for lo
      by (induction k arbitrary: lo hi) (auto simp: stays_Cons)
    then show "int k \<le> hi \<Longrightarrow> stays d_queued 0 hi (replicate k OpQueue)" "0 \<le> hi \<Longrightarrow> stays d_active 0 hi (replicate k OpQueue)"
      by simp_all
    show "net d_queued (replicate k OpQueue) = int k" "net d_active (replicate k OpQueue) = 0"
      by (induction k) simp_all
  qed
  have pool: "net d_queued (tel_ops (p_trace s)) = - pending fs \<and> net d_active (tel_ops (p_trace s)) = 0 \<and>
    stays d_queued (- pending fs) (int (length fs) + int n - pending fs) (tel_ops (p_trace s)) \<and>
    stays d_active 0 (int n) (tel_ops (p_trace s))"
    by (rule pool_net [OF assms(1-4)])
  have room: "pending fs \<le> int (length fs)" by (rule pending_length)
  have "stays d_queued (0 - pending fs) (int (length fs) + int n - pending fs) (tel_ops (p_trace s))"
    "stays d_active 0 (int (length fs) + int n) (tel_ops (p_trace s))"
    using pool by (auto elim: stays_weaken)
  with pool room p show ?thesis
    by (simp add: quiet_def net_effects stays_effects stays_append gauge_ops_net assms(5) q)
qed

end
