(* ===== verification/Runner_Config.thy ===== *)
theory Runner_Config
  imports Go_Strconv Go_Prelude
begin

text \<open>
  \<open>internal/config/config.go\<close>: the configuration read from the environment, its bounds, and
  the readiness test.

  The environment is a function from variable names to values, empty for an unset variable, as
  \<open>os.Getenv\<close> has it. A file is its content, \<open>None\<close> when it cannot be read.
\<close>

section \<open>Configuration\<close>

record config =
  cfg_WebGuardCoreAPIKey :: string
  cfg_WebGuardCoreAPIKeyFile :: string
  cfg_WebGuardCoreAPIURL :: string
  cfg_WebGuardInstanceAPIBasePath :: string
  cfg_WebGuardLocation :: string
  cfg_WebGuardInstanceID :: string
  cfg_QueueDefaultWorkers :: int
  cfg_RunMaxConcurrency :: int
  cfg_JobLeasesEnabled :: bool
  cfg_JobLeasesDualWrite :: bool
  cfg_JobLeaseMaxBatch :: int
  cfg_AllowPrivateTargets :: bool
  cfg_ShutdownDrainTimeout :: duration
  cfg_Address :: string

definition maxQueueWorkers :: int where "maxQueueWorkers = 64"
definition maxRunConcurrency :: int where "maxRunConcurrency = 64"
definition maxJobLeaseBatch :: int where "maxJobLeaseBatch = 256"
definition maxAPIKeyFileBytes :: nat where "maxAPIKeyFileBytes = 8192"

type_synonym environment = "string \<Rightarrow> string"

definition env :: "environment \<Rightarrow> string \<Rightarrow> string \<Rightarrow> string" where
  "env getenv key fallback = (if getenv key = [] then fallback else getenv key)"

definition envInt :: "environment \<Rightarrow> string \<Rightarrow> int \<Rightarrow> int" where
  "envInt getenv key fallback =
     (if getenv key = [] then fallback
      else case parse_int64 (getenv key) of None \<Rightarrow> fallback | Some v \<Rightarrow> v)"

definition envBool :: "environment \<Rightarrow> string \<Rightarrow> bool \<Rightarrow> bool" where
  "envBool getenv key fallback =
     (let raw = trim_space (to_lower (getenv key))
      in if raw = [] then fallback
         else if raw \<in> {''1'', ''true'', ''yes'', ''on''} then True
         else if raw \<in> {''0'', ''false'', ''no'', ''off''} then False
         else fallback)"

definition clamp :: "int \<Rightarrow> int \<Rightarrow> int \<Rightarrow> int" where
  "clamp v minimum maximum = min maximum (max minimum v)"

definition FromEnv :: "environment \<Rightarrow> config" where
  "FromEnv getenv =
     (let port = env getenv ''PORT'' ''8080'';
          drainTimeoutSeconds = max 1 (envInt getenv ''SHUTDOWN_DRAIN_TIMEOUT_SECONDS'' 10);
          queueWorkers = clamp (envInt getenv ''QUEUE_DEFAULT_WORKERS'' 3) 1 maxQueueWorkers;
          runConcurrency = clamp (envInt getenv ''RUN_MAX_CONCURRENCY'' queueWorkers) 1 maxRunConcurrency
      in \<lparr>cfg_WebGuardCoreAPIKey = env getenv ''WEBGUARD_CORE_API_KEY'' [],
          cfg_WebGuardCoreAPIKeyFile = env getenv ''WEBGUARD_CORE_API_KEY_FILE'' [],
          cfg_WebGuardCoreAPIURL = env getenv ''WEBGUARD_CORE_API_URL'' [],
          cfg_WebGuardInstanceAPIBasePath = env getenv ''WEBGUARD_INSTANCE_API_BASE_PATH'' ''/api/instances'',
          cfg_WebGuardLocation = env getenv ''WEBGUARD_LOCATION'' [],
          cfg_WebGuardInstanceID = env getenv ''WEBGUARD_INSTANCE_ID'' [],
          cfg_QueueDefaultWorkers = queueWorkers,
          cfg_RunMaxConcurrency = runConcurrency,
          cfg_JobLeasesEnabled = envBool getenv ''WEBGUARD_JOB_LEASES_ENABLED'' False,
          cfg_JobLeasesDualWrite = envBool getenv ''WEBGUARD_JOB_LEASES_DUAL_WRITE'' False,
          cfg_JobLeaseMaxBatch = clamp (envInt getenv ''WEBGUARD_JOB_LEASE_MAX_BATCH'' queueWorkers) 1 maxJobLeaseBatch,
          cfg_AllowPrivateTargets = envBool getenv ''WEBGUARD_ALLOW_PRIVATE_TARGETS'' False,
          cfg_ShutdownDrainTimeout = seconds drainTimeoutSeconds,
          cfg_Address = env getenv ''BIND_ADDRESS'' ('':'' @ port)\<rparr>)"

definition isSupportedInstanceAPIBasePath :: "string \<Rightarrow> bool" where
  "isSupportedInstanceAPIBasePath path \<longleftrightarrow> ''/'' @ trim_byte CHR ''/'' (trim_space path) = ''/api/instances''"

definition IsReady :: "(string \<Rightarrow> string option) \<Rightarrow> config \<Rightarrow> bool" where
  "IsReady read_file c =
     (if trim_space (cfg_WebGuardCoreAPIKey c) = [] \<and> trim_space (cfg_WebGuardCoreAPIKeyFile c) = [] then False
      else let keyFile = trim_space (cfg_WebGuardCoreAPIKeyFile c)
           in if keyFile \<noteq> [] \<and>
                 (case read_file keyFile of
                    None \<Rightarrow> True
                  | Some content \<Rightarrow>
                      (let content = take (maxAPIKeyFileBytes + 1) content
                       in length content > maxAPIKeyFileBytes \<or> trim_space content = []))
              then False
              else if trim_space (cfg_WebGuardCoreAPIURL c) = [] \<or> trim_space (cfg_WebGuardLocation c) = [] then False
              else if \<not> isSupportedInstanceAPIBasePath (cfg_WebGuardInstanceAPIBasePath c) then False
              else \<not> cfg_JobLeasesEnabled c \<or> trim_space (cfg_WebGuardInstanceID c) \<noteq> [])"

section \<open>Bounds\<close>

lemma clamp_bounds: "minimum \<le> maximum \<Longrightarrow> minimum \<le> clamp v minimum maximum \<and> clamp v minimum maximum \<le> maximum"
  by (simp add: clamp_def)

lemma envInt_range: "int64_range fallback \<Longrightarrow> int64_range (envInt getenv key fallback)"
  by (auto simp: envInt_def dest: parse_int64_range split: option.split)

text \<open>
  C34. Whatever the environment holds, the configured workers, concurrency and batch size are
  within their documented limits, private targets stay off unless switched on explicitly, and the drain timeout is at least one second for every configured number of
  seconds that a duration can hold.
\<close>

lemma config_within_limits:
  "let c = FromEnv getenv; s = envInt getenv ''SHUTDOWN_DRAIN_TIMEOUT_SECONDS'' 10 in
     1 \<le> cfg_QueueDefaultWorkers c \<and> cfg_QueueDefaultWorkers c \<le> 64 \<and>
     1 \<le> cfg_RunMaxConcurrency c \<and> cfg_RunMaxConcurrency c \<le> 64 \<and>
     1 \<le> cfg_JobLeaseMaxBatch c \<and> cfg_JobLeaseMaxBatch c \<le> 256 \<and>
     (cfg_AllowPrivateTargets c \<longleftrightarrow>
        trim_space (to_lower (getenv ''WEBGUARD_ALLOW_PRIVATE_TARGETS'')) \<in> {''1'', ''true'', ''yes'', ''on''}) \<and>
     (s \<le> 9223372036 \<longrightarrow> cfg_ShutdownDrainTimeout c = max 1 s * go_second)"
  using clamp_bounds [of 1 64] clamp_bounds [of 1 256] seconds_exact
  by (simp add: FromEnv_def Let_def maxQueueWorkers_def maxRunConcurrency_def maxJobLeaseBatch_def envBool_def go_second_def)

lemma config_within_limits_witness:
  "let getenv = (\<lambda>k. if k = ''SHUTDOWN_DRAIN_TIMEOUT_SECONDS'' then ''-5'' else if k = ''QUEUE_DEFAULT_WORKERS'' then ''900'' else [])
   in cfg_ShutdownDrainTimeout (FromEnv getenv) = go_second \<and> cfg_QueueDefaultWorkers (FromEnv getenv) \<le> 64"
proof -
  let ?getenv = "\<lambda>k. if k = ''SHUTDOWN_DRAIN_TIMEOUT_SECONDS'' then ''-5'' else if k = ''QUEUE_DEFAULT_WORKERS'' then ''900'' else []"
  have "envInt ?getenv ''SHUTDOWN_DRAIN_TIMEOUT_SECONDS'' 10 = - 5"
    by (simp add: envInt_def parse_int64_def parse_uint_def digit_val_def)
  with config_within_limits [of ?getenv] show ?thesis by (simp add: Let_def)
qed

text \<open>
  The drain timeout has no upper bound in the code: a larger number of seconds overflows,
  and the drain deadline has then passed before draining starts.
\<close>

lemma drain_timeout_overflows:
  "cfg_ShutdownDrainTimeout (FromEnv (\<lambda>k. if k = ''SHUTDOWN_DRAIN_TIMEOUT_SECONDS'' then ''9223372037'' else [])) < 0"
  by (simp add: FromEnv_def Let_def envInt_def parse_int64_def parse_uint_def digit_val_def seconds_def wrap64_def go_second_def)

end
