(* ===== verification/Job_Leases.thy ===== *)
theory Job_Leases
  imports Pool_Gauges Runner_Config
begin

text \<open>
  \<open>internal/adapters/runner/job_leases.go\<close>: claiming a batch of leased jobs, running one
  of them, renewing its lease while it runs, and settling it with Core (complete or release).

  A function returns the effects it has in program order. What the environment decides (clock
  readings, answers of Core, the cancellation of the run, the execution slot) is an input.
  The renewal goroutine runs beside the execution; it only appends to the telemetry and calls
  \<open>Extend\<close>, and \<open>stop\<close> waits for its end, so its effects are placed where it is
  joined.
\<close>

section \<open>Configuration and constants\<close>

definition leaseRenewalRequestTimeout :: duration where
  "leaseRenewalRequestTimeout = 5 * go_second"

definition workerLimit :: "config \<Rightarrow> int" where
  "workerLimit cfg =
     (let workers = max 1 (cfg_QueueDefaultWorkers cfg)
      in if cfg_RunMaxConcurrency cfg > 0 then min workers (cfg_RunMaxConcurrency cfg) else workers)"

definition leaseCapabilities :: "string list" where
  "leaseCapabilities = [PhaseResponse, PhaseSSL, PhaseDomainExpiration]"

definition isLeasePhase :: "phase \<Rightarrow> bool" where
  "isLeasePhase p \<longleftrightarrow> p = PhaseResponse \<or> p = PhaseSSL \<or> p = PhaseDomainExpiration"

definition leaseMetricPhase :: "phase \<Rightarrow> string" where
  "leaseMetricPhase p =
     (let t = trim_space p
      in if t = PhaseResponse then PhaseResponse
         else if t = PhaseSSL then PhaseSSL
         else if t = PhaseDomainExpiration then PhaseDomainExpiration
         else ''unknown'')"

section \<open>Validation\<close>

definition validateClaimedJob :: "claimed_job \<Rightarrow> string" where
  "validateClaimedJob job =
     (if trim_space (j_ID job) = [] then ''job ID is empty''
      else if trim_space (m_ID (j_Monitoring job)) = [] then ''monitoring ID is empty''
      else if time_is_zero (j_LeaseExpiresAt job) then ''lease expiration is missing''
      else if j_Attempt job < 1 then ''job attempt must be positive''
      else if \<not> isUUIDv4 (trim_space (j_IdempotencyKey job)) then ''job idempotency key is invalid''
      else if trim_space (m_Target (j_Monitoring job)) = [] then ''monitoring target is empty''
      else if m_Timeout (j_Monitoring job) < 0 then ''monitoring timeout must not be negative''
      else if m_Type (j_Monitoring job) = TypePort \<and>
              (m_Port (j_Monitoring job) < 1 \<or> m_Port (j_Monitoring job) > 65535)
      then ''monitoring port is invalid''
      else if m_Type (j_Monitoring job) = TypeDNSRecord \<and>
              (trim_space (m_DNSRecordType (j_Monitoring job)) = [] \<or> m_DNSExpectedValues (j_Monitoring job) = [])
      then ''DNS monitoring configuration is incomplete''
      else [])"

section \<open>Settling a job\<close>

text \<open>\<open>answer\<close> tells which calls of the gateway succeed.\<close>

definition releaseClaimedJob :: "(core_call \<Rightarrow> bool) \<Rightarrow> claimed_job \<Rightarrow> string \<Rightarrow> effect list \<times> bool" where
  "releaseClaimedJob answer job reason =
     (if trim_space (j_ID job) = [] then ([], False)
      else let call = ReleaseMonitoringJob (j_ID job) (j_Attempt job) reason
           in if answer call then ([Core call, Tel (OpLease ''released'')], True) else ([Core call], False))"

definition completeClaimedJob ::
    "config \<Rightarrow> (core_call \<Rightarrow> bool) \<Rightarrow> claimed_job \<Rightarrow> execution \<Rightarrow> effect list \<times> bool" where
  "completeClaimedJob cfg answer job e =
     (let idempotencyKey = trim_space (j_IdempotencyKey job)
      in if \<not> isUUIDv4 idempotencyKey then ([], False)
         else let e1 = setExecutionIdempotencyKey idempotencyKey e;
                  (posts, e2) = (if cfg_JobLeasesDualWrite cfg then publishExecution e1 [idempotencyKey] None else ([], e1));
                  call = CompleteMonitoringJob (j_ID job) idempotencyKey (j_Attempt job) (jobResult e2)
              in if answer call then (map Core posts @ [Core call, Tel (OpLease ''completed'')], True)
                 else (map Core posts @ [Core call], False))"

section \<open>Lease renewal\<close>

text \<open>
  One turn of the renewal loop: the clock when the remaining time is computed, whether the
  job context is done before the timer fires, the answer of \<open>Extend\<close> (\<open>None\<close> for an
  error), whether the job context is done after it, and the clock then.
\<close>

record renewal_turn =
  rt_now :: instant
  rt_done :: bool
  rt_extended :: "instant option"
  rt_ctx_err :: bool
  rt_now_after :: instant

definition renewalRequestTimeout :: "duration \<Rightarrow> duration" where
  "renewalRequestTimeout remaining = min (remaining div 2) leaseRenewalRequestTimeout"

text \<open>
  The goroutine: the effects it had, whether the lease was lost and the last known expiry;
  \<open>None\<close> when it is still in its loop after all the given turns.
\<close>

fun renewal_loop :: "claimed_job \<Rightarrow> instant \<Rightarrow> renewal_turn list \<Rightarrow> (effect list \<times> bool \<times> instant) option" where
  "renewal_loop job expiresAt [] = None"
| "renewal_loop job expiresAt (turn # turns) =
     (let remaining = time_sub expiresAt (rt_now turn)
      in if remaining \<le> 0 then Some ([Tel (OpLease ''expired'')], True, expiresAt)
         else if rt_done turn then Some ([], False, expiresAt)
         else if renewalRequestTimeout remaining \<le> 0
         then Some ([Tel (OpLease ''renewal_failed'')], True, expiresAt)
         else let call = Core (ExtendMonitoringJob (j_ID job) (j_Attempt job))
              in if rt_ctx_err turn then Some ([call], False, expiresAt)
                 else case rt_extended turn of
                        None \<Rightarrow> Some ([call, Tel (OpLease ''renewal_failed'')], True, expiresAt)
                      | Some expiry \<Rightarrow>
                          if \<not> time_after expiry (rt_now_after turn)
                          then Some ([call, Tel (OpLease ''renewal_failed'')], True, expiresAt)
                          else case renewal_loop job expiry turns of
                                 None \<Rightarrow> None
                               | Some (es, lost, last_expiry) \<Rightarrow>
                                   Some (call # Tel (OpLease ''extended'') # es, lost, last_expiry))"

text \<open>\<open>stop\<close>: join the goroutine, then check the last known expiry against the clock.\<close>

definition stopRenewal ::
    "claimed_job \<Rightarrow> renewal_turn list \<Rightarrow> instant \<Rightarrow> (effect list \<times> bool) option" where
  "stopRenewal job turns now =
     (case renewal_loop job (j_LeaseExpiresAt job) turns of
        None \<Rightarrow> None
      | Some (es, leaseLost, expiresAt) \<Rightarrow> Some (es, leaseLost \<or> \<not> time_after expiresAt now))"

section \<open>Running one claimed job\<close>

record job_env =
  je_now :: instant
  je_wait :: duration
  je_elapsed :: duration
  je_slot :: bool
  je_canceled :: bool
  je_turns :: "renewal_turn list"
  je_stop_now :: instant
  je_answer :: "core_call \<Rightarrow> bool"

definition runClaimedJob ::
    "config \<Rightarrow> executor list \<Rightarrow> job_env \<Rightarrow> claimed_job \<Rightarrow> effect list option" where
  "runClaimedJob cfg registry ev job =
     (let phase = trim_space (j_Phase job); answer = je_answer ev; m = j_Monitoring job
      in
      if \<not> isLeasePhase phase \<or> \<not> Supports registry phase (m_Type m) then
        Some ([Tel (OpDrop (leaseMetricPhase (j_Phase job)) ''released''), Tel (OpTransition ''queued'' ''released'')] @
              fst (releaseClaimedJob answer job ''unsupported monitoring job''))
      else if validateClaimedJob job \<noteq> [] then
        Some ([Tel (OpDrop phase ''invalid''), Tel (OpTransition ''queued'' ''invalid'')] @
              fst (releaseClaimedJob answer job (validateClaimedJob job)))
      else if \<not> time_after (j_LeaseExpiresAt job) (je_now ev) then
        Some ([Tel (OpDrop phase ''released''), Tel (OpTransition ''queued'' ''released'')] @
              fst (releaseClaimedJob answer job ''lease expired before execution''))
      else
        let started = [Tel (OpLeaseWait (je_wait ev)), Tel OpStart, Tel (OpTransition ''queued'' ''running'')];
            finish = (\<lambda>outcome. Tel (OpFinish phase outcome (je_elapsed ev)))
        in
        if m_MaintenanceActive m then
          (case completeClaimedJob cfg answer job (maintenanceExecution phase (m_ID m)) of
             (es, completed) \<Rightarrow>
               Some (started @ es @
                 (if completed then [Tel (OpTransition ''running'' ''completed''), finish ''maintenance'']
                  else [Tel (OpTransition ''running'' ''completion_failed''), finish ''completion_failed''])))
        else
        (case stopRenewal job (je_turns ev) (je_stop_now ev) of
           None \<Rightarrow> None
         | Some (renewal, leaseLost) \<Rightarrow>
             if \<not> je_slot ev then
               Some (started @ renewal @ fst (releaseClaimedJob answer job ''execution canceled before start'') @
                 [Tel (OpTransition ''running'' ''released''), finish ''canceled''] @
                 (if leaseLost then [Tel (OpLease ''expired'')] else []))
             else
               let execution = fst (Execute registry phase m)
               in if je_canceled ev \<or> leaseLost then
                    Some (started @ renewal @
                      fst (releaseClaimedJob answer job (if leaseLost then ''lease renewal failed'' else ''execution canceled'')) @
                      [Tel (OpTransition ''running'' ''released''), finish ''canceled''])
                  else
                    (case completeClaimedJob cfg answer job execution of
                       (es, completed) \<Rightarrow>
                         if \<not> completed then
                           Some (started @ renewal @ es @
                             [Tel (OpTransition ''running'' ''completion_failed''), finish ''completion_failed''])
                         else
                           Some (started @ renewal @ es @
                             [Tel (OpTransition ''running'' ''completed''), finish (executionOutcome execution)]))))"

section \<open>A batch\<close>

text \<open>The loop over the claimed jobs: its telemetry and the jobs it keeps.\<close>

fun admitJobs :: "string set \<Rightarrow> claimed_job list \<Rightarrow> effect list \<times> claimed_job list" where
  "admitJobs seen [] = ([], [])"
| "admitJobs seen (job # jobs) =
     (let jobID = trim_space (j_ID job);
          received = [Tel (OpLease ''claimed''), Tel (OpTransition ''received'' ''claimed'')]
      in if jobID \<noteq> [] \<and> jobID \<in> seen then
           (case admitJobs seen jobs of
              (es, uniqueJobs) \<Rightarrow>
                (received @ [Tel (OpLease ''duplicate''), Tel (OpTransition ''claimed'' ''duplicate'')] @ es, uniqueJobs))
         else
           (case admitJobs (if jobID \<noteq> [] then insert jobID seen else seen) jobs of
              (es, uniqueJobs) \<Rightarrow>
                (received @
                 (if j_Attempt job > 1
                  then [Tel (OpLease ''retry''), Tel (OpTransition ''claimed'' ''retry''), Tel (OpTransition ''retry'' ''queued'')]
                  else [Tel (OpTransition ''claimed'' ''queued'')]) @
                 [Tel OpQueue] @ es, job # uniqueJobs)))"

definition claimRequest :: "config \<Rightarrow> claim_request" where
  "claimRequest cfg =
     (let workerCount = workerLimit cfg;
          batchSize = max 1 (min (max 1 (cfg_JobLeaseMaxBatch cfg)) workerCount)
      in \<lparr>cr_Location = cfg_WebGuardLocation cfg, cr_InstanceID = cfg_WebGuardInstanceID cfg, cr_Capabilities = leaseCapabilities,
          cr_Capacity = workerCount, cr_MaxBatchSize = batchSize\<rparr>)"

text \<open>
  \<open>runClaimedJobs\<close>: the effects up to the start of the workers, and the pool that is then
  run to its end (none when the claim failed or brought no job). \<open>claimed\<close> is Core's
  answer, \<open>None\<close> for an error, which is also the error returned.
\<close>

definition runClaimedJobs ::
    "config \<Rightarrow> claimed_job list option \<Rightarrow> effect list \<times> (claimed_job, effect) pool option" where
  "runClaimedJobs cfg claimed =
     (let claim = Core (ClaimMonitoringJobs (claimRequest cfg))
      in case claimed of
           None \<Rightarrow> ([claim], None)
         | Some jobs \<Rightarrow>
             if jobs = [] then ([claim], None)
             else case admitJobs {} jobs of
                    (es, uniqueJobs) \<Rightarrow>
                      if uniqueJobs = [] then (claim # es, None)
                      else (claim # es,
                            Some (new_pool (nat (min (workerLimit cfg) (int (length uniqueJobs)))) (map Send uniqueJobs))))"

definition claimed_body :: "config \<Rightarrow> executor list \<Rightarrow> claimed_job \<Rightarrow> effect list \<Rightarrow> bool" where
  "claimed_body cfg registry job es \<longleftrightarrow> (\<exists>ev. runClaimedJob cfg registry ev job = Some es)"

section \<open>Settlement\<close>

text \<open>The job a gateway call settles.\<close>

fun settled :: "core_call \<Rightarrow> string option" where
  "settled (CompleteMonitoringJob job key attempt result) = Some job"
| "settled (ReleaseMonitoringJob job attempt reason) = Some job"
| "settled _ = None"

definition settlements :: "effect list \<Rightarrow> core_call list" where
  "settlements es = filter (\<lambda>c. settled c \<noteq> None) (core_calls es)"

lemma settlements_simps [simp]:
  "settlements [] = []" "settlements (Tel x # es) = settlements es"
  "settlements (TryStart m now v # es) = settlements es"
  "settlements (Core c # es) = (if settled c \<noteq> None then [c] else []) @ settlements es"
  "settlements (es @ fs) = settlements es @ settlements fs"
  by (simp_all add: settlements_def)

lemma opt_call_settled:
  "settlements (map Core (opt_call PostMonitoringResponse r)) = []"
  "settlements (map Core (opt_call PostSSLResult s)) = []"
  "settlements (map Core (opt_call PostDomainResult d)) = []"
  by (simp_all add: opt_call_def split: option.split)

lemma publish_settles_nothing:
  "settlements (map Core (fst (publishExecution e keys rand))) = []"
  by (simp add: publishExecution_def Let_def opt_call_settled split: sum.split)

lemma publish_gauges: "gauge_ops (map Core cs) = []"
  by (induction cs) auto

lemma release_effects:
  "settlements (fst (releaseClaimedJob answer job reason)) =
     (if trim_space (j_ID job) = [] then [] else [ReleaseMonitoringJob (j_ID job) (j_Attempt job) reason]) \<and>
   gauge_ops (fst (releaseClaimedJob answer job reason)) = []"
  by (simp add: releaseClaimedJob_def Let_def)

text \<open>What was executed is what is completed: under the job's own key.\<close>

lemma publish_keeps_key:
  "isUUIDv4 key \<Longrightarrow>
   jobResult (snd (publishExecution (setExecutionIdempotencyKey key e) [key] None)) =
   jobResult (setExecutionIdempotencyKey key e)"
  by (auto simp: publishExecution_def callbackKey_simps Let_def jobResult_def setExecutionIdempotencyKey_def
      option.map_comp comp_def)

lemma complete_effects:
  assumes "isUUIDv4 (trim_space (j_IdempotencyKey job))"
  shows "settlements (fst (completeClaimedJob cfg answer job e)) =
     [CompleteMonitoringJob (j_ID job) (trim_space (j_IdempotencyKey job)) (j_Attempt job)
        (jobResult (setExecutionIdempotencyKey (trim_space (j_IdempotencyKey job)) e))] \<and>
   gauge_ops (fst (completeClaimedJob cfg answer job e)) = []"
  using assms publish_settles_nothing publish_keeps_key [OF assms, of e]
  by (auto simp: completeClaimedJob_def Let_def publish_gauges split: prod.splits) (metis fst_conv snd_conv)+

lemma renewal_effects:
  "renewal_loop job x turns = Some (es, lost, y) \<Longrightarrow>
   settlements es = [] \<and> gauge_ops es = [] \<and>
   (\<forall>c \<in> set (core_calls es). c = ExtendMonitoringJob (j_ID job) (j_Attempt job))"
proof (induction job x turns arbitrary: es lost y rule: renewal_loop.induct)
  case (2 job x turn turns)
  then show ?case by (auto simp: Let_def split: if_splits option.splits prod.splits)
qed simp

lemma stop_effects:
  "stopRenewal job turns now = Some (es, lost) \<Longrightarrow>
   settlements es = [] \<and> gauge_ops es = [] \<and>
   (\<forall>c \<in> set (core_calls es). c = ExtendMonitoringJob (j_ID job) (j_Attempt job))"
  by (auto simp: stopRenewal_def dest: renewal_effects split: option.splits prod.splits)

lemma validated_job:
  assumes "validateClaimedJob job = []"
  shows "trim_space (j_ID job) \<noteq> [] \<and> isUUIDv4 (trim_space (j_IdempotencyKey job)) \<and> 1 \<le> j_Attempt job"
  using assms by (auto simp: validateClaimedJob_def split: if_splits)

section \<open>One claimed job\<close>

text \<open>When a job is completed rather than released, read off the branches of the code.\<close>

definition lease_held :: "job_env \<Rightarrow> claimed_job \<Rightarrow> bool" where
  "lease_held ev job \<longleftrightarrow>
     je_slot ev \<and> \<not> je_canceled ev \<and> map_option snd (stopRenewal job (je_turns ev) (je_stop_now ev)) = Some False"

definition runnable :: "executor list \<Rightarrow> job_env \<Rightarrow> claimed_job \<Rightarrow> bool" where
  "runnable registry ev job \<longleftrightarrow>
     isLeasePhase (trim_space (j_Phase job)) \<and> Supports registry (trim_space (j_Phase job)) (m_Type (j_Monitoring job)) \<and>
     validateClaimedJob job = [] \<and> time_after (j_LeaseExpiresAt job) (je_now ev)"

definition job_execution :: "executor list \<Rightarrow> claimed_job \<Rightarrow> execution" where
  "job_execution registry job =
     (let phase = trim_space (j_Phase job); m = j_Monitoring job
      in if m_MaintenanceActive m then maintenanceExecution phase (m_ID m) else fst (Execute registry phase m))"

definition job_completion :: "executor list \<Rightarrow> claimed_job \<Rightarrow> core_call" where
  "job_completion registry job =
     (let key = trim_space (j_IdempotencyKey job)
      in CompleteMonitoringJob (j_ID job) key (j_Attempt job)
           (jobResult (setExecutionIdempotencyKey key (job_execution registry job))))"

lemma not_runnable_effects:
  assumes "runClaimedJob cfg registry ev job = Some es" "\<not> runnable registry ev job"
  shows "\<exists>reason. settlements es =
     (if trim_space (j_ID job) = [] then [] else [ReleaseMonitoringJob (j_ID job) (j_Attempt job) reason]) \<and>
     one_life (gauge_ops es)"
  using assms by (auto simp: runClaimedJob_def runnable_def Let_def release_effects split: if_splits)

lemma complete_effects_of:
  assumes "validateClaimedJob job = []" "completeClaimedJob cfg answer job (job_execution registry job) = (es, ok)"
  shows "settlements es = [job_completion registry job] \<and> gauge_ops es = []"
proof -
  have "isUUIDv4 (trim_space (j_IdempotencyKey job))" using validated_job [OF assms(1)] by simp
  from complete_effects [OF this, of cfg answer "job_execution registry job"] assms(2)
  show ?thesis by (simp add: job_completion_def Let_def)
qed

lemma maintenance_effects:
  assumes "runClaimedJob cfg registry ev job = Some es" "runnable registry ev job" "m_MaintenanceActive (j_Monitoring job)"
  shows "settlements es = [job_completion registry job] \<and> one_life (gauge_ops es)"
proof -
  obtain es' ok where c: "completeClaimedJob cfg (je_answer ev) job (job_execution registry job) = (es', ok)"
    by (cases "completeClaimedJob cfg (je_answer ev) job (job_execution registry job)")
  with complete_effects_of [OF _ c] assms show ?thesis
    by (auto simp: runClaimedJob_def runnable_def Let_def job_execution_def split: if_splits)
qed

lemma executed_effects:
  assumes "runClaimedJob cfg registry ev job = Some es" "runnable registry ev job"
    "\<not> m_MaintenanceActive (j_Monitoring job)"
  shows "(if lease_held ev job then settlements es = [job_completion registry job]
          else \<exists>reason. settlements es = [ReleaseMonitoringJob (j_ID job) (j_Attempt job) reason]) \<and>
         one_life (gauge_ops es)"
proof -
  obtain es' ok where c: "completeClaimedJob cfg (je_answer ev) job (job_execution registry job) = (es', ok)"
    by (cases "completeClaimedJob cfg (je_answer ev) job (job_execution registry job)")
  have v: "validateClaimedJob job = []" and n: "trim_space (j_ID job) \<noteq> []"
    using assms(2) validated_job by (auto simp: runnable_def)
  from assms obtain rs lost where r: "stopRenewal job (je_turns ev) (je_stop_now ev) = Some (rs, lost)"
    by (auto simp: runClaimedJob_def runnable_def Let_def split: if_splits option.splits)
  from assms(1) show ?thesis
    using assms(2,3) r c n complete_effects_of [OF v c] stop_effects [OF r]
    by (auto simp: runClaimedJob_def runnable_def lease_held_def Let_def job_execution_def release_effects split: if_splits)
qed

text \<open>
  C2. Every claimed job with an ID is settled with Core exactly once, for its own ID and
  attempt. It is completed precisely when it is of a supported phase and type, valid, its lease
  unexpired at the start, and it is either in maintenance or was executed to the end without
  cancellation while the lease was kept; then Core gets the result of that execution under
  the job's own key. In every other case it is released. A job without an ID settles nothing.
\<close>

lemma claimed_job_settled_once:
  assumes "runClaimedJob cfg registry ev job = Some es"
  shows "if trim_space (j_ID job) = [] then settlements es = []
         else if runnable registry ev job \<and> (m_MaintenanceActive (j_Monitoring job) \<or> lease_held ev job)
         then settlements es = [job_completion registry job]
         else \<exists>reason. settlements es = [ReleaseMonitoringJob (j_ID job) (j_Attempt job) reason]"
proof (cases "runnable registry ev job")
  case True
  then have "trim_space (j_ID job) \<noteq> []" using validated_job by (auto simp: runnable_def)
  with True maintenance_effects [OF assms True] executed_effects [OF assms True] show ?thesis
    by (cases "m_MaintenanceActive (j_Monitoring job)") (auto split: if_splits)
next
  case False
  with not_runnable_effects [OF assms False] show ?thesis by auto
qed

lemma claimed_job_life: "runClaimedJob cfg registry ev job = Some es \<Longrightarrow> one_life (gauge_ops es)"
  using not_runnable_effects maintenance_effects executed_effects by metis

text \<open>A concrete job and environment: a valid HTTP job, executed to the end with its lease kept.\<close>

definition sample_job :: claimed_job where
  "sample_job = \<lparr>j_ID = ''7'', j_Phase = ''response'', j_LeaseExpiresAt = 1000, j_Attempt = 1,
     j_IdempotencyKey = ''00000000-0000-4000-8000-000000000000'',
     j_Monitoring = zero_monitoring\<lparr>m_ID := ''1'', m_Type := ''http'', m_Target := ''https://x''\<rparr>\<rparr>"

definition sample_env :: job_env where
  "sample_env = \<lparr>je_now = 1, je_wait = 0, je_elapsed = 5, je_slot = True, je_canceled = False,
     je_turns = [\<lparr>rt_now = 1, rt_done = True, rt_extended = None, rt_ctx_err = False, rt_now_after = 1\<rparr>],
     je_stop_now = 6, je_answer = (\<lambda>_. True)\<rparr>"

definition sample_config :: config where
  "sample_config = (FromEnv (\<lambda>_. []))\<lparr>cfg_WebGuardLocation := ''de'', cfg_WebGuardInstanceID := ''i''\<rparr>"

lemma sample_key: "isUUIDv4 (trim_space ''00000000-0000-4000-8000-000000000000'')"
  by code_simp

lemma sample_trims:
  "trim_space ''7'' = ''7''" "trim_space ''1'' = ''1''" "trim_space ''response'' = ''response''"
  "trim_space ''https://x'' = ''https://x''"
  by code_simp+

lemma sample_runnable: "runnable (newExecutorRegistry c) sample_env sample_job"
  using sample_key
  by (simp add: runnable_def sample_env_def sample_job_def sample_trims isLeasePhase_def phase_defs registry_coverage
      validateClaimedJob_def time_is_zero_def time_after_def zero_monitoring_def mon_type_defs)

lemma sample_lease: "lease_held sample_env sample_job"
  by (simp add: lease_held_def sample_env_def sample_job_def stopRenewal_def time_after_def time_sub_def
      min_duration_def max_duration_def)

lemma sample_runs: "\<exists>es. runClaimedJob cfg (newExecutorRegistry c) sample_env sample_job = Some es"
  using sample_runnable [of c] sample_lease
  by (auto simp: runnable_def lease_held_def runClaimedJob_def Let_def split: prod.splits option.splits)

lemma claimed_job_settled_once_witness:
  "\<forall>c. \<exists>es. runClaimedJob sample_config (newExecutorRegistry c) sample_env sample_job = Some es \<and>
     settlements es = [job_completion (newExecutorRegistry c) sample_job]"
proof
  fix c
  obtain es where es: "runClaimedJob sample_config (newExecutorRegistry c) sample_env sample_job = Some es"
    using sample_runs by blast
  have "trim_space (j_ID sample_job) \<noteq> []" by (simp add: sample_job_def sample_trims)
  with claimed_job_settled_once [OF es] sample_runnable sample_lease es
  show "\<exists>es. runClaimedJob sample_config (newExecutorRegistry c) sample_env sample_job = Some es \<and>
     settlements es = [job_completion (newExecutorRegistry c) sample_job]" by auto
qed

section \<open>A whole batch\<close>

abbreviation job_key :: "claimed_job \<Rightarrow> string" where
  "job_key job \<equiv> trim_space (j_ID job)"

text \<open>Every environment lets the goroutine of the renewal end, so each job has a body.\<close>

lemma renewal_ends_when_done:
  "\<exists>turn \<in> set turns. rt_done turn \<Longrightarrow> renewal_loop job x turns \<noteq> None"
proof (induction turns arbitrary: x)
  case (Cons turn turns)
  have more: "renewal_loop job y turns \<noteq> None" if "\<not> rt_done turn" for y
    using Cons that by auto
  show ?case
  proof (cases "rt_done turn")
    case False
    show ?thesis
    proof (cases "rt_extended turn")
      case (Some expiry)
      from more [OF False, of expiry] obtain es lost y where "renewal_loop job expiry turns = Some (es, lost, y)"
        by (auto)
      with Some False show ?thesis by (auto simp: Let_def)
    qed (use False in \<open>auto simp: Let_def\<close>)
  qed (auto simp: Let_def)
qed simp

lemma claimed_body_total: "\<exists>es. claimed_body cfg registry job es"
proof -
  have "runClaimedJob cfg registry sample_env job \<noteq> None"
    using renewal_ends_when_done [of "je_turns sample_env" job "j_LeaseExpiresAt job"]
    by (auto simp: runClaimedJob_def Let_def stopRenewal_def sample_env_def split: option.split prod.split)
  then show ?thesis by (auto simp: claimed_body_def)
qed

lemma claimed_body_life: "claimed_body cfg registry job es \<Longrightarrow> one_life (gauge_ops es)"
  by (auto simp: claimed_body_def claimed_job_life)

lemma claimed_body_settles:
  "claimed_body cfg registry job es \<Longrightarrow> map settled (settlements es) = (if job_key job = [] then [] else [Some (j_ID job)])"
  by (auto simp: claimed_body_def job_completion_def Let_def dest!: claimed_job_settled_once split: if_splits)

text \<open>The loop keeps the first job of each ID and every job without one.\<close>

lemma admit_unique:
  "snd (admitJobs seen (job # jobs)) =
     (if job_key job \<noteq> [] \<and> job_key job \<in> seen then snd (admitJobs seen jobs)
      else job # snd (admitJobs (if job_key job \<noteq> [] then insert (job_key job) seen else seen) jobs))"
  by (simp add: Let_def case_prod_unfold)

lemma admit_gauges:
  "gauge_ops (fst (admitJobs seen (job # jobs))) =
     (if job_key job \<noteq> [] \<and> job_key job \<in> seen then gauge_ops (fst (admitJobs seen jobs))
      else OpQueue # gauge_ops (fst (admitJobs (if job_key job \<noteq> [] then insert (job_key job) seen else seen) jobs)))"
  by (simp add: Let_def case_prod_unfold)

declare admitJobs.simps(2) [simp del]

lemma insert_fresh_key:
  "A - {e} = B - insert k S - {e} \<Longrightarrow> k \<notin> S \<Longrightarrow> insert k A - {e} = insert k B - S - {e}"
  by (auto simp: set_eq_iff)

lemma admit_keys: "job_key ` set (snd (admitJobs seen jobs)) - {[]} = job_key ` set jobs - seen - {[]}"
proof (induction jobs arbitrary: seen)
  case (Cons job jobs)
  show ?case
    using Cons [of seen] insert_fresh_key [OF Cons [of "insert (job_key job) seen"]]
    by (cases "job_key job = []"; cases "job_key job \<in> seen") (simp_all add: admit_unique insert_Diff_if)
qed simp

lemma admit_subseq: "subseq (snd (admitJobs seen jobs)) jobs"
  by (induction jobs arbitrary: seen) (auto simp: admit_unique)

lemma admit_distinct: "distinct (filter (\<lambda>k. k \<noteq> []) (map job_key (snd (admitJobs seen jobs))))"
proof (induction jobs arbitrary: seen)
  case (Cons job jobs)
  have "job_key job \<noteq> [] \<Longrightarrow> job_key job \<notin> set (map job_key (snd (admitJobs (insert (job_key job) seen) jobs)))"
    using admit_keys [of "insert (job_key job) seen" jobs] by auto
  with Cons [of seen] Cons [of "insert (job_key job) seen"] show ?case
    by (auto simp: admit_unique)
qed simp

lemma admit_queues: "gauge_ops (fst (admitJobs seen jobs)) = replicate (length (snd (admitJobs seen jobs))) OpQueue"
  by (induction jobs arbitrary: seen) (simp_all add: admit_unique admit_gauges)

lemma admit_nonempty: "snd (admitJobs {} jobs) = [] \<longleftrightarrow> jobs = []"
  by (cases jobs) (simp_all add: admit_unique)

text \<open>The pool of a successful claim, and the jobs it is fed.\<close>

lemma runClaimedJobs_pool:
  assumes "runClaimedJobs cfg (Some jobs) = (es, Some pool)"
  shows "pool = new_pool (nat (min (workerLimit cfg) (int (length (snd (admitJobs {} jobs)))))) (map Send (snd (admitJobs {} jobs))) \<and>
         es = Core (ClaimMonitoringJobs (claimRequest cfg)) # fst (admitJobs {} jobs) \<and> snd (admitJobs {} jobs) \<noteq> []"
  using assms by (auto simp: runClaimedJobs_def case_prod_unfold Let_def split: if_splits)

lemma workerLimit_pos: "1 \<le> workerLimit cfg"
  by (simp add: workerLimit_def Let_def)

lemma sends_map [simp]: "sends (map Send js) = js" "emits (map Send js) = []"
  by (induction js) auto

lemma feed_sends [simp]: "feed_ok (map Send js)" "pending (map Send js) = int (length js)"
  by (induction js) auto

definition settlement_of :: "string \<Rightarrow> core_call \<Rightarrow> bool" where
  "settlement_of k c \<longleftrightarrow> (case settled c of None \<Rightarrow> False | Some job \<Rightarrow> trim_space job = k)"

lemma settlements_of_body:
  assumes "claimed_body cfg registry job es" "k \<noteq> []"
  shows "filter (settlement_of k) (core_calls es) = [] \<and> job_key job \<noteq> k \<or>
         length (filter (settlement_of k) (core_calls es)) = 1 \<and> job_key job = k"
proof -
  have "filter (settlement_of k) (core_calls es) = filter (settlement_of k) (settlements es)"
    by (auto simp: settlements_def settlement_of_def intro: filter_cong split: option.splits)
  with claimed_body_settles [OF assms(1)] assms(2) show ?thesis
    by (auto simp: settlement_of_def split: if_splits)
qed

lemma settlements_of_bodies:
  "list_all2 (claimed_body cfg registry) js ess \<Longrightarrow> k \<noteq> [] \<Longrightarrow>
   (\<Sum>es\<leftarrow>ess. length (filter (settlement_of k) (core_calls es))) = length (filter (\<lambda>x. x = k) (map job_key js))"
proof (induction rule: list_all2_induct)
  case (Cons j js es ess)
  with settlements_of_body [OF Cons.hyps(1), of k] show ?case by auto
qed simp

lemma interleaved_settlements:
  "interleaves xss es \<Longrightarrow>
   length (filter P (core_calls es)) = (\<Sum>xs\<leftarrow>xss. length (filter P (core_calls xs)))"
proof (induction rule: interleaves.induct)
  case (stop xss)
  then show ?case by (induction xss) auto
next
  case (pick i xss x xs ys)
  have "(\<Sum>zs\<leftarrow>xss. f zs) = f (x # xs) + (\<Sum>zs\<leftarrow>xss[i := xs]. f zs) - f xs \<and> f xs \<le> (\<Sum>zs\<leftarrow>xss[i := xs]. f zs)"
    for f :: "effect list \<Rightarrow> nat"
    using pick.hyps(1,2)
  proof (induction xss arbitrary: i)
    case (Cons a xss)
    then show ?case by (cases i) force+
  qed simp
  from this [of "\<lambda>zs. length (filter P (core_calls zs))"] pick.IH show ?case by (cases x) auto
qed

lemma distinct_filter_count: "distinct (filter Q xs) \<Longrightarrow> Q k \<Longrightarrow> k \<in> set xs \<Longrightarrow> length (filter (\<lambda>x. x = k) xs) = 1"
  by (induction xs) (auto split: if_splits simp: filter_empty_conv)

text \<open>
  C1. In a claimed batch, however the workers are scheduled and whatever Core answers, every
  claimed job ID is settled exactly once when the batch returns, also when Core hands out the
  same job twice, padded or not.
\<close>

lemma claimed_batch_settles_each_id_once:
  assumes "runClaimedJobs cfg (Some jobs) = (es, Some pool)"
    "pool_run (claimed_body cfg registry) pool s" "pool_done s"
    "job \<in> set jobs" "job_key job \<noteq> []"
  shows "length (filter (settlement_of (job_key job)) (core_calls (es @ p_trace s))) = 1"
proof -
  let ?js = "snd (admitJobs {} jobs)"
  have pool: "pool = new_pool (nat (min (workerLimit cfg) (int (length ?js)))) (map Send ?js)"
    and es: "es = Core (ClaimMonitoringJobs (claimRequest cfg)) # fst (admitJobs {} jobs)" and ne: "?js \<noteq> []"
    using runClaimedJobs_pool [OF assms(1)] by auto
  have "p_closed s \<longrightarrow> p_feed s = []"
    using pool_run_closed [OF assms(2)] pool by (simp add: new_pool_def)
  from pool_run_trace [OF assms(2,3) this] pool obtain ess where
    b: "list_all2 (claimed_body cfg registry) ?js ess" and
    i: "interleaves ([] # replicate (nat (min (workerLimit cfg) (int (length ?js)))) [] @ ess) (p_trace s)"
    by (auto simp: new_pool_def)
  have "length (filter (settlement_of (job_key job)) (core_calls (p_trace s))) =
      length (filter (\<lambda>x. x = job_key job) (map job_key ?js))"
    using interleaved_settlements [OF i] settlements_of_bodies [OF b assms(5)] by (simp add: sum_list_replicate)
  also have "\<dots> = 1"
  proof (rule distinct_filter_count [OF admit_distinct])
    have "job_key job \<in> job_key ` set ?js - {[]}" using admit_keys [of "{}" jobs] assms(4,5) by simp
    then show "job_key job \<in> set (map job_key ?js)" by simp
  qed (use assms(5) in simp)
  finally have trace: "length (filter (settlement_of (job_key job)) (core_calls (p_trace s))) = 1" .
  have "core_calls (fst (admitJobs seen js)) = []" for seen js
    by (induction js arbitrary: seen) (auto simp: admitJobs.simps Let_def case_prod_unfold)
  with trace show ?thesis by (simp add: es settlement_of_def)
qed

lemma claimed_batch_settles_each_id_once_witness:
  "\<forall>c. \<exists>es pool s. runClaimedJobs sample_config (Some [sample_job, sample_job\<lparr>j_ID := '' 7''\<rparr>]) = (es, Some pool) \<and>
     length (filter (settlement_of ''7'') (core_calls (es @ p_trace s))) = 1 \<and>
     pool_run (claimed_body sample_config (newExecutorRegistry c)) pool s"
proof
  fix c
  let ?jobs = "[sample_job, sample_job\<lparr>j_ID := '' 7''\<rparr>]"
  have "snd (admitJobs {} ?jobs) \<noteq> []" by (simp add: admit_nonempty)
  then obtain es pool where r: "runClaimedJobs sample_config (Some ?jobs) = (es, Some pool)"
    by (auto simp: runClaimedJobs_def case_prod_unfold Let_def)
  from runClaimedJobs_pool [OF this] obtain n where n: "pool = new_pool n (map Send (snd (admitJobs {} ?jobs)))" "0 < n"
    using workerLimit_pos [of sample_config] by auto
  from new_pool_reaches_done [OF n(2), of "claimed_body sample_config (newExecutorRegistry c)"]
  obtain s where s: "pool_run (claimed_body sample_config (newExecutorRegistry c)) pool s" "pool_done s"
    unfolding n(1) using claimed_body_total by blast
  have "job_key sample_job = ''7''" by (simp add: sample_job_def sample_trims)
  with claimed_batch_settles_each_id_once [OF r s, of sample_job] r s(1)
  show "\<exists>es pool s. runClaimedJobs sample_config (Some ?jobs) = (es, Some pool) \<and>
     length (filter (settlement_of ''7'') (core_calls (es @ p_trace s))) = 1 \<and>
     pool_run (claimed_body sample_config (newExecutorRegistry c)) pool s" by fastforce
qed

text \<open>
  The capacity announced to Core is the number of workers, at least 1 and within every
  configured limit, and the batch asked for is between 1 and that capacity.
\<close>

lemma claim_request_bounds:
  "1 \<le> cr_Capacity (claimRequest cfg) \<and>
   cr_Capacity (claimRequest cfg) \<le> max 1 (cfg_QueueDefaultWorkers cfg) \<and>
   (cfg_RunMaxConcurrency cfg \<le> 0 \<or> cr_Capacity (claimRequest cfg) \<le> cfg_RunMaxConcurrency cfg) \<and>
   1 \<le> cr_MaxBatchSize (claimRequest cfg) \<and>
   cr_MaxBatchSize (claimRequest cfg) \<le> cr_Capacity (claimRequest cfg) \<and>
   cr_MaxBatchSize (claimRequest cfg) \<le> max 1 (cfg_JobLeaseMaxBatch cfg)"
  by (simp add: claimRequest_def workerLimit_def Let_def)

section \<open>Lease safety\<close>

text \<open>
  A renewal that went through: the timer fired, Core answered while the job was still wanted, and
  the new expiry lay ahead when it arrived. The last expiry granted is that of the last of them,
  at first the claim's own.
\<close>

definition renewed :: "renewal_turn \<Rightarrow> bool" where
  "renewed turn \<longleftrightarrow> \<not> rt_done turn \<and> \<not> rt_ctx_err turn \<and> (\<exists>expiry. rt_extended turn = Some expiry \<and> rt_now_after turn < expiry)"

definition last_granted :: "instant \<Rightarrow> renewal_turn list \<Rightarrow> instant" where
  "last_granted expiresAt renewals = (if renewals = [] then expiresAt else the (rt_extended (last renewals)))"

lemma last_granted_simps [simp]:
  "last_granted x [] = x" "rt_extended turn = Some y \<Longrightarrow> last_granted x (turn # renewals) = last_granted y renewals"
  by (auto simp: last_granted_def)

text \<open>
  When the lease was not lost, the turns of the loop were renewals, each asked for while the expiry
  before it lay ahead, up to one in which the job was over.
\<close>

lemma renewal_kept:
  "renewal_loop job x turns = Some (es, False, y) \<Longrightarrow>
   \<exists>renewals final later. turns = renewals @ final # later \<and> list_all renewed renewals \<and> y = last_granted x renewals \<and>
     (rt_done final \<or> rt_ctx_err final) \<and> rt_now final < y \<and>
     (\<forall>i < length renewals. rt_now (renewals ! i) < last_granted x (take i renewals))"
proof (induction job x turns arbitrary: es y rule: renewal_loop.induct)
  case (2 job x turn turns)
  have ahead: "rt_now turn < x"
    using "2.prems" time_sub_pos_iff [of x "rt_now turn"] by (auto simp: Let_def split: if_splits)
  show ?case
  proof (cases "rt_done turn \<or> rt_ctx_err turn")
    case True
    with "2.prems" ahead show ?thesis
      by (intro exI [of _ "[]"] exI [of _ turn] exI [of _ turns]) (auto simp: Let_def split: if_splits)
  next
    case False
    with "2.prems" obtain expiry es' where e: "rt_extended turn = Some expiry" "rt_now_after turn < expiry"
      "renewal_loop job expiry turns = Some (es', False, y)"
      "es = Core (ExtendMonitoringJob (j_ID job) (j_Attempt job)) # Tel (OpLease ''extended'') # es'"
      by (auto simp: Let_def time_after_def split: if_splits option.splits)
    have "\<not> time_sub x (rt_now turn) \<le> 0" "\<not> renewalRequestTimeout (time_sub x (rt_now turn)) \<le> 0"
      using "2.prems" False by (auto simp: Let_def split: if_splits)
    from "2.IH" [OF refl this(1) _ this(2) refl _ e(1) _ e(3)] False e(2) obtain renewals final later where r:
      "turns = renewals @ final # later" "list_all renewed renewals" "y = last_granted expiry renewals"
      "rt_done final \<or> rt_ctx_err final" "rt_now final < y"
      "\<forall>i < length renewals. rt_now (renewals ! i) < last_granted expiry (take i renewals)"
      by (auto simp: time_after_def)
    have "renewed turn" using False e(1,2) by (simp add: renewed_def)
    moreover have "rt_now ((turn # renewals) ! i) < last_granted x (take i (turn # renewals))"
      if "i < length (turn # renewals)" for i
      using that r(6) ahead e(1) by (cases i) auto
    ultimately show ?thesis
      using r e(1,4) by (intro exI [of _ "turn # renewals"] exI [of _ final] exI [of _ later]) auto
  qed
qed simp

text \<open>
  C10. A result is never reported under a lease known to be over. When a job that is not in
  maintenance is completed, its lease was unexpired when it started, the run was not canceled, and
  the renewals Core was asked for all went through, each while the expiry before it still lay
  ahead, up to the turn in which the job was over; no renewal failed. The last expiry granted, that of the last of
  these renewals or the claim's own if there was none, lay ahead in that turn and still lies ahead
  when the renewal is stopped. A longer expiry that a renewal replaced does not count.
\<close>

lemma completion_needs_live_lease:
  assumes "runClaimedJob cfg registry ev job = Some es" "settlements es = [CompleteMonitoringJob jid key attempt result]"
    "\<not> m_MaintenanceActive (j_Monitoring job)"
  shows "je_now ev < j_LeaseExpiresAt job \<and> \<not> je_canceled ev \<and>
    (\<exists>renewals final later. je_turns ev = renewals @ final # later \<and> list_all renewed renewals \<and>
       (rt_done final \<or> rt_ctx_err final) \<and>
       (\<forall>i < length renewals. rt_now (renewals ! i) < last_granted (j_LeaseExpiresAt job) (take i renewals)) \<and>
       rt_now final < last_granted (j_LeaseExpiresAt job) renewals \<and>
       je_stop_now ev < last_granted (j_LeaseExpiresAt job) renewals)"
proof -
  have r: "runnable registry ev job"
  proof (rule ccontr)
    assume "\<not> runnable registry ev job"
    from not_runnable_effects [OF assms(1) this] assms(2) show False by (auto split: if_splits)
  qed
  with executed_effects [OF assms(1) r assms(3)] assms(2) have held: "lease_held ev job"
    by (auto split: if_splits)
  then obtain rs where "stopRenewal job (je_turns ev) (je_stop_now ev) = Some (rs, False)"
    by (auto simp: lease_held_def)
  then obtain fs expiry where
    "renewal_loop job (j_LeaseExpiresAt job) (je_turns ev) = Some (fs, False, expiry)" "time_after expiry (je_stop_now ev)"
    by (auto simp: stopRenewal_def split: option.splits prod.splits)
  moreover from renewal_kept [OF this(1)] obtain renewals final later where
    "je_turns ev = renewals @ final # later" "list_all renewed renewals" "expiry = last_granted (j_LeaseExpiresAt job) renewals"
    "rt_done final \<or> rt_ctx_err final" "rt_now final < expiry"
    "\<forall>i < length renewals. rt_now (renewals ! i) < last_granted (j_LeaseExpiresAt job) (take i renewals)" by blast
  moreover have "je_now ev < j_LeaseExpiresAt job" "\<not> je_canceled ev"
    using r held by (simp_all add: runnable_def lease_held_def time_after_def)
  ultimately show ?thesis unfolding time_after_def by blast
qed

lemma completion_needs_live_lease_witness:
  "\<forall>c. (\<exists>es key attempt result. runClaimedJob sample_config (newExecutorRegistry c) sample_env sample_job = Some es \<and>
      settlements es = [CompleteMonitoringJob ''7'' key attempt result]) \<and>
     (\<exists>renewals final later. je_turns sample_env = renewals @ final # later \<and>
        je_stop_now sample_env < last_granted (j_LeaseExpiresAt sample_job) renewals)"
proof
  fix c
  obtain es where es: "runClaimedJob sample_config (newExecutorRegistry c) sample_env sample_job = Some es"
    using sample_runs by blast
  have nm: "\<not> m_MaintenanceActive (j_Monitoring sample_job)" by (simp add: sample_job_def zero_monitoring_def)
  have "settlements es = [job_completion (newExecutorRegistry c) sample_job]"
    using executed_effects [OF es sample_runnable nm] sample_lease by simp
  then obtain key attempt result where c: "settlements es = [CompleteMonitoringJob ''7'' key attempt result]"
    by (simp add: job_completion_def Let_def sample_job_def)
  with completion_needs_live_lease [OF es c nm] es
  show "(\<exists>es key attempt result. runClaimedJob sample_config (newExecutorRegistry c) sample_env sample_job = Some es \<and>
      settlements es = [CompleteMonitoringJob ''7'' key attempt result]) \<and>
     (\<exists>renewals final later. je_turns sample_env = renewals @ final # later \<and>
        je_stop_now sample_env < last_granted (j_LeaseExpiresAt sample_job) renewals)" by blast
qed

end
