(* ===== verification/Response_Cadence.thy ===== *)
theory Response_Cadence
  imports Monitor_Types
begin

text \<open>
  When work may start: \<open>internal/adapters/runner/response_cadence.go\<close> (the per monitoring
  and location cadence of response checks) and \<open>allowAuxiliaryPhase\<close> of
  \<open>runner.go\<close> (the five-minute cadence of the SSL and domain phases). Both remember the
  last start of a key and refuse a start that comes too soon; the locale \<open>start_gate\<close> is
  that contract, and both are interpretations of it.

  Each method holds its mutex from the read of the map to the write, so it is one step.
\<close>

section \<open>The contract of a gate\<close>

text \<open>The requests a gate grants, in the order they are made, with the time of each.\<close>

fun gate_run :: "('r \<Rightarrow> instant \<Rightarrow> 's \<Rightarrow> bool \<times> 's) \<Rightarrow> ('r \<times> instant) list \<Rightarrow> 's \<Rightarrow> ('r \<times> instant) list" where
  "gate_run try_start [] s = []"
| "gate_run try_start ((r, now) # h) s =
     (case try_start r now s of (granted, s') \<Rightarrow>
        if granted then (r, now) # gate_run try_start h s' else gate_run try_start h s')"

locale start_gate =
  fixes try_start :: "'r \<Rightarrow> instant \<Rightarrow> 's \<Rightarrow> bool \<times> 's"
    and last_start :: "'s \<Rightarrow> 'k \<Rightarrow> instant option"
    and key :: "'r \<Rightarrow> 'k"
    and gap :: "'r \<Rightarrow> duration"
    and due :: "'r \<Rightarrow> instant \<Rightarrow> bool"
  assumes verdict: "fst (try_start r now s) \<longleftrightarrow>
      due r now \<and> (\<forall>p. last_start s (key r) = Some p \<longrightarrow> gap r \<le> time_sub now p)"
    and granted: "fst (try_start r now s) \<Longrightarrow>
      last_start (snd (try_start r now s)) = (last_start s)(key r \<mapsto> now)"
    and refused: "\<not> fst (try_start r now s) \<Longrightarrow> last_start (snd (try_start r now s)) = last_start s"
begin

lemma run_Cons:
  "gate_run try_start ((r, now) # h) s =
     (if fst (try_start r now s) then (r, now) # gate_run try_start h (snd (try_start r now s))
      else gate_run try_start h (snd (try_start r now s)))"
  by (simp split: prod.split)

lemma run_subseq: "subseq (gate_run try_start h s) h"
proof (induction h arbitrary: s)
  case (Cons x h)
  obtain r now where "x = (r, now)" by (cases x)
  with Cons show ?case by (simp add: run_Cons list_emb_Cons del: gate_run.simps(2))
qed simp

text \<open>Only the remembered starts matter to what is granted.\<close>

lemma run_cong: "last_start s = last_start s' \<Longrightarrow> gate_run try_start h s = gate_run try_start h s'"
proof (induction h arbitrary: s s')
  case (Cons x h)
  obtain r now where x: "x = (r, now)" by (cases x)
  have same: "fst (try_start r now s) = fst (try_start r now s')"
    using Cons.prems by (simp add: verdict)
  have "last_start (snd (try_start r now s)) = last_start (snd (try_start r now s'))"
    using Cons.prems same by (cases "fst (try_start r now s)") (simp_all add: granted refused)
  from Cons.IH [OF this] same x show ?case by (simp add: run_Cons del: gate_run.simps(2))
qed simp

text \<open>A start remembered in the state is respected by every later grant of its key.\<close>

lemma grant_after_start:
  assumes gaps: "\<And>r now. (r, now) \<in> set h \<Longrightarrow> 0 \<le> gap r"
    and last: "last_start s k = Some p"
    and got: "(r, now) \<in> set (gate_run try_start h s)" and key: "key r = k"
  shows "p \<le> now \<and> gap r \<le> now - p"
  using assms(1-3)
proof (induction h arbitrary: s p)
  case (Cons x h)
  obtain r1 now1 where x: "x = (r1, now1)" by (cases x)
  let ?s' = "snd (try_start r1 now1 s)"
  have gap: "gap r' \<le> now' - q \<and> q \<le> now'" if "gap r' \<le> time_sub now' q" "0 \<le> gap r'" for r' now' q
    using that by (auto simp: time_sub_def max_duration_def min_duration_def min_def max_def split: if_splits)
  show ?case
  proof (cases "fst (try_start r1 now1 s) \<and> key r1 = k")
    case True
    then have first: "gap r1 \<le> time_sub now1 p"
      using Cons.prems(2) by (simp add: verdict)
    have g1: "0 \<le> gap r1" using Cons.prems(1) x by auto
    show ?thesis
    proof (cases "(r, now) = (r1, now1)")
      case True
      with gap [OF first g1] show ?thesis by simp
    next
      case False
      have "last_start ?s' k = Some now1" using True by (simp add: granted)
      moreover have "(r, now) \<in> set (gate_run try_start h ?s')"
        using Cons.prems(3) False True x by (auto simp: run_Cons simp del: gate_run.simps(2))
      ultimately have "now1 \<le> now \<and> gap r \<le> now - now1"
        using Cons.IH [of ?s' now1] Cons.prems(1) by (meson list.set_intros(2))
      with gap [OF first g1] show ?thesis by simp
    qed
  next
    case False
    have "last_start ?s' k = Some p"
      using False Cons.prems(2) by (cases "fst (try_start r1 now1 s)") (auto simp: granted refused)
    moreover have "(r, now) \<in> set (gate_run try_start h ?s')"
      using Cons.prems(3) False x key by (auto simp: run_Cons simp del: gate_run.simps(2) split: if_splits)
    ultimately show ?thesis
      using Cons.IH [of ?s' p] Cons.prems(1) by (meson list.set_intros(2))
  qed
qed simp

text \<open>Two grants of one key are at least the gap of the later request apart.\<close>

lemma grants_spaced:
  assumes gaps: "\<And>r now. (r, now) \<in> set h \<Longrightarrow> 0 \<le> gap r"
    and split: "gate_run try_start h s = before @ (r1, t1) # between @ (r2, t2) # after"
    and keys: "key r1 = key r2"
  shows "gap r2 \<le> t2 - t1"
  using assms(1,2)
proof (induction h arbitrary: s before)
  case (Cons x h)
  obtain r now where x: "x = (r, now)" by (cases x)
  let ?s' = "snd (try_start r now s)"
  have gaps': "\<And>r now. (r, now) \<in> set h \<Longrightarrow> 0 \<le> gap r"
    using Cons.prems(1) by (meson list.set_intros(2))
  show ?case
  proof (cases "fst (try_start r now s)")
    case False
    with Cons.prems(2) x have "gate_run try_start h ?s' = before @ (r1, t1) # between @ (r2, t2) # after"
      by (simp add: run_Cons del: gate_run.simps(2))
    with Cons.IH gaps' show ?thesis by blast
  next
    case True
    then have run: "(r, now) # gate_run try_start h ?s' = before @ (r1, t1) # between @ (r2, t2) # after"
      using Cons.prems(2) x by (simp add: run_Cons del: gate_run.simps(2))
    show ?thesis
    proof (cases before)
      case Nil
      with run have "(r1, t1) = (r, now)" and rest: "gate_run try_start h ?s' = between @ (r2, t2) # after"
        by auto
      then have "last_start ?s' (key r2) = Some t1"
        using True keys by (simp add: granted)
      moreover have "(r2, t2) \<in> set (gate_run try_start h ?s')" using rest by simp
      ultimately show ?thesis using grant_after_start gaps' by blast
    next
      case (Cons b bs)
      with run have "gate_run try_start h ?s' = bs @ (r1, t1) # between @ (r2, t2) # after" by simp
      with Cons.IH gaps' show ?thesis by blast
    qed
  qed
qed simp

text \<open>Keys are independent: leaving out all other requests changes nothing for a key.\<close>

lemma keys_independent:
  "filter (\<lambda>(r, now). key r = k) (gate_run try_start h s) =
   gate_run try_start (filter (\<lambda>(r, now). key r = k) h) s'"
  if "last_start s k = last_start s' k"
  using that
proof (induction h arbitrary: s s')
  case (Cons x h)
  obtain r now where x: "x = (r, now)" by (cases x)
  show ?case
  proof (cases "key r = k")
    case True
    then have same: "fst (try_start r now s) = fst (try_start r now s')"
      using Cons.prems by (simp add: verdict)
    then have "last_start (snd (try_start r now s)) k = last_start (snd (try_start r now s')) k"
      using Cons.prems by (cases "fst (try_start r now s)") (simp_all add: granted refused)
    from Cons.IH [OF this] same True x show ?thesis by (simp add: run_Cons del: gate_run.simps(2))
  next
    case False
    then have "last_start (snd (try_start r now s)) k = last_start s k"
      by (cases "fst (try_start r now s)") (simp_all add: granted refused)
    with Cons.IH [of "snd (try_start r now s)" s'] Cons.prems False x show ?thesis
      by (simp add: run_Cons del: gate_run.simps(2))
  qed
qed simp

end

section \<open>Response cadence\<close>

definition legacyResponseCheckInterval :: duration where
  "legacyResponseCheckInterval = 5 * go_minute"

definition minimumResponseCheckInterval :: duration where
  "minimumResponseCheckInterval = go_minute"

definition responseCheckInterval :: "monitoring \<Rightarrow> duration" where
  "responseCheckInterval m =
     (if m_CheckIntervalSeconds m < minimumResponseCheckInterval div go_second
      then legacyResponseCheckInterval
      else seconds (m_CheckIntervalSeconds m))"

definition responseDue :: "monitoring \<Rightarrow> instant \<Rightarrow> bool" where
  "responseDue m now =
     (case m_LastResponseAt m of
        None \<Rightarrow> True
      | Some lastAt \<Rightarrow> \<not> time_before now (time_add lastAt (responseCheckInterval m)))"

type_synonym cadence = "(string, instant) gomap"

definition newResponseCadence :: cadence where
  "newResponseCadence = []"

definition tryStart :: "monitoring \<Rightarrow> string \<Rightarrow> instant \<Rightarrow> cadence \<Rightarrow> bool \<times> cadence" where
  "tryStart m location now starts =
     (let interval = responseCheckInterval m
      in if \<not> responseDue m now then (False, starts)
         else let key = m_ID m @ '':'' @ location
              in case map_of starts key of
                   Some previousStart \<Rightarrow>
                     if time_sub now previousStart < interval then (False, starts)
                     else (True, map_write key now starts)
                 | None \<Rightarrow> (True, map_write key now starts))"

lemmas cadence_interval_defs = responseCheckInterval_def legacyResponseCheckInterval_def
  minimumResponseCheckInterval_def go_units

lemma responseCheckInterval_exact:
  "m_CheckIntervalSeconds m \<le> 9223372036 \<Longrightarrow>
   responseCheckInterval m = (if m_CheckIntervalSeconds m < 60 then 300 else m_CheckIntervalSeconds m) * 1000000000"
  by (auto simp: cadence_interval_defs seconds_exact)

lemma responseCheckInterval_nonneg: "m_CheckIntervalSeconds m \<le> 9223372036 \<Longrightarrow> 0 \<le> responseCheckInterval m"
  by (simp add: responseCheckInterval_exact)

text \<open>One gate request is a monitoring at a location.\<close>

definition cadence_gate :: "monitoring \<times> string \<Rightarrow> instant \<Rightarrow> cadence \<Rightarrow> bool \<times> cadence" where
  "cadence_gate r now starts = tryStart (fst r) (snd r) now starts"

definition cadence_key :: "monitoring \<times> string \<Rightarrow> string" where
  "cadence_key r = m_ID (fst r) @ '':'' @ snd r"

interpretation cadence: start_gate cadence_gate map_of cadence_key
  "\<lambda>r. responseCheckInterval (fst r)" "\<lambda>r. responseDue (fst r)"
  by unfold_locales
     (auto simp: cadence_gate_def cadence_key_def tryStart_def Let_def split: option.splits if_splits)

section \<open>Cadence of the auxiliary phases\<close>

type_synonym phase_runs = "(string, instant) gomap"

definition auxiliaryInterval :: duration where
  "auxiliaryInterval = 5 * go_minute"

definition allowAuxiliaryPhase :: "string \<Rightarrow> instant \<Rightarrow> phase_runs \<Rightarrow> bool \<times> phase_runs" where
  "allowAuxiliaryPhase phase now phaseLastRuns =
     (case map_of phaseLastRuns phase of
        Some previousRun \<Rightarrow>
          if time_sub now previousRun < auxiliaryInterval then (False, phaseLastRuns)
          else (True, map_write phase now phaseLastRuns)
      | None \<Rightarrow> (True, map_write phase now phaseLastRuns))"

interpretation auxiliary: start_gate allowAuxiliaryPhase map_of "\<lambda>phase. phase"
  "\<lambda>phase. auxiliaryInterval" "\<lambda>phase now. True"
  by unfold_locales (auto simp: allowAuxiliaryPhase_def split: option.splits if_splits)

section \<open>Properties\<close>

text \<open>
  Response checks of one monitoring at one location never start closer together than
  the interval of the later check, in any history of polls and whatever the clock does,
  as long as the intervals fit a duration (at most 9223372036 seconds).
\<close>

lemma response_checks_spaced:
  assumes "\<And>m loc now. ((m, loc), now) \<in> set polls \<Longrightarrow> m_CheckIntervalSeconds m \<le> 9223372036"
    and "gate_run cadence_gate polls newResponseCadence =
         before @ ((m1, location), t1) # between @ ((m2, location), t2) # after"
    and "m_ID m1 = m_ID m2"
  shows "responseCheckInterval m2 \<le> t2 - t1"
  using cadence.grants_spaced [OF _ assms(2)] assms(1,3) responseCheckInterval_nonneg
  by (auto simp: cadence_key_def)

lemma response_checks_spaced_witness:
  "let m = zero_monitoring\<lparr>m_ID := ''a'', m_CheckIntervalSeconds := 60\<rparr> in
   gate_run cadence_gate [((m, ''de''), 0), ((m, ''de''), 30 * 1000000000), ((m, ''de''), 61 * 1000000000)] newResponseCadence =
     [((m, ''de''), 0), ((m, ''de''), 61 * 1000000000)] \<and>
   responseCheckInterval m \<le> 61 * 1000000000 - 0"
proof -
  let ?m = "zero_monitoring\<lparr>m_ID := ''a'', m_CheckIntervalSeconds := 60\<rparr>"
  let ?polls = "[((?m, ''de''), 0), ((?m, ''de''), 30 * 1000000000), ((?m, ''de''), 61 * 1000000000)]"
  have run: "gate_run cadence_gate ?polls newResponseCadence = [((?m, ''de''), 0), ((?m, ''de''), 61 * 1000000000)]"
    by (simp add: cadence_gate_def tryStart_def newResponseCadence_def responseDue_def zero_monitoring_def
        responseCheckInterval_exact time_sub_def max_duration_def min_duration_def Let_def)
  have "responseCheckInterval ?m \<le> 61 * 1000000000 - 0"
    by (rule response_checks_spaced [of ?polls "[]" ?m "''de''" 0 "[]" ?m "61 * 1000000000" "[]"])
       (use run in \<open>auto simp: zero_monitoring_def\<close>)
  with run show ?thesis by (simp add: Let_def)
qed

text \<open>
  The monitorings of a location are independent: whether and when a monitoring is
  checked is what it would be if it were the only one polled.
\<close>

lemma cadence_independent:
  assumes "\<And>m loc now. ((m, loc), now) \<in> set polls \<Longrightarrow> loc = location"
  shows "filter (\<lambda>((m, loc), now). m_ID m = ident) (gate_run cadence_gate polls newResponseCadence) =
         gate_run cadence_gate (filter (\<lambda>((m, loc), now). m_ID m = ident) polls) newResponseCadence"
proof -
  let ?k = "ident @ '':'' @ location"
  have key: "cadence_key r = ?k \<longleftrightarrow> m_ID (fst r) = ident" if "(r, now) \<in> set polls" for r now
    using assms [of "fst r" "snd r" now] that by (cases r) (simp add: cadence_key_def)
  have sub: "set (gate_run cadence_gate polls newResponseCadence) \<subseteq> set polls"
    using cadence.run_subseq by (rule list_emb_set [THEN subsetI]) auto
  have eq: "filter (\<lambda>(r, now). cadence_key r = ?k) xs = filter (\<lambda>((m, loc), now). m_ID m = ident) xs"
    if "set xs \<subseteq> set polls" for xs
    using that key by (intro filter_cong) auto
  show ?thesis
    using cadence.keys_independent [of newResponseCadence ?k newResponseCadence polls] eq [OF sub] eq [of polls]
    by simp
qed

lemma cadence_independent_witness:
  "let a = zero_monitoring\<lparr>m_ID := ''a''\<rparr>; b = zero_monitoring\<lparr>m_ID := ''b''\<rparr>;
       polls = [((a, ''de''), 0), ((b, ''de''), 1), ((a, ''de''), 2)] in
   filter (\<lambda>((m, loc), now). m_ID m = ''a'') (gate_run cadence_gate polls newResponseCadence) =
   gate_run cadence_gate [((a, ''de''), 0), ((a, ''de''), 2)] newResponseCadence"
proof -
  let ?a = "zero_monitoring\<lparr>m_ID := ''a''\<rparr>" and ?b = "zero_monitoring\<lparr>m_ID := ''b''\<rparr>"
  have "filter (\<lambda>((m, loc), now). m_ID m = ''a'')
      (gate_run cadence_gate [((?a, ''de''), 0), ((?b, ''de''), 1), ((?a, ''de''), 2)] newResponseCadence) =
    gate_run cadence_gate (filter (\<lambda>((m, loc), now). m_ID m = ''a'')
      [((?a, ''de''), 0), ((?b, ''de''), 1), ((?a, ''de''), 2)]) newResponseCadence"
    by (rule cadence_independent [where location = "''de''"]) (auto simp: zero_monitoring_def)
  then show ?thesis by (simp add: Let_def zero_monitoring_def)
qed

text \<open>
  A response check is due exactly when the location has no result yet or the selected
  interval has fully passed since the last one; below one minute the interval is the legacy
  five minutes.
\<close>

lemma responseDue_exact:
  assumes "m_CheckIntervalSeconds m \<le> 9223372036"
  shows "responseDue m now \<longleftrightarrow>
    (case m_LastResponseAt m of None \<Rightarrow> True
     | Some t \<Rightarrow> t + (if m_CheckIntervalSeconds m < 60 then 300 else m_CheckIntervalSeconds m) * 1000000000 \<le> now)"
  using assms
  by (auto simp: responseDue_def time_before_def time_add_def responseCheckInterval_exact split: option.splits)

lemma responseDue_exact_witness:
  "let m = zero_monitoring\<lparr>m_CheckIntervalSeconds := 900, m_LastResponseAt := Some 0\<rparr> in
   \<not> responseDue m (900 * 1000000000 - 1) \<and> responseDue m (900 * 1000000000)"
proof -
  let ?m = "zero_monitoring\<lparr>m_CheckIntervalSeconds := 900, m_LastResponseAt := Some 0\<rparr>"
  have "m_CheckIntervalSeconds ?m \<le> 9223372036" by (simp add: zero_monitoring_def)
  from responseDue_exact [OF this, of "900 * 1000000000 - 1"] responseDue_exact [OF this, of "900 * 1000000000"]
  show ?thesis by (simp add: Let_def zero_monitoring_def)
qed

text \<open>
  The bound on the interval is needed: decoding accepts any non-negative interval, and an
  interval of 9223372037 seconds overflows to a negative duration, so that the same
  monitoring is started again at the very same instant.
\<close>

lemma huge_interval_defeats_cadence:
  "let m = zero_monitoring\<lparr>m_ID := ''a'', m_CheckIntervalSeconds := 9223372037\<rparr> in
   monitoring_wf m \<and> responseCheckInterval m < 0 \<and>
   gate_run cadence_gate [((m, loc), t), ((m, loc), t)] newResponseCadence = [((m, loc), t), ((m, loc), t)]"
proof -
  let ?m = "zero_monitoring\<lparr>m_ID := ''a'', m_CheckIntervalSeconds := 9223372037\<rparr>"
  have iv: "responseCheckInterval ?m = -9223372036709551616"
    by (simp add: cadence_interval_defs zero_monitoring_def seconds_def wrap64_def)
  have "tryStart ?m loc t starts = (True, map_write (''a:'' @ loc) t starts)"
    if "\<forall>p. map_of starts (''a:'' @ loc) = Some p \<longrightarrow> p = t" for starts
    using that iv
    by (auto simp: tryStart_def Let_def responseDue_def time_sub_def max_duration_def min_duration_def
        zero_monitoring_def split: option.splits)
  moreover have "monitoring_wf ?m"
    by (simp add: monitoring_wf_def zero_monitoring_def int64_range_def)
  ultimately show ?thesis
    using iv by (simp add: Let_def cadence_gate_def newResponseCadence_def)
qed

text \<open>
  An SSL or domain phase runs again exactly when five minutes have passed since it was
  last allowed, and the two phases do not delay each other.
\<close>

lemma auxiliary_phase_cadence:
  "fst (allowAuxiliaryPhase phase now runs) \<longleftrightarrow>
     (case map_of runs phase of None \<Rightarrow> True | Some t \<Rightarrow> t + 300 * 1000000000 \<le> now)"
  by (auto simp: auxiliary.verdict auxiliaryInterval_def go_units time_sub_def max_duration_def
      min_duration_def split: option.splits)

lemma auxiliary_phases_spaced:
  assumes "gate_run allowAuxiliaryPhase polls [] = before @ (phase, t1) # between @ (phase, t2) # after"
  shows "t1 + 300 * 1000000000 \<le> t2"
  using auxiliary.grants_spaced [OF _ assms]
  by (simp add: auxiliaryInterval_def go_units)

lemma auxiliary_phases_independent:
  "filter (\<lambda>(phase, now). phase = p) (gate_run allowAuxiliaryPhase polls []) =
   gate_run allowAuxiliaryPhase (filter (\<lambda>(phase, now). phase = p) polls) []"
  by (rule auxiliary.keys_independent) simp

end
