(* ===== verification/Coordinator.thy ===== *)
theory Coordinator
  imports Go_Prelude
begin

text \<open>
  \<open>internal/application/coordinator.go\<close>: the phases of a run execute concurrently and their
  errors are joined.

  A phase is its name and the error it ends with (\<open>None\<close> for nil). The goroutines send into
  a channel with room for all of them, so the collecting loop sees the results in the order in
  which the phases finish: any rearrangement of the indexed results.
\<close>

record phase_result =
  pr_index :: nat
  pr_name :: string
  pr_err :: "string option"

definition phase_results :: "(string \<times> string option) list \<Rightarrow> phase_result list" where
  "phase_results phases = map (\<lambda>(index, name, err). \<lparr>pr_index = index, pr_name = name, pr_err = err\<rparr>) (enumerate 0 phases)"

definition phase_failure :: "string \<Rightarrow> string \<Rightarrow> string" where
  "phase_failure name err = name @ '' monitoring phase: '' @ err"

fun collect :: "phase_result list \<Rightarrow> string option list \<Rightarrow> string option list" where
  "collect [] failures = failures"
| "collect (result # results) failures =
     (case pr_err result of
        None \<Rightarrow> collect results failures
      | Some err \<Rightarrow> collect results (failures[pr_index result := Some (phase_failure (pr_name result) err)]))"

text \<open>\<open>errors.Join\<close>: nil when every error is nil, otherwise the others, in order.\<close>

definition errors_join :: "string option list \<Rightarrow> string list option" where
  "errors_join errs = (let present = List.map_filter (\<lambda>e. e) errs in if present = [] then None else Some present)"

definition Coordinator_Run :: "(string \<times> string option) list \<Rightarrow> phase_result list \<Rightarrow> string list option" where
  "Coordinator_Run phases finished =
     (if phases = [] then None else errors_join (collect finished (replicate (length phases) None)))"

section \<open>Independence of the finishing order\<close>

definition failure_of :: "string \<times> string option \<Rightarrow> string option" where
  "failure_of phase = map_option (phase_failure (fst phase)) (snd phase)"

lemma collect_length [simp]: "length (collect results failures) = length failures"
  by (induction results failures rule: collect.induct) (auto split: option.split)

lemma collect_nth:
  assumes "k < length failures" "distinct (map pr_index results)"
  shows "collect results failures ! k =
    (case find (\<lambda>r. pr_index r = k) results of
       None \<Rightarrow> failures ! k
     | Some r \<Rightarrow> (case pr_err r of None \<Rightarrow> failures ! k | Some err \<Rightarrow> Some (phase_failure (pr_name r) err)))"
  using assms
proof (induction results arbitrary: failures)
  case (Cons r rs)
  have "find (\<lambda>x. pr_index x = pr_index r) rs = None"
    using Cons.prems(2) by (auto simp: find_None_iff image_iff)
  with Cons show ?case by (auto split: option.split)
qed simp

lemma phase_results_distinct: "distinct (map pr_index (phase_results phases))"
proof -
  have "map pr_index (phase_results phases) = [0..<length phases]"
    by (simp add: phase_results_def comp_def case_prod_unfold)
  then show ?thesis by simp
qed

lemma phase_results_mem:
  "r \<in> set (phase_results phases) \<longleftrightarrow>
   pr_index r < length phases \<and> phases ! pr_index r = (pr_name r, pr_err r)"
proof -
  have "r \<in> set (phase_results phases) \<longleftrightarrow>
      (\<exists>x \<in> set (enumerate 0 phases). r = \<lparr>pr_index = fst x, pr_name = fst (snd x), pr_err = snd (snd x)\<rparr>)"
    by (auto simp: phase_results_def image_iff case_prod_unfold)
  also have "\<dots> \<longleftrightarrow> (pr_index r, pr_name r, pr_err r) \<in> set (enumerate 0 phases)"
    by (cases r) force
  finally show ?thesis by (simp add: in_set_enumerate_eq)
qed

lemma find_distinct: "distinct (map f xs) \<Longrightarrow> x \<in> set xs \<Longrightarrow> find (\<lambda>y. f y = f x) xs = Some x"
  by (induction xs) auto

text \<open>
  The error of a run does not depend on which phase finishes first: for every order in
  which the phases finish it is nil when all of them succeeded, and otherwise the errors of the
  failed phases in the order of the phases; one failing phase never hides another.
\<close>

lemma coordinator_error_deterministic:
  assumes "mset finished = mset (phase_results phases)"
  shows "Coordinator_Run phases finished = errors_join (map failure_of phases)"
proof -
  have dist: "distinct (map pr_index finished)"
  proof -
    have "mset (map pr_index finished) = mset (map pr_index (phase_results phases))" using assms by simp
    from mset_eq_imp_distinct_iff [OF this] phase_results_distinct [of phases] show ?thesis by simp
  qed
  have mem: "set finished = set (phase_results phases)" using assms by (rule mset_eq_setD)
  have "collect finished (replicate (length phases) None) = map failure_of phases"
  proof (rule nth_equalityI)
    fix k assume "k < length (collect finished (replicate (length phases) None))"
    then have k: "k < length phases" by simp
    obtain name err where ph: "phases ! k = (name, err)" by (cases "phases ! k")
    let ?r = "\<lparr>pr_index = k, pr_name = name, pr_err = err\<rparr>"
    have "?r \<in> set finished" using k ph by (simp add: mem phase_results_mem)
    from find_distinct [OF dist this] have "find (\<lambda>r. pr_index r = k) finished = Some ?r" by simp
    with collect_nth [OF _ dist, of k "replicate (length phases) None"] k ph
    show "collect finished (replicate (length phases) None) ! k = map failure_of phases ! k"
      by (simp add: failure_of_def split: option.split)
  qed simp
  then show ?thesis by (simp add: Coordinator_Run_def errors_join_def map_filter_def)
qed

lemma coordinator_error_deterministic_witness:
  "let phases = [(''response'', Some ''boom''), (''SSL'', None), (''domain expiration'', Some ''late'')] in
   Coordinator_Run phases (rev (phase_results phases)) =
     Some [''response monitoring phase: boom'', ''domain expiration monitoring phase: late'']"
  using coordinator_error_deterministic
    [of "rev (phase_results [(''response'', Some ''boom''), (''SSL'', None), (''domain expiration'', Some ''late'')])"
        "[(''response'', Some ''boom''), (''SSL'', None), (''domain expiration'', Some ''late'')]"]
  by (simp add: Let_def errors_join_def failure_of_def phase_failure_def map_filter_def)

end
