(* ===== verification/Runner_Phases.thy ===== *)
theory Runner_Phases
  imports Job_Leases Response_Cadence Coordinator
begin

text \<open>
  The phases of a run that does not use job leases, from \<open>internal/adapters/runner/runner.go\<close>:
  \<open>runResponse\<close>, \<open>runSSL\<close>, \<open>runDomainExpiration\<close>, \<open>executeMonitoring\<close> and
  \<open>RunMonitoring\<close>. A phase fetches its monitorings, feeds the due ones to a worker pool and
  waits for it; the three phases run concurrently under the coordinator.

  A monitoring comes with the clock reading and the random bytes its turn of the feeding loop
  uses. The answer of \<open>GetMonitorings\<close> is the list of these, or an error.
\<close>

section \<open>One monitoring\<close>

definition executeMonitoring ::
    "executor list \<Rightarrow> phase \<Rightarrow> bool \<Rightarrow> duration \<Rightarrow> monitoring \<Rightarrow> effect list \<times> execution \<times> bool" where
  "executeMonitoring registry phase slot elapsed m =
     (if \<not> slot then ([Tel OpStart, Tel (OpFinish phase ''canceled'' elapsed)], empty_execution, False)
      else case Execute registry phase m of
             (execution, supported) \<Rightarrow>
               (let outcome = (if \<not> supported then ''unsupported'' else executionOutcome execution)
                in ([Tel OpStart, Tel (OpFinish phase outcome elapsed)], execution, supported)))"

type_synonym random_bytes = "(nat \<Rightarrow> 8 word) option"

text \<open>What the environment decides while a worker serves one monitoring.\<close>

record check_env =
  ce_now :: instant
  ce_due :: bool
  ce_slot :: bool
  ce_elapsed :: duration
  ce_rand :: random_bytes

definition runCheck :: "executor list \<Rightarrow> phase \<Rightarrow> check_env \<Rightarrow> monitoring \<Rightarrow> effect list" where
  "runCheck registry phase ev m =
     (case executeMonitoring registry phase (ce_slot ev) (ce_elapsed ev) m of
        (es, execution, supported) \<Rightarrow> es @ map Core (fst (publishExecution execution [] (ce_rand ev))))"

definition runResponseCheck :: "executor list \<Rightarrow> check_env \<Rightarrow> monitoring \<Rightarrow> effect list" where
  "runResponseCheck registry ev m =
     (if \<not> ce_due ev then [TryStart m (ce_now ev) False, Tel (OpDrop PhaseResponse ''cadence'')]
      else TryStart m (ce_now ev) True # runCheck registry PhaseResponse ev m)"

definition response_body :: "executor list \<Rightarrow> monitoring \<Rightarrow> effect list \<Rightarrow> bool" where
  "response_body registry m es \<longleftrightarrow> (\<exists>ev. es = runResponseCheck registry ev m)"

definition check_body :: "executor list \<Rightarrow> phase \<Rightarrow> monitoring \<Rightarrow> effect list \<Rightarrow> bool" where
  "check_body registry phase m es \<longleftrightarrow> (\<exists>ev. es = runCheck registry phase ev m)"

section \<open>The feeding loops\<close>

record dispatch_counts =
  dc_dispatched :: nat
  dc_skippedCadence :: nat
  dc_skippedMaintenance :: nat
  dc_skippedUnsupported :: nat

definition zero_counts :: dispatch_counts where
  "zero_counts = \<lparr>dc_dispatched = 0, dc_skippedCadence = 0, dc_skippedMaintenance = 0, dc_skippedUnsupported = 0\<rparr>"

type_synonym feed_input = "monitoring \<times> instant \<times> random_bytes"

definition maintenance_posts :: "phase \<Rightarrow> monitoring \<Rightarrow> random_bytes \<Rightarrow> (monitoring, effect) feed list" where
  "maintenance_posts phase m rand =
     map (\<lambda>c. Emit (Core c)) (fst (publishExecution (maintenanceExecution phase (m_ID m)) [] rand))"

fun responseFeed :: "executor list \<Rightarrow> feed_input list \<Rightarrow> dispatch_counts \<times> (monitoring, effect) feed list" where
  "responseFeed registry [] = (zero_counts, [])"
| "responseFeed registry ((m, now, rand) # ms) =
     (case responseFeed registry ms of
        (c, fs) \<Rightarrow>
          if \<not> Supports registry PhaseResponse (m_Type m)
          then (c\<lparr>dc_skippedUnsupported := dc_skippedUnsupported c + 1\<rparr>, fs)
          else if \<not> responseDue m now then (c\<lparr>dc_skippedCadence := dc_skippedCadence c + 1\<rparr>, fs)
          else if m_MaintenanceActive m
          then (c\<lparr>dc_skippedMaintenance := dc_skippedMaintenance c + 1\<rparr>, maintenance_posts PhaseResponse m rand @ fs)
          else (c\<lparr>dc_dispatched := dc_dispatched c + 1\<rparr>, Emit (Tel OpQueue) # Send m # fs))"

fun sslFeed :: "executor list \<Rightarrow> feed_input list \<Rightarrow> dispatch_counts \<times> (monitoring, effect) feed list" where
  "sslFeed registry [] = (zero_counts, [])"
| "sslFeed registry ((m, now, rand) # ms) =
     (case sslFeed registry ms of
        (c, fs) \<Rightarrow>
          if \<not> Supports registry PhaseSSL (m_Type m)
          then (c\<lparr>dc_skippedUnsupported := dc_skippedUnsupported c + 1\<rparr>, fs)
          else if m_MaintenanceActive m then (c\<lparr>dc_skippedMaintenance := dc_skippedMaintenance c + 1\<rparr>, fs)
          else (c\<lparr>dc_dispatched := dc_dispatched c + 1\<rparr>, Emit (Tel OpQueue) # Send m # fs))"

fun domainFeed :: "executor list \<Rightarrow> feed_input list \<Rightarrow> dispatch_counts \<times> (monitoring, effect) feed list" where
  "domainFeed registry [] = (zero_counts, [])"
| "domainFeed registry ((m, now, rand) # ms) =
     (case domainFeed registry ms of
        (c, fs) \<Rightarrow>
          if \<not> Supports registry PhaseDomainExpiration (m_Type m)
          then (c\<lparr>dc_skippedUnsupported := dc_skippedUnsupported c + 1\<rparr>, fs)
          else if m_MaintenanceActive m
          then (c\<lparr>dc_skippedMaintenance := dc_skippedMaintenance c + 1\<rparr>, maintenance_posts PhaseDomainExpiration m rand @ fs)
          else (c\<lparr>dc_dispatched := dc_dispatched c + 1\<rparr>, Emit (Tel OpQueue) # Send m # fs))"

section \<open>The phases\<close>

text \<open>
  A phase: the effects before its workers start, the pool it then runs to its end (none when
  there is nothing to do) with the counts of its feeding loop, and the error it returns.
\<close>

record phase_start =
  ps_effects :: "effect list"
  ps_pool :: "(dispatch_counts \<times> (monitoring, effect) pool) option"
  ps_err :: "string option"

definition fetch_call :: "config \<Rightarrow> executor list \<Rightarrow> phase \<Rightarrow> effect" where
  "fetch_call cfg registry phase = Core (GetMonitorings (cfg_WebGuardLocation cfg) (Types registry phase))"

definition start_pool ::
    "config \<Rightarrow> dispatch_counts \<times> (monitoring, effect) feed list \<Rightarrow> dispatch_counts \<times> (monitoring, effect) pool" where
  "start_pool cfg cf = (fst cf, new_pool (nat (workerLimit cfg)) (snd cf))"

definition runResponse :: "config \<Rightarrow> executor list \<Rightarrow> string + feed_input list \<Rightarrow> phase_start" where
  "runResponse cfg registry fetched =
     (let fetch = fetch_call cfg registry PhaseResponse
      in case fetched of
           Inl err \<Rightarrow> \<lparr>ps_effects = [fetch], ps_pool = None, ps_err = Some err\<rparr>
         | Inr monitorings \<Rightarrow>
             if monitorings = [] then \<lparr>ps_effects = [fetch], ps_pool = None, ps_err = None\<rparr>
             else \<lparr>ps_effects = [fetch], ps_pool = Some (start_pool cfg (responseFeed registry monitorings)), ps_err = None\<rparr>)"

definition runSSL ::
    "config \<Rightarrow> executor list \<Rightarrow> instant \<Rightarrow> phase_runs \<Rightarrow> string + feed_input list \<Rightarrow> phase_start \<times> phase_runs" where
  "runSSL cfg registry now phaseLastRuns fetched =
     (case allowAuxiliaryPhase PhaseSSL now phaseLastRuns of
        (allowed, phaseLastRuns') \<Rightarrow>
          (if \<not> allowed then \<lparr>ps_effects = [], ps_pool = None, ps_err = None\<rparr>
           else let fetch = fetch_call cfg registry PhaseSSL
                in case fetched of
                     Inl err \<Rightarrow> \<lparr>ps_effects = [fetch], ps_pool = None, ps_err = Some err\<rparr>
                   | Inr monitorings \<Rightarrow>
                       if monitorings = [] then \<lparr>ps_effects = [fetch], ps_pool = None, ps_err = None\<rparr>
                       else \<lparr>ps_effects = [fetch], ps_pool = Some (start_pool cfg (sslFeed registry monitorings)), ps_err = None\<rparr>,
           phaseLastRuns'))"

definition runDomainExpiration ::
    "config \<Rightarrow> executor list \<Rightarrow> instant \<Rightarrow> phase_runs \<Rightarrow> string + feed_input list \<Rightarrow> phase_start \<times> phase_runs" where
  "runDomainExpiration cfg registry now phaseLastRuns fetched =
     (case allowAuxiliaryPhase PhaseDomainExpiration now phaseLastRuns of
        (allowed, phaseLastRuns') \<Rightarrow>
          (if \<not> allowed then \<lparr>ps_effects = [], ps_pool = None, ps_err = None\<rparr>
           else let fetch = fetch_call cfg registry PhaseDomainExpiration
                in case fetched of
                     Inl err \<Rightarrow> \<lparr>ps_effects = [fetch], ps_pool = None, ps_err = Some err\<rparr>
                   | Inr monitorings \<Rightarrow>
                       if monitorings = [] then \<lparr>ps_effects = [fetch], ps_pool = None, ps_err = None\<rparr>
                       else \<lparr>ps_effects = [fetch], ps_pool = Some (start_pool cfg (domainFeed registry monitorings)), ps_err = None\<rparr>,
           phaseLastRuns'))"

text \<open>The effects of a phase that has returned, under some schedule of its workers.\<close>

definition phase_trace :: "(monitoring \<Rightarrow> effect list \<Rightarrow> bool) \<Rightarrow> phase_start \<Rightarrow> effect list \<Rightarrow> bool" where
  "phase_trace body p tr \<longleftrightarrow>
     (case ps_pool p of
        None \<Rightarrow> tr = ps_effects p
      | Some (counts, pool) \<Rightarrow> \<exists>s. pool_run body pool s \<and> pool_done s \<and> tr = ps_effects p @ p_trace s)"

section \<open>A run\<close>

text \<open>What Core answers and the clock shows to the phases of one run.\<close>

record run_inputs =
  ri_claimed :: "string + claimed_job list"
  ri_response :: "string + feed_input list"
  ri_ssl :: "string + feed_input list"
  ri_domain :: "string + feed_input list"
  ri_nowSSL :: instant
  ri_nowDomain :: instant
  ri_phaseLastRuns :: phase_runs

definition claimed_trace :: "config \<Rightarrow> executor list \<Rightarrow> string + claimed_job list \<Rightarrow> effect list \<Rightarrow> bool" where
  "claimed_trace cfg registry claimed tr \<longleftrightarrow>
     (case runClaimedJobs cfg (case claimed of Inl err \<Rightarrow> None | Inr jobs \<Rightarrow> Some jobs) of
        (es, None) \<Rightarrow> tr = es
      | (es, Some pool) \<Rightarrow> \<exists>s. pool_run (claimed_body cfg registry) pool s \<and> pool_done s \<and> tr = es @ p_trace s)"

text \<open>
  The effects of \<open>RunMonitoring\<close>: a claimed batch, or the three phases side by side, which
  share nothing but the telemetry, the client and the schedule of the auxiliary phases, where
  each reads and writes its own entry.
\<close>

definition RunMonitoring_trace :: "config \<Rightarrow> executor list \<Rightarrow> run_inputs \<Rightarrow> effect list \<Rightarrow> bool" where
  "RunMonitoring_trace cfg registry i tr \<longleftrightarrow>
     (if cfg_JobLeasesEnabled cfg then claimed_trace cfg registry (ri_claimed i) tr
      else \<exists>tr1 tr2 tr3.
        phase_trace (response_body registry) (runResponse cfg registry (ri_response i)) tr1 \<and>
        phase_trace (check_body registry PhaseSSL) (fst (runSSL cfg registry (ri_nowSSL i) (ri_phaseLastRuns i) (ri_ssl i))) tr2 \<and>
        phase_trace (check_body registry PhaseDomainExpiration)
          (fst (runDomainExpiration cfg registry (ri_nowDomain i) (ri_phaseLastRuns i) (ri_domain i))) tr3 \<and>
        interleaves [tr1, tr2, tr3] tr)"

text \<open>Its error, for the order in which the phases finish.\<close>

definition RunMonitoring_err :: "config \<Rightarrow> executor list \<Rightarrow> run_inputs \<Rightarrow> phase_result list \<Rightarrow> string list option" where
  "RunMonitoring_err cfg registry i finished =
     (if cfg_JobLeasesEnabled cfg then (case ri_claimed i of Inl err \<Rightarrow> Some [err] | Inr jobs \<Rightarrow> None)
      else Coordinator_Run
        [(''response'', ps_err (runResponse cfg registry (ri_response i))),
         (''SSL'', ps_err (fst (runSSL cfg registry (ri_nowSSL i) (ri_phaseLastRuns i) (ri_ssl i)))),
         (''domain expiration'',
          ps_err (fst (runDomainExpiration cfg registry (ri_nowDomain i) (ri_phaseLastRuns i) (ri_domain i))))]
        finished)"

section \<open>What is dispatched\<close>

lemma publish_pool_facts [simp]:
  "sends (maintenance_posts phase m rand @ fs) = sends fs"
  "pending (maintenance_posts phase m rand @ fs) = pending fs"
  "feed_ok (maintenance_posts phase m rand @ fs) = feed_ok fs"
proof -
  have "sends (map (\<lambda>c. Emit (Core c)) cs @ fs) = sends fs \<and> pending (map (\<lambda>c. Emit (Core c)) cs @ fs) = pending fs \<and>
      feed_ok (map (\<lambda>c. Emit (Core c)) cs @ fs) = feed_ok fs" for cs :: "core_call list" and fs :: "(monitoring, effect) feed list"
    by (induction cs) auto
  then show "sends (maintenance_posts phase m rand @ fs) = sends fs"
    "pending (maintenance_posts phase m rand @ fs) = pending fs"
    "feed_ok (maintenance_posts phase m rand @ fs) = feed_ok fs"
    by (simp_all add: maintenance_posts_def)
qed

lemma maintenance_posts_length: "length (maintenance_posts phase m rand) \<le> Suc 0"
  by (simp add: maintenance_posts_def publishExecution_def maintenanceExecution_def empty_execution_def responseExecution_def
      responseExecutionWithObservation_def setExecutionIdempotencyKey_def opt_call_def Let_def split: sum.split)

lemma maintenance_feed_length [simp]:
  "length fs \<le> 2 * n \<Longrightarrow> length (maintenance_posts phase m rand) + length fs \<le> Suc (Suc (2 * n))"
  using maintenance_posts_length [of phase m rand] by linarith

definition response_ready :: "executor list \<Rightarrow> feed_input \<Rightarrow> bool" where
  "response_ready registry x \<longleftrightarrow>
     Supports registry PhaseResponse (m_Type (fst x)) \<and> responseDue (fst x) (fst (snd x)) \<and> \<not> m_MaintenanceActive (fst x)"

definition phase_ready :: "executor list \<Rightarrow> phase \<Rightarrow> feed_input \<Rightarrow> bool" where
  "phase_ready registry phase x \<longleftrightarrow> Supports registry phase (m_Type (fst x)) \<and> \<not> m_MaintenanceActive (fst x)"

definition counted :: "dispatch_counts \<Rightarrow> nat" where
  "counted c = dc_dispatched c + dc_skippedCadence c + dc_skippedMaintenance c + dc_skippedUnsupported c"

lemmas feed_facts = counted_def zero_counts_def response_ready_def phase_ready_def

lemma responseFeed_facts:
  "case responseFeed registry ms of (c, fs) \<Rightarrow>
     sends fs = map fst (filter (response_ready registry) ms) \<and> dc_dispatched c = length (sends fs) \<and>
     counted c = length ms \<and> feed_ok fs \<and> pending fs = 0 \<and> length fs \<le> 2 * length ms"
proof (induction ms)
  case (Cons x ms)
  obtain m now rand where "x = (m, now, rand)" by (cases x)
  with Cons show ?case by (auto simp: feed_facts split: prod.splits)
qed (simp add: feed_facts)

lemma sslFeed_facts:
  "case sslFeed registry ms of (c, fs) \<Rightarrow>
     sends fs = map fst (filter (phase_ready registry PhaseSSL) ms) \<and> dc_dispatched c = length (sends fs) \<and>
     counted c = length ms \<and> feed_ok fs \<and> pending fs = 0 \<and> length fs \<le> 2 * length ms"
proof (induction ms)
  case (Cons x ms)
  obtain m now rand where "x = (m, now, rand)" by (cases x)
  with Cons show ?case by (auto simp: feed_facts split: prod.splits)
qed (simp add: feed_facts)

lemma domainFeed_facts:
  "case domainFeed registry ms of (c, fs) \<Rightarrow>
     sends fs = map fst (filter (phase_ready registry PhaseDomainExpiration) ms) \<and> dc_dispatched c = length (sends fs) \<and>
     counted c = length ms \<and> feed_ok fs \<and> pending fs = 0 \<and> length fs \<le> 2 * length ms"
proof (induction ms)
  case (Cons x ms)
  obtain m now rand where "x = (m, now, rand)" by (cases x)
  with Cons show ?case by (auto simp: feed_facts split: prod.splits)
qed (simp add: feed_facts)

text \<open>Maintenance is announced in the feeding loop, for the due monitorings in maintenance only.\<close>

definition response_announced :: "executor list \<Rightarrow> feed_input \<Rightarrow> bool" where
  "response_announced registry x \<longleftrightarrow>
     Supports registry PhaseResponse (m_Type (fst x)) \<and> responseDue (fst x) (fst (snd x)) \<and> m_MaintenanceActive (fst x)"

definition announcement :: "phase \<Rightarrow> feed_input \<Rightarrow> core_call list" where
  "announcement phase x = fst (publishExecution (maintenanceExecution phase (m_ID (fst x))) [] (snd (snd x)))"

lemma responseFeed_emits:
  "core_calls (emits (snd (responseFeed registry ms))) =
     concat (map (announcement PhaseResponse) (filter (response_announced registry) ms))"
proof (induction ms)
  case (Cons x ms)
  have e: "core_calls (emits (map (\<lambda>c. Emit (Core c)) cs @ fs)) = cs @ core_calls (emits fs)"
    for cs and fs :: "(monitoring, effect) feed list"
    by (induction cs) auto
  obtain m now rand where x: "x = (m, now, rand)" by (cases x)
  obtain c fs where "responseFeed registry ms = (c, fs)" by (cases "responseFeed registry ms")
  with Cons x show ?case
    by (simp add: e maintenance_posts_def announcement_def response_announced_def)
qed simp

text \<open>Every check moves the gauges like one job.\<close>

lemma runCheck_life: "one_life (gauge_ops (runCheck registry phase ev m))"
  by (auto simp: runCheck_def executeMonitoring_def Let_def publish_gauges split: prod.splits)

lemma response_body_life: "response_body registry m es \<Longrightarrow> one_life (gauge_ops es)"
  by (auto simp: response_body_def runResponseCheck_def runCheck_life)

lemma check_body_life: "check_body registry phase m es \<Longrightarrow> one_life (gauge_ops es)"
  by (auto simp: check_body_def runCheck_life)

lemma bodies_total: "\<exists>es. response_body registry m es" "\<exists>es. check_body registry phase m es"
  by (auto simp: response_body_def check_body_def)

text \<open>
  C13. When the response phase returns, under every schedule of its workers, exactly the
  supported, due monitorings outside maintenance have been handed to a worker, each once and
  in the order Core listed them; the logged counts account for every monitoring; and the
  phase always returns: no schedule is endless or stuck.
\<close>

lemma response_phase_dispatches_once:
  assumes "runResponse cfg registry (Inr ms) = p" "ps_pool p = Some (counts, pool)"
    "pool_run (response_body registry) pool s"
  shows "ps_err p = None \<and> counted counts = length ms \<and>
    dc_dispatched counts = length (filter (response_ready registry) ms) \<and>
    (\<exists>t. pool_run (response_body registry) s t \<and> pool_done t) \<and>
    ((\<nexists>t. pool_step (response_body registry) s t) \<longrightarrow> pool_done s) \<and> wfP (\<lambda>s' s. pool_step (response_body registry) s s') \<and>
    (pool_done s \<longrightarrow> p_taken s = map fst (filter (response_ready registry) ms) \<and>
       (\<exists>ess. list_all2 (response_body registry) (p_taken s) ess \<and>
          interleaves (emits (snd (responseFeed registry ms)) # ess) (p_trace s)))"
proof -
  obtain c fs where f: "responseFeed registry ms = (c, fs)" by (cases "responseFeed registry ms")
  have p: "ps_err p = None" "counts = c" "pool = new_pool (nat (workerLimit cfg)) fs"
    using assms(1,2) f by (auto simp: runResponse_def start_pool_def Let_def split: if_splits)
  have "0 < nat (workerLimit cfg)" using workerLimit_pos [of cfg] by simp
  from pool_serves_each_job_once [OF this _ assms(3) [unfolded p(3)]] bodies_total responseFeed_facts [of registry ms] f p
  show ?thesis by auto
qed

lemma response_phase_dispatches_once_witness:
  "\<forall>c. let due = zero_monitoring\<lparr>m_ID := ''a'', m_Type := TypeHTTP\<rparr>;
        paused = zero_monitoring\<lparr>m_ID := ''b'', m_Type := TypeHTTP, m_MaintenanceActive := True\<rparr>;
        registry = newExecutorRegistry c
    in \<exists>p counts pool s. runResponse sample_config registry (Inr [(paused, 5, None), (due, 7, None)]) = p \<and>
         ps_pool p = Some (counts, pool) \<and> pool_run (response_body registry) pool s \<and> pool_done s \<and>
         p_taken s = [due] \<and> counted counts = 2 \<and> dc_dispatched counts = 1"
proof
  fix c
  let ?r = "newExecutorRegistry c"
  let ?a = "zero_monitoring\<lparr>m_ID := ''a'', m_Type := TypeHTTP\<rparr>"
  let ?b = "zero_monitoring\<lparr>m_ID := ''b'', m_Type := TypeHTTP, m_MaintenanceActive := True\<rparr>"
  let ?ms = "[(?b, 5, None), (?a, 7, None)] :: feed_input list"
  obtain counts pool where p: "ps_pool (runResponse sample_config ?r (Inr ?ms)) = Some (counts, pool)"
    "pool = new_pool (nat (workerLimit sample_config)) (snd (responseFeed ?r ?ms))"
    by (simp add: runResponse_def Let_def start_pool_def)
  have "0 < nat (workerLimit sample_config)" using workerLimit_pos [of sample_config] by simp
  from new_pool_reaches_done [OF this, of "response_body ?r"] bodies_total(1) p(2)
  obtain s where s: "pool_run (response_body ?r) pool s" "pool_done s" by metis
  have ready: "filter (response_ready ?r) ?ms = [(?a, 7, None)]"
    by (simp add: response_ready_def responseDue_def zero_monitoring_def registry_coverage phase_defs mon_type_defs)
  from response_phase_dispatches_once [OF refl p(1) s(1)] s(2)
  have "p_taken s = map fst (filter (response_ready ?r) ?ms)" "counted counts = length ?ms"
    "dc_dispatched counts = length (filter (response_ready ?r) ?ms)" by blast+
  then have "p_taken s = [?a]" "counted counts = 2" "dc_dispatched counts = 1" unfolding ready by simp_all
  with p(1) s show "let due = ?a; paused = ?b; registry = ?r
    in \<exists>p counts pool s. runResponse sample_config registry (Inr [(paused, 5, None), (due, 7, None)]) = p \<and>
         ps_pool p = Some (counts, pool) \<and> pool_run (response_body registry) pool s \<and> pool_done s \<and>
         p_taken s = [due] \<and> counted counts = 2 \<and> dc_dispatched counts = 1"
    unfolding Let_def by blast
qed

section \<open>The gauges after a run\<close>

definition feed_fits :: "config \<Rightarrow> int \<Rightarrow> (dispatch_counts \<times> (monitoring, effect) pool) option \<Rightarrow> bool" where
  "feed_fits cfg b p \<longleftrightarrow>
     p = None \<or> (\<exists>cf. p = Some (start_pool cfg cf) \<and> feed_ok (snd cf) \<and> pending (snd cf) = 0 \<and> int (length (snd cf)) \<le> b)"

lemma feed_fitsI:
  "feed_ok (snd cf) \<Longrightarrow> pending (snd cf) = 0 \<Longrightarrow> int (length (snd cf)) \<le> b \<Longrightarrow> feed_fits cfg b (Some (start_pool cfg cf))"
  unfolding feed_fits_def by blast

lemma feed_fits_None [simp]: "feed_fits cfg b None"
  by (simp add: feed_fits_def)

lemma phase_quiet:
  assumes "phase_trace body p tr" "\<And>j es. body j es \<Longrightarrow> one_life (gauge_ops es)" "gauge_ops (ps_effects p) = []"
    "feed_fits cfg b (ps_pool p)"
    "0 \<le> b"
  shows "quiet (b + workerLimit cfg) tr"
proof (cases "ps_pool p")
  case None
  with assms workerLimit_pos [of cfg] show ?thesis by (intro quiet_still) (auto simp: phase_trace_def)
next
  case (Some x)
  with assms(4) obtain c fs where f: "x = start_pool cfg (c, fs)" "feed_ok fs" "pending fs = 0" "int (length fs) \<le> b"
    by (auto simp: feed_fits_def)
  with Some assms(1) obtain s where s: "pool_run body (new_pool (nat (workerLimit cfg)) fs) s" "pool_done s"
    "tr = ps_effects p @ p_trace s"
    by (auto simp: phase_trace_def start_pool_def)
  have "quiet (int (length fs) + int (nat (workerLimit cfg))) tr"
    unfolding s(3) by (rule pool_quiet [OF s(1,2) f(2) assms(2)]) (use f assms(3) in auto)
  with f(4) workerLimit_pos [of cfg] show ?thesis by (auto elim: quiet_weaken)
qed

definition inputs_of :: "string + 'a list \<Rightarrow> int" where
  "inputs_of x = (case x of Inl err \<Rightarrow> 0 | Inr xs \<Rightarrow> int (length xs))"

lemma response_pool: "feed_fits cfg (2 * inputs_of x) (ps_pool (runResponse cfg registry x))"
  using responseFeed_facts [of registry "projr x"]
  by (cases x) (auto simp: runResponse_def Let_def inputs_of_def case_prod_unfold intro!: feed_fitsI)

lemma ssl_pool: "feed_fits cfg (2 * inputs_of x) (ps_pool (fst (runSSL cfg registry now runs x)))"
  using sslFeed_facts [of registry "projr x"]
  by (cases x) (auto simp: runSSL_def Let_def inputs_of_def case_prod_unfold intro!: feed_fitsI)

lemma domain_pool: "feed_fits cfg (2 * inputs_of x) (ps_pool (fst (runDomainExpiration cfg registry now runs x)))"
  using domainFeed_facts [of registry "projr x"]
  by (cases x) (auto simp: runDomainExpiration_def Let_def inputs_of_def case_prod_unfold intro!: feed_fitsI)

lemma phase_effects_still:
  "gauge_ops (ps_effects (runResponse cfg registry x)) = []"
  "gauge_ops (ps_effects (fst (runSSL cfg registry now runs x))) = []"
  "gauge_ops (ps_effects (fst (runDomainExpiration cfg registry now runs x))) = []"
  by (auto simp: runResponse_def runSSL_def runDomainExpiration_def fetch_call_def Let_def split: sum.split prod.split)

lemma claimed_quiet:
  assumes "claimed_trace cfg registry x tr"
  shows "quiet (2 * inputs_of x + workerLimit cfg) tr"
proof (cases "\<exists>jobs es pool. x = Inr jobs \<and> runClaimedJobs cfg (Some jobs) = (es, Some pool)")
  case True
  then obtain jobs es pool where r: "x = Inr jobs" "runClaimedJobs cfg (Some jobs) = (es, Some pool)" by blast
  let ?js = "snd (admitJobs {} jobs)"
  let ?n = "nat (min (workerLimit cfg) (int (length ?js)))"
  have pool: "pool = new_pool ?n (map Send ?js)"
    and es: "es = Core (ClaimMonitoringJobs (claimRequest cfg)) # fst (admitJobs {} jobs)"
    using runClaimedJobs_pool [OF r(2)] by auto
  from assms r obtain s where s: "pool_run (claimed_body cfg registry) pool s" "pool_done s" "tr = es @ p_trace s"
    by (auto simp: claimed_trace_def)
  have "quiet (int (length (map Send ?js :: (claimed_job, effect) feed list)) + int ?n) tr"
    unfolding s(3) es
    by (rule pool_quiet [OF s(1) [unfolded pool] s(2)]) (auto simp: admit_queues claimed_body_life)
  moreover have "length ?js \<le> length jobs" using admit_subseq by (rule list_emb_length)
  ultimately show ?thesis using r(1) workerLimit_pos [of cfg] by (auto simp: inputs_of_def elim!: quiet_weaken)
next
  case False
  then have "gauge_ops tr = []"
    using assms by (auto simp: claimed_trace_def runClaimedJobs_def admit_nonempty Let_def case_prod_unfold
        split: sum.splits if_splits)
  then show ?thesis using workerLimit_pos [of cfg] by (intro quiet_still) (auto simp: inputs_of_def split: sum.split)
qed

text \<open>
  C11. A run leaves no trace in the gauges, with leases or without: when it returns,
  \<open>jobsQueued\<close> and \<open>jobsActive\<close> are what they were before, under every schedule of
  the phases and their workers and on every error path (fetch errors, cadence drops, invalid,
  expired, canceled, failed and completed jobs alike), while the counts fit an \<open>int64\<close>.
\<close>

lemma run_restores_gauges:
  assumes "RunMonitoring_trace cfg registry i tr" "0 \<le> t_jobsQueued t" "0 \<le> t_jobsActive t"
    "b = 2 * (inputs_of (ri_claimed i) + inputs_of (ri_response i) + inputs_of (ri_ssl i) + inputs_of (ri_domain i)) +
         3 * workerLimit cfg"
    "t_jobsQueued t + b < 2 ^ 63" "t_jobsActive t + b < 2 ^ 63"
  shows "t_jobsQueued (apply_ops (tel_ops tr) t) = t_jobsQueued t \<and> t_jobsActive (apply_ops (tel_ops tr) t) = t_jobsActive t"
proof -
  have nonneg: "0 \<le> inputs_of x" for x :: "string + 'a list" by (auto simp: inputs_of_def split: sum.split)
  have nonneg': "0 \<le> inputs_of x" for x :: "string + claimed_job list" by (auto simp: inputs_of_def split: sum.split)
  have "quiet b tr"
  proof (cases "cfg_JobLeasesEnabled cfg")
    case True
    then have "quiet (2 * inputs_of (ri_claimed i) + workerLimit cfg) tr"
      using assms(1) by (intro claimed_quiet) (auto simp: RunMonitoring_trace_def)
    then show ?thesis
      using assms(4) nonneg [of "ri_response i"] nonneg [of "ri_ssl i"] nonneg [of "ri_domain i"] workerLimit_pos [of cfg]
      by (auto elim!: quiet_weaken)
  next
    case False
    with assms(1) obtain tr1 tr2 tr3 where tr: "interleaves [tr1, tr2, tr3] tr" and
      ph: "phase_trace (response_body registry) (runResponse cfg registry (ri_response i)) tr1"
        "phase_trace (check_body registry PhaseSSL) (fst (runSSL cfg registry (ri_nowSSL i) (ri_phaseLastRuns i) (ri_ssl i))) tr2"
        "phase_trace (check_body registry PhaseDomainExpiration)
           (fst (runDomainExpiration cfg registry (ri_nowDomain i) (ri_phaseLastRuns i) (ri_domain i))) tr3"
      by (auto simp: RunMonitoring_trace_def)
    have "quiet (2 * inputs_of (ri_response i) + workerLimit cfg) tr1"
      by (rule phase_quiet [OF ph(1) response_body_life phase_effects_still(1) response_pool]) (simp_all add: nonneg)
    moreover have "quiet (2 * inputs_of (ri_ssl i) + workerLimit cfg) tr2"
      by (rule phase_quiet [OF ph(2) check_body_life phase_effects_still(2) ssl_pool]) (simp_all add: nonneg)
    moreover have "quiet (2 * inputs_of (ri_domain i) + workerLimit cfg) tr3"
      by (rule phase_quiet [OF ph(3) check_body_life phase_effects_still(3) domain_pool]) (simp_all add: nonneg)
    ultimately have "quiet (sum_list [2 * inputs_of (ri_response i) + workerLimit cfg,
        2 * inputs_of (ri_ssl i) + workerLimit cfg, 2 * inputs_of (ri_domain i) + workerLimit cfg]) tr"
      by (intro quiet_interleaves [OF tr]) simp
    then show ?thesis using assms(4) nonneg' [of "ri_claimed i"] by (auto elim!: quiet_weaken)
  qed
  from quiet_gauges [OF this assms(2,3,5,6)] show ?thesis .
qed

lemma phase_trace_exists:
  assumes "\<And>m. \<exists>es. body m es" "feed_fits cfg b (ps_pool p)"
  shows "\<exists>tr. phase_trace body p tr"
proof (cases "ps_pool p")
  case (Some x)
  then obtain c fs where "ps_pool p = Some (c, new_pool (nat (workerLimit cfg)) fs)"
    using assms(2) by (auto simp: feed_fits_def start_pool_def)
  moreover have "0 < nat (workerLimit cfg)" using workerLimit_pos [of cfg] by simp
  ultimately show ?thesis using new_pool_reaches_done [of _ body fs] assms(1) by (fastforce simp: phase_trace_def)
qed (simp add: phase_trace_def)

text \<open>Every run of \<open>RunMonitoring\<close> without leases can return.\<close>

lemma run_trace_exists:
  assumes "\<not> cfg_JobLeasesEnabled cfg"
  shows "\<exists>tr. RunMonitoring_trace cfg registry i tr"
proof -
  obtain tr1 where "phase_trace (response_body registry) (runResponse cfg registry (ri_response i)) tr1"
    using phase_trace_exists [of "response_body registry", OF bodies_total(1) response_pool] by blast
  moreover obtain tr2 where
    "phase_trace (check_body registry PhaseSSL) (fst (runSSL cfg registry (ri_nowSSL i) (ri_phaseLastRuns i) (ri_ssl i))) tr2"
    using phase_trace_exists [of "check_body registry PhaseSSL", OF bodies_total(2) ssl_pool] by blast
  moreover obtain tr3 where "phase_trace (check_body registry PhaseDomainExpiration)
      (fst (runDomainExpiration cfg registry (ri_nowDomain i) (ri_phaseLastRuns i) (ri_domain i))) tr3"
    using phase_trace_exists [of "check_body registry PhaseDomainExpiration", OF bodies_total(2) domain_pool] by blast
  moreover obtain tr where "interleaves [tr1, tr2, tr3] tr" using interleaves_some by blast
  ultimately show ?thesis using assms by (auto simp: RunMonitoring_trace_def)
qed

definition sample_inputs :: run_inputs where
  "sample_inputs = \<lparr>ri_claimed = Inl ''off'',
     ri_response = Inr [(zero_monitoring\<lparr>m_ID := ''a'', m_Type := TypeHTTP\<rparr>, 7, None)],
     ri_ssl = Inr [(zero_monitoring\<lparr>m_ID := ''a'', m_Type := TypeHTTP\<rparr>, 8, None)], ri_domain = Inl ''down'',
     ri_nowSSL = 6, ri_nowDomain = 6, ri_phaseLastRuns = []\<rparr>"

lemma run_restores_gauges_witness:
  "\<forall>c. \<exists>tr. RunMonitoring_trace sample_config (newExecutorRegistry c) sample_inputs tr \<and>
     t_jobsActive (apply_ops (tel_ops tr) NewTelemetry) = 0"
proof
  fix c
  have trim_nil: "trim_space [] = []" by code_simp
  have cfg: "\<not> cfg_JobLeasesEnabled sample_config" "workerLimit sample_config = 3"
    by (simp_all add: sample_config_def FromEnv_def envBool_def workerLimit_def envInt_def clamp_def Let_def
        maxQueueWorkers_def maxRunConcurrency_def to_lower.simps trim_nil)
  obtain tr where tr: "RunMonitoring_trace sample_config (newExecutorRegistry c) sample_inputs tr"
    using run_trace_exists [OF cfg(1)] by blast
  from run_restores_gauges [OF tr _ _ refl, of NewTelemetry] cfg(2)
  have "t_jobsActive (apply_ops (tel_ops tr) NewTelemetry) = t_jobsActive NewTelemetry"
    by (simp add: NewTelemetry_def sample_inputs_def inputs_of_def)
  with tr show "\<exists>tr. RunMonitoring_trace sample_config (newExecutorRegistry c) sample_inputs tr \<and>
     t_jobsActive (apply_ops (tel_ops tr) NewTelemetry) = 0"
    by (auto simp: NewTelemetry_def)
qed

section \<open>Checks and the shared cadence\<close>

text \<open>
  The workers of all runs share one cadence. A history of effects agrees with it when every
  attempt to start a check got the verdict \<open>tryStart\<close> gives at that point.
\<close>

fun cadence_agrees :: "string \<Rightarrow> cadence \<Rightarrow> effect list \<Rightarrow> bool" where
  "cadence_agrees location starts [] = True"
| "cadence_agrees location starts (TryStart m now v # es) =
     (case tryStart m location now starts of (v', starts') \<Rightarrow> v = v' \<and> cadence_agrees location starts' es)"
| "cadence_agrees location starts (e # es) = cadence_agrees location starts es"

fun granted_starts :: "effect list \<Rightarrow> (monitoring \<times> instant) list" where
  "granted_starts [] = []"
| "granted_starts (TryStart m now True # es) = (m, now) # granted_starts es"
| "granted_starts (e # es) = granted_starts es"

fun start_polls :: "string \<Rightarrow> effect list \<Rightarrow> ((monitoring \<times> string) \<times> instant) list" where
  "start_polls location [] = []"
| "start_polls location (TryStart m now v # es) = ((m, location), now) # start_polls location es"
| "start_polls location (e # es) = start_polls location es"

lemma agreed_starts:
  "cadence_agrees location starts es \<Longrightarrow>
   gate_run cadence_gate (start_polls location es) starts = map (\<lambda>(m, now). ((m, location), now)) (granted_starts es)"
proof (induction location starts es rule: cadence_agrees.induct)
  case (2 location starts m now v es)
  then show ?case by (cases v) (auto simp: cadence_gate_def split: prod.splits)
qed simp_all

definition start_balance :: "effect \<Rightarrow> int" where
  "start_balance e = (case e of Tel x \<Rightarrow> if x = OpStart then 1 else 0 | TryStart m now v \<Rightarrow> if v then -1 else 0 | _ \<Rightarrow> 0)"

lemma start_balance_simps [simp]:
  "start_balance (Tel x) = (if x = OpStart then 1 else 0)" "start_balance (Core c) = 0"
  "start_balance (TryStart m now v) = (if v then -1 else 0)"
  by (simp_all add: start_balance_def)

lemma start_balance_counts:
  "net start_balance es = int (length (filter (\<lambda>x. x = OpStart) (tel_ops es))) - int (length (granted_starts es))"
  by (induction es rule: granted_starts.induct) auto

lemma start_balance_core: "net start_balance (map Core cs) = 0"
  by (induction cs) auto

lemma start_balance_body: "response_body registry m es \<Longrightarrow> net start_balance es = 0"
  by (auto simp: response_body_def runResponseCheck_def runCheck_def executeMonitoring_def Let_def start_balance_core
      split: prod.splits)

lemma start_balance_feed: "net start_balance (emits (snd (responseFeed registry ms))) = 0"
proof (induction ms)
  case (Cons x ms)
  have e: "net start_balance (emits (map (\<lambda>c. Emit (Core c)) cs @ fs)) = net start_balance (emits fs)"
    for cs and fs :: "(monitoring, effect) feed list"
    by (induction cs) auto
  obtain m now rand where x: "x = (m, now, rand)" by (cases x)
  obtain c fs where "responseFeed registry ms = (c, fs)" by (cases "responseFeed registry ms")
  with Cons x show ?case by (simp add: e maintenance_posts_def)
qed simp

lemma start_balance_phase:
  assumes "phase_trace (response_body registry) (runResponse cfg registry fetched) tr"
  shows "net start_balance tr = 0"
proof (cases "ps_pool (runResponse cfg registry fetched)")
  case None
  with assms show ?thesis
    by (auto simp: phase_trace_def runResponse_def Let_def fetch_call_def split: sum.splits if_splits)
next
  case (Some x)
  then obtain ms where ms: "fetched = Inr ms" "x = start_pool cfg (responseFeed registry ms)"
    "ps_effects (runResponse cfg registry fetched) = [fetch_call cfg registry PhaseResponse]"
    by (auto simp: runResponse_def Let_def split: sum.splits if_splits)
  from assms Some obtain s where s: "pool_run (response_body registry) (snd x) s" "pool_done s"
    "tr = fetch_call cfg registry PhaseResponse # p_trace s"
    by (auto simp: phase_trace_def ms(3) split: prod.splits)
  have "0 < nat (workerLimit cfg)" using workerLimit_pos [of cfg] by simp
  from pool_serves_each_job_once [OF this, of "response_body registry" "snd (responseFeed registry ms)" s] s ms(2)
  obtain ess where b: "list_all2 (response_body registry) (sends (snd (responseFeed registry ms))) ess"
    "interleaves (emits (snd (responseFeed registry ms)) # ess) (p_trace s)"
    by (auto simp: start_pool_def bodies_total)
  from b(1) have "(\<Sum>es\<leftarrow>ess. net start_balance es) = 0"
    by (induction rule: list_all2_induct) (auto simp: start_balance_body)
  with net_interleaves [OF b(2), of start_balance] start_balance_feed s(3) show ?thesis by (simp add: fetch_call_def)
qed

lemma nth_split2:
  assumes "i < j" "j < length xs"
  shows "\<exists>before between after. xs = before @ xs ! i # between @ xs ! j # after"
proof -
  have "xs = take j xs @ xs ! j # drop (Suc j) xs" using assms(2) by (rule id_take_nth_drop)
  moreover have "take j xs = take i (take j xs) @ take j xs ! i # drop (Suc i) (take j xs)"
    using assms by (intro id_take_nth_drop) simp
  ultimately show ?thesis using assms(1) by (metis append.assoc append_Cons nth_take)
qed

text \<open>
  C12. Over any sequence of runs of the response phase, the phase of a worker that does not
  use job leases, a response check is started only when the shared cadence granted it: as many
  checks start as starts were granted, and two grants of one monitoring are at least the interval
  of the later one apart, whichever workers asked and in whatever order their clock readings were
  taken. This is for intervals of at most 9223372036 seconds, about 292 years: a longer one
  overflows (see \<open>Response_Cadence\<close>). The checks of leased jobs are not under the cadence;
  their timing is up to Core, which hands the jobs out.
\<close>

lemma response_starts_respect_cadence:
  assumes "\<forall>tr \<in> set trs. \<exists>fetched. phase_trace (response_body registry) (runResponse cfg registry fetched) tr"
    "cadence_agrees (cfg_WebGuardLocation cfg) newResponseCadence (concat trs)"
    "\<forall>m now v. TryStart m now v \<in> set (concat trs) \<longrightarrow> m_CheckIntervalSeconds m \<le> 9223372036"
    "starts = granted_starts (concat trs)"
  shows "length (filter (\<lambda>x. x = OpStart) (tel_ops (concat trs))) = length starts \<and>
    (\<forall>i j. i < j \<and> j < length starts \<and> m_ID (fst (starts ! i)) = m_ID (fst (starts ! j)) \<longrightarrow>
       responseCheckInterval (fst (starts ! j)) \<le> snd (starts ! j) - snd (starts ! i))"
proof
  have "net start_balance (concat trs) = 0"
    using assms(1) start_balance_phase by (induction trs) fastforce+
  then show "length (filter (\<lambda>x. x = OpStart) (tel_ops (concat trs))) = length starts"
    by (simp add: start_balance_counts assms(4))
next
  let ?loc = "cfg_WebGuardLocation cfg"
  let ?f = "\<lambda>(m, now). ((m, ?loc), now)"
  have run: "gate_run cadence_gate (start_polls ?loc (concat trs)) newResponseCadence = map ?f starts"
    using agreed_starts [OF assms(2)] assms(4) by simp
  have polls: "((m, loc), now) \<in> set (start_polls ?loc es) \<Longrightarrow> \<exists>v. TryStart m now v \<in> set es" for m loc now es
    by (induction ?loc es rule: start_polls.induct) auto
  have ok: "((m, loc), now) \<in> set (start_polls ?loc (concat trs)) \<Longrightarrow> m_CheckIntervalSeconds m \<le> 9223372036" for m loc now
    using polls assms(3) by blast
  show "\<forall>i j. i < j \<and> j < length starts \<and> m_ID (fst (starts ! i)) = m_ID (fst (starts ! j)) \<longrightarrow>
      responseCheckInterval (fst (starts ! j)) \<le> snd (starts ! j) - snd (starts ! i)"
  proof (intro allI impI)
    fix i j assume ij: "i < j \<and> j < length starts \<and> m_ID (fst (starts ! i)) = m_ID (fst (starts ! j))"
    then obtain before between after where "starts = before @ starts ! i # between @ starts ! j # after"
      using nth_split2 by blast
    then have "map ?f starts = map ?f before @ ((fst (starts ! i), ?loc), snd (starts ! i)) # map ?f between @
        ((fst (starts ! j), ?loc), snd (starts ! j)) # map ?f after"
      by (metis (no_types, lifting) case_prod_beta list.simps(9) map_append)
    with cadence.grants_spaced [OF _ run [THEN trans]] ok ij responseCheckInterval_nonneg
    show "responseCheckInterval (fst (starts ! j)) \<le> snd (starts ! j) - snd (starts ! i)"
      by (force simp: cadence_key_def)
  qed
qed

fun is_try :: "effect \<Rightarrow> bool" where
  "is_try (TryStart m now v) = True"
| "is_try _ = False"

lemma tries_only:
  "cadence_agrees location starts (filter is_try es) = cadence_agrees location starts es"
  "granted_starts (filter is_try es) = granted_starts es"
  "TryStart m now v \<in> set es \<longleftrightarrow> TryStart m now v \<in> set (filter is_try es)"
proof -
  show "cadence_agrees location starts (filter is_try es) = cadence_agrees location starts es"
    by (induction location starts es rule: cadence_agrees.induct) (auto split: prod.splits)
  show "granted_starts (filter is_try es) = granted_starts es"
    by (induction es rule: granted_starts.induct) auto
qed simp

lemma pool_run_mono:
  assumes "pool_run body s t" "\<And>j es. body j es \<Longrightarrow> body' j es"
  shows "pool_run body' s t"
  using assms(1)
proof (induction rule: rtranclp_induct)
  case (step u v)
  from step.hyps(2) have "pool_step body' u v"
    by (cases rule: pool_step.cases) (auto intro: pool_step.intros assms(2))
  with step.IH show ?case by simp
qed simp

lemma is_try_core: "filter is_try (map Core cs) = []"
  by (induction cs) auto

lemma response_starts_respect_cadence_witness:
  "\<forall>c. \<exists>tr. phase_trace (response_body (newExecutorRegistry c)) (runResponse sample_config (newExecutorRegistry c)
        (ri_response sample_inputs)) tr \<and>
      granted_starts tr = [(zero_monitoring\<lparr>m_ID := ''a'', m_Type := TypeHTTP\<rparr>, 7)] \<and>
      length (filter (\<lambda>x. x = OpStart) (tel_ops tr)) = 1"
proof
  fix c
  let ?r = "newExecutorRegistry c" and ?a = "zero_monitoring\<lparr>m_ID := ''a'', m_Type := TypeHTTP\<rparr>"
  let ?ev = "\<lparr>ce_now = 7, ce_due = True, ce_slot = True, ce_elapsed = 1, ce_rand = None\<rparr>"
  let ?body = "\<lambda>m es. es = runResponseCheck ?r ?ev m"
  let ?p = "runResponse sample_config ?r (ri_response sample_inputs)"
  have feed: "responseFeed ?r [(?a, 7, None)] = (zero_counts\<lparr>dc_dispatched := 1\<rparr>, [Emit (Tel OpQueue), Send ?a])"
    by (simp add: responseDue_def zero_monitoring_def registry_coverage phase_defs mon_type_defs zero_counts_def)
  have pool: "ps_pool ?p = Some (start_pool sample_config (zero_counts\<lparr>dc_dispatched := 1\<rparr>, [Emit (Tel OpQueue), Send ?a]))"
    "ps_effects ?p = [fetch_call sample_config ?r PhaseResponse]"
    using feed by (simp_all add: runResponse_def sample_inputs_def Let_def)
  have n: "0 < nat (workerLimit sample_config)" using workerLimit_pos [of sample_config] by simp
  obtain s where s: "pool_run ?body (new_pool (nat (workerLimit sample_config)) [Emit (Tel OpQueue), Send ?a]) s" "pool_done s"
    using new_pool_reaches_done [OF n, of ?body] by blast
  let ?tr = "fetch_call sample_config ?r PhaseResponse # p_trace s"
  have "pool_run (response_body ?r) (new_pool (nat (workerLimit sample_config)) [Emit (Tel OpQueue), Send ?a]) s"
    by (rule pool_run_mono [OF s(1)]) (auto simp: response_body_def)
  then have tr: "phase_trace (response_body ?r) ?p ?tr"
    using s(2) pool by (auto simp: phase_trace_def start_pool_def)
  from pool_serves_each_job_once [OF n _ s(1)] s(2)
  have "interleaves [[Tel OpQueue], runResponseCheck ?r ?ev ?a] (p_trace s)" by (auto simp: list_all2_Cons1)
  from interleaves_mset [OF interleaves_filter [OF this, of is_try]]
  have "mset (filter is_try (p_trace s)) = mset (filter is_try (runResponseCheck ?r ?ev ?a))"
    by (simp del: mset_filter)
  also have "filter is_try (runResponseCheck ?r ?ev ?a) = [TryStart ?a 7 True]"
    by (simp add: runResponseCheck_def runCheck_def executeMonitoring_def is_try_core Let_def split: prod.split)
  finally have "mset (filter is_try (p_trace s)) = {#TryStart ?a 7 True#}" by simp
  then have "filter is_try (p_trace s) = [TryStart ?a 7 True]" by (simp del: mset_filter)
  then have t: "filter is_try ?tr = [TryStart ?a 7 True]" by (simp add: fetch_call_def)
  have a: "cadence_agrees (cfg_WebGuardLocation sample_config) newResponseCadence ?tr"
    unfolding tries_only(1) [symmetric, of _ _ ?tr] t
    by (simp add: tryStart_def newResponseCadence_def responseDue_def zero_monitoring_def)
  have g: "granted_starts ?tr = [(?a, 7)]"
    unfolding tries_only(2) [symmetric, of ?tr] t by simp
  have "\<forall>m now v. TryStart m now v \<in> set ?tr \<longrightarrow> m_CheckIntervalSeconds m \<le> 9223372036"
    unfolding tries_only(3) [of _ _ _ ?tr] t by (simp add: zero_monitoring_def)
  with response_starts_respect_cadence [of "[?tr]" ?r sample_config "[(?a, 7)]"] tr a g
  have "length (filter (\<lambda>x. x = OpStart) (tel_ops ?tr)) = 1" by auto
  with tr g show "\<exists>tr. phase_trace (response_body ?r) ?p tr \<and> granted_starts tr = [(?a, 7)] \<and>
      length (filter (\<lambda>x. x = OpStart) (tel_ops tr)) = 1" by blast
qed

end
