(* ===== verification/Go_Net.thy ===== *)
theory Go_Net
  imports Go_Strconv
begin

text \<open>
  What the worker uses of Go's packages \<open>net\<close> and \<open>net/netip\<close>: \<open>ParseAddr\<close>, the
  address predicates, \<open>Prefix.Contains\<close>, \<open>SplitHostPort\<close> and \<open>JoinHostPort\<close>.
\<close>

section \<open>Addresses\<close>

text \<open>An IPv6 address carries a zone, empty when it has none.\<close>

datatype addr = V4 "32 word" | V6 "128 word" string

definition ip4 :: "nat \<Rightarrow> nat \<Rightarrow> nat \<Rightarrow> nat \<Rightarrow> nat" where
  "ip4 a b c d = ((a * 256 + b) * 256 + c) * 256 + d"

definition v4_octet :: "string \<Rightarrow> nat option" where
  "v4_octet part =
     (if part = [] \<or> (length part > 1 \<and> hd part = CHR ''0'') then None
      else case digits_val 0 part of None \<Rightarrow> None | Some n \<Rightarrow> if n > 255 then None else Some n)"

definition parse_v4 :: "string \<Rightarrow> nat option" where
  "parse_v4 s =
     (case map v4_octet (split_byte CHR ''.'' s) of
        [Some a, Some b, Some c, Some d] \<Rightarrow> Some (ip4 a b c d)
      | _ \<Rightarrow> None)"

definition hex_group :: "string \<Rightarrow> nat" where
  "hex_group ds = foldl (\<lambda>acc c. case hex_value c of None \<Rightarrow> acc | Some d \<Rightarrow> acc * 16 + d) 0 ds"

text \<open>
  The loop of \<open>parseIPv6\<close>: the 16-bit groups so far, the position of the ellipsis, the rest
  of the text. The loop makes at most eight rounds.
\<close>

fun v6_loop :: "nat \<Rightarrow> nat list \<Rightarrow> nat option \<Rightarrow> string \<Rightarrow> (nat list \<times> nat option \<times> string) option" where
  "v6_loop 0 gs ell s = Some (gs, ell, s)"
| "v6_loop (Suc k) gs ell s =
     (let digits = takeWhile (\<lambda>c. hex_value c \<noteq> None) s; rst = drop (length digits) s
      in if length digits > 4 \<or> digits = [] then None
         else if rst \<noteq> [] \<and> hd rst = CHR ''.'' then
           (if (ell = None \<and> length gs \<noteq> 6) \<or> length gs > 6 then None
            else case parse_v4 s of None \<Rightarrow> None
                 | Some v \<Rightarrow> Some (gs @ [v div 65536, v mod 65536], ell, []))
         else
           (let gs = gs @ [hex_group digits]
            in if rst = [] then Some (gs, ell, [])
               else if hd rst \<noteq> CHR '':'' \<or> length rst = 1 then None
               else if hd (tl rst) = CHR '':'' then
                 (if ell \<noteq> None then None
                  else if tl (tl rst) = [] then Some (gs, Some (length gs), [])
                  else v6_loop k gs (Some (length gs)) (tl (tl rst)))
               else v6_loop k gs ell (tl rst)))"

definition v6_value :: "nat list \<Rightarrow> nat" where
  "v6_value gs = foldl (\<lambda>acc g. acc * 65536 + g) 0 gs"

definition parse_v6_groups :: "string \<Rightarrow> nat list option" where
  "parse_v6_groups s =
     (if s = ''::'' then Some (replicate 8 0)
      else case (if prefix ''::'' s then v6_loop 8 [] (Some 0) (drop 2 s) else v6_loop 8 [] None s) of
             None \<Rightarrow> None
           | Some (gs, ell, rst) \<Rightarrow>
               (if rst \<noteq> [] then None
                else if length gs < 8 then
                  (case ell of None \<Rightarrow> None
                   | Some e \<Rightarrow> Some (take e gs @ replicate (8 - length gs) 0 @ drop e gs))
                else if ell \<noteq> None then None else Some gs))"

definition ParseAddr :: "string \<Rightarrow> addr option" where
  "ParseAddr s =
     (case find (\<lambda>c. c = CHR ''.'' \<or> c = CHR '':'' \<or> c = CHR ''%'') s of
        None \<Rightarrow> None
      | Some c \<Rightarrow>
          if c = CHR ''.'' then map_option (\<lambda>v. V4 (of_nat v)) (parse_v4 s)
          else if c = CHR '':'' then
            (let body = takeWhile (\<lambda>c. c \<noteq> CHR ''%'') s; zone = tl (drop (length body) s)
             in if length body < length s \<and> zone = [] then None
                else map_option (\<lambda>gs. V6 (of_nat (v6_value gs)) zone) (parse_v6_groups body))
          else None)"

text \<open>\<open>Unmap\<close> turns an IPv4-mapped IPv6 address, zone or not, into the IPv4 address.\<close>

fun Unmap :: "addr \<Rightarrow> addr" where
  "Unmap (V4 a) = V4 a"
| "Unmap (V6 a zone) = (if drop_bit 32 a = 0xffff then V4 (ucast a) else V6 a zone)"

text \<open>The predicates, on addresses that are unmapped already.\<close>

fun IsLoopback :: "addr \<Rightarrow> bool" where
  "IsLoopback (V4 a) \<longleftrightarrow> drop_bit 24 a = 127"
| "IsLoopback (V6 a zone) \<longleftrightarrow> a = 1"

fun IsPrivate :: "addr \<Rightarrow> bool" where
  "IsPrivate (V4 a) \<longleftrightarrow> drop_bit 24 a = 10 \<or> drop_bit 20 a = 0xac1 \<or> drop_bit 16 a = 0xc0a8"
| "IsPrivate (V6 a zone) \<longleftrightarrow> drop_bit 121 a = 0x7e"

fun IsLinkLocalUnicast :: "addr \<Rightarrow> bool" where
  "IsLinkLocalUnicast (V4 a) \<longleftrightarrow> drop_bit 16 a = 0xa9fe"
| "IsLinkLocalUnicast (V6 a zone) \<longleftrightarrow> drop_bit 118 a = 0x3fa"

fun IsMulticast :: "addr \<Rightarrow> bool" where
  "IsMulticast (V4 a) \<longleftrightarrow> drop_bit 28 a = 0xe"
| "IsMulticast (V6 a zone) \<longleftrightarrow> drop_bit 120 a = 0xff"

text \<open>The 16 high bits, masked with \<open>ff0f\<close>, are \<open>ff02\<close>.\<close>

fun IsLinkLocalMulticast :: "addr \<Rightarrow> bool" where
  "IsLinkLocalMulticast (V4 a) \<longleftrightarrow> drop_bit 8 a = 0xe00000"
| "IsLinkLocalMulticast (V6 a zone) \<longleftrightarrow> drop_bit 120 a = 0xff \<and> take_bit 4 (drop_bit 112 a) = 2"

text \<open>Equality with \<open>0.0.0.0\<close> or \<open>::\<close>, so an address with a zone is never unspecified.\<close>

definition IsUnspecified :: "addr \<Rightarrow> bool" where
  "IsUnspecified a \<longleftrightarrow> a = V4 0 \<or> a = V6 0 []"

text \<open>\<open>Prefix.Contains\<close>: families must agree, and an address with a zone is in no prefix.\<close>

fun prefix_contains :: "addr \<times> nat \<Rightarrow> addr \<Rightarrow> bool" where
  "prefix_contains (V4 p, bits) (V4 a) \<longleftrightarrow> drop_bit (32 - bits) a = drop_bit (32 - bits) p"
| "prefix_contains (V6 p z, bits) (V6 a zone) \<longleftrightarrow> zone = [] \<and> drop_bit (128 - bits) a = drop_bit (128 - bits) p"
| "prefix_contains _ _ \<longleftrightarrow> False"

section \<open>Host and port\<close>

definition JoinHostPort :: "string \<Rightarrow> string \<Rightarrow> string" where
  "JoinHostPort host port =
     (if CHR '':'' \<in> set host then CHR ''['' # host @ '']:'' @ port else host @ CHR '':'' # port)"

text \<open>The text before the last colon and the text after it.\<close>

definition split_last_colon :: "string \<Rightarrow> (string \<times> string) option" where
  "split_last_colon s =
     (let port = rev (takeWhile (\<lambda>c. c \<noteq> CHR '':'') (rev s))
      in if length port = length s then None else Some (take (length s - length port - 1) s, port))"

definition SplitHostPort :: "string \<Rightarrow> (string \<times> string) option" where
  "SplitHostPort hostport =
     (case split_last_colon hostport of
        None \<Rightarrow> None
      | Some (before, port) \<Rightarrow>
          if hd hostport = CHR ''['' then
            (if CHR '']'' \<notin> set hostport then None
             else let inside = takeWhile (\<lambda>c. c \<noteq> CHR '']'') hostport
                  in if length inside + 1 \<noteq> length before then None
                     else if CHR ''['' \<in> set (tl hostport) \<or> CHR '']'' \<in> set (drop (length inside + 1) hostport) then None
                     else Some (tl inside, port))
          else if CHR '':'' \<in> set before then None
          else if CHR ''['' \<in> set hostport \<or> CHR '']'' \<in> set hostport then None
          else Some (before, port))"

lemma split_last_colon_append: "CHR '':'' \<notin> set port \<Longrightarrow> split_last_colon (before @ CHR '':'' # port) = Some (before, port)"
proof -
  assume "CHR '':'' \<notin> set port"
  then have "takeWhile (\<lambda>c. c \<noteq> CHR '':'') (rev port @ CHR '':'' # rev before) = rev port"
    by (subst takeWhile_append2) auto
  then show "split_last_colon (before @ CHR '':'' # port) = Some (before, port)"
    by (simp add: split_last_colon_def)
qed

lemma split_join_host_port:
  assumes "CHR ''['' \<notin> set host \<union> set port" "CHR '']'' \<notin> set host \<union> set port" "CHR '':'' \<notin> set port"
  shows "SplitHostPort (JoinHostPort host port) = Some (host, port)"
proof (cases "CHR '':'' \<in> set host")
  case True
  have "split_last_colon ((CHR ''['' # host @ [CHR '']'']) @ CHR '':'' # port) = Some (CHR ''['' # host @ [CHR '']''], port)"
    by (rule split_last_colon_append) (rule assms(3))
  moreover have "takeWhile (\<lambda>c. c \<noteq> CHR '']'') (host @ CHR '']'' # CHR '':'' # port) = host"
    using assms(2) by (subst takeWhile_append2) auto
  ultimately show ?thesis using True assms by (auto simp: SplitHostPort_def JoinHostPort_def Let_def)
next
  case False
  then have "split_last_colon (host @ CHR '':'' # port) = Some (host, port)"
    using assms(3) by (simp add: split_last_colon_append)
  moreover have "hd (host @ CHR '':'' # port) \<noteq> CHR ''[''"
    using assms(1) by (cases host) auto
  ultimately show ?thesis using False assms by (auto simp: SplitHostPort_def JoinHostPort_def)
qed

end
