(* ===== verification/Egress_Target.thy ===== *)
theory Egress_Target
  imports Go_Net
begin

text \<open>
  \<open>internal/adapters/target/target.go\<close>: the egress policy that keeps checks away from
  private and special-purpose addresses.

  The resolver is an argument, a function from a host name to its addresses (\<open>None\<close> for an
  error); so is \<open>url.Parse\<close>, which gives the parts of a URL the code reads.
\<close>

section \<open>Addresses\<close>

definition blockedAddressRanges :: "(addr \<times> nat) list" where
  "blockedAddressRanges =
     [(V4 0x00000000, 8), (V4 0x64400000, 10), (V4 0xC0000000, 24), (V4 0xC0000200, 24), (V4 0xC6120000, 15),
      (V4 0xC6336400, 24), (V4 0xCB007100, 24), (V4 0xF0000000, 4),
      (V6 0x0064FF9B000000000000000000000000 [], 96), (V6 0x20010DB8000000000000000000000000 [], 32),
      (V6 0xFEC00000000000000000000000000000 [], 10)]"

definition isUnsafeAddress :: "addr \<Rightarrow> bool" where
  "isUnsafeAddress addr =
     (let addr = Unmap addr
      in if IsLoopback addr \<or> IsPrivate addr \<or> IsLinkLocalUnicast addr \<or> IsLinkLocalMulticast addr \<or>
            IsMulticast addr \<or> IsUnspecified addr
         then True
         else list_ex (\<lambda>network. prefix_contains network addr) blockedAddressRanges)"

section \<open>Hosts\<close>

datatype target_error =
    TargetEmpty | TargetTooLong | UnsupportedScheme | TargetHostEmpty | HasCredentials | PrivateTarget string
  | NoAddresses | LookupFailed | BadURL | BadAddress | InvalidPort int

type_synonym resolver = "string \<Rightarrow> addr list option"

definition resolveHostIPs :: "resolver \<Rightarrow> bool \<Rightarrow> string \<Rightarrow> target_error + addr list" where
  "resolveHostIPs lookup allowPrivate host =
     (case ParseAddr host of
        Some addr \<Rightarrow> if \<not> allowPrivate \<and> isUnsafeAddress addr then Inl (PrivateTarget host) else Inr [addr]
      | None \<Rightarrow>
          (case lookup host of
             None \<Rightarrow> Inl LookupFailed
           | Some ips \<Rightarrow>
               if ips = [] then Inl NoAddresses
               else if \<not> allowPrivate \<and> list_ex isUnsafeAddress ips then Inl (PrivateTarget host)
               else Inr ips))"

definition ValidateHost :: "resolver \<Rightarrow> bool \<Rightarrow> string \<Rightarrow> target_error option" where
  "ValidateHost lookup allowPrivate host =
     (let host = trim_bytes {CHR ''['', CHR '']''} (trim_space host)
      in if host = [] then Some TargetHostEmpty
         else if allowPrivate then None
         else if equal_fold host ''localhost'' \<or> has_suffix (to_lower host) ''.localhost'' then Some (PrivateTarget host)
         else case resolveHostIPs lookup allowPrivate host of Inl err \<Rightarrow> Some err | Inr ips \<Rightarrow> None)"

text \<open>
  What the dialer is asked to connect to: a host and a port, or an address the policy vetted
  and a port. The code hands over the address as text, which the dialer reads back.
\<close>

datatype dial = DialHost string string | DialAddr addr string

definition SafeDialContext :: "resolver \<Rightarrow> bool \<Rightarrow> string \<Rightarrow> target_error + dial" where
  "SafeDialContext lookup allowPrivate address =
     (case SplitHostPort address of
        None \<Rightarrow> Inl BadAddress
      | Some (host, port) \<Rightarrow>
          if allowPrivate then Inr (DialHost host port)
          else case resolveHostIPs lookup allowPrivate host of
                 Inl err \<Rightarrow> Inl err
               | Inr ips \<Rightarrow> Inr (DialAddr (hd ips) port))"

section \<open>Targets\<close>

record parsed_url =
  u_Scheme :: string
  u_Host :: string
  u_Hostname :: string
  u_HasUser :: bool

type_synonym url_parser = "string \<Rightarrow> parsed_url option"

definition HTTPURL ::
    "(string \<Rightarrow> 'u parsed_url_scheme option) \<Rightarrow> resolver \<Rightarrow> bool \<Rightarrow> string \<Rightarrow> target_error + 'u parsed_url_scheme" where
  "HTTPURL parse lookup allowPrivate rawTarget =
     (let target = trim_space rawTarget
      in if target = [] then Inl TargetEmpty
         else if length target > 4096 then Inl TargetTooLong
         else case parse target of
                None \<Rightarrow> Inl BadURL
              | Some parsed \<Rightarrow>
                  if u_Scheme parsed \<noteq> ''http'' \<and> u_Scheme parsed \<noteq> ''https'' then Inl UnsupportedScheme
                  else if u_Host parsed = [] then Inl TargetHostEmpty
                  else if u_HasUser parsed then Inl HasCredentials
                  else case ValidateHost lookup allowPrivate (u_Hostname parsed) of
                         Some err \<Rightarrow> Inl err
                       | None \<Rightarrow> Inr parsed)"

definition extractHostPort :: "url_parser \<Rightarrow> string \<Rightarrow> target_error + (string \<times> string)" where
  "extractHostPort parse rawTarget =
     (let target = trim_space rawTarget
      in if target = [] then Inl TargetEmpty
         else if length target > 4096 then Inl TargetTooLong
         else
           case (if str_contains target ''://''
                 then (case parse target of None \<Rightarrow> None | Some parsed \<Rightarrow> Some (u_Host parsed))
                 else (case parse (''//'' @ target) of
                         Some parsed \<Rightarrow> if u_Host parsed \<noteq> [] then Some (u_Host parsed) else Some target
                       | None \<Rightarrow> Some target)) of
             None \<Rightarrow> Inl BadURL
           | Some hostPort \<Rightarrow>
               (let hostPort = trim_space hostPort
                in if hostPort = [] then Inl TargetHostEmpty
                   else case SplitHostPort hostPort of
                          Some (host, port) \<Rightarrow> Inr (host, port)
                        | None \<Rightarrow> Inr (hostPort, [])))"

definition TCPAddress :: "url_parser \<Rightarrow> string \<Rightarrow> int \<Rightarrow> target_error + string" where
  "TCPAddress parse rawTarget port =
     (case extractHostPort parse rawTarget of
        Inl err \<Rightarrow> Inl err
      | Inr (host, p) \<Rightarrow> if port \<le> 0 then Inl (InvalidPort port) else Inr (JoinHostPort host (int_dec port)))"

definition Host :: "url_parser \<Rightarrow> string \<Rightarrow> target_error + string" where
  "Host parse rawTarget =
     (case extractHostPort parse rawTarget of Inl err \<Rightarrow> Inl err | Inr (host, p) \<Rightarrow> Inr host)"

definition SSLAddressAndServerName :: "url_parser \<Rightarrow> string \<Rightarrow> target_error + (string \<times> string)" where
  "SSLAddressAndServerName parse rawTarget =
     (case extractHostPort parse rawTarget of
        Inl err \<Rightarrow> Inl err
      | Inr (host, parsedPort) \<Rightarrow>
          (let parsedPort = (if parsedPort = [] then ''443'' else parsedPort)
           in Inr (JoinHostPort host parsedPort, host)))"

section \<open>Which addresses are blocked\<close>

text \<open>The special-purpose ranges as intervals, first and last address.\<close>

definition special_v4 :: "(nat \<times> nat) list" where
  "special_v4 =
     [(ip4 0 0 0 0, ip4 0 255 255 255), (ip4 10 0 0 0, ip4 10 255 255 255), (ip4 100 64 0 0, ip4 100 127 255 255),
      (ip4 127 0 0 0, ip4 127 255 255 255), (ip4 169 254 0 0, ip4 169 254 255 255), (ip4 172 16 0 0, ip4 172 31 255 255),
      (ip4 192 0 0 0, ip4 192 0 0 255), (ip4 192 0 2 0, ip4 192 0 2 255), (ip4 192 168 0 0, ip4 192 168 255 255),
      (ip4 198 18 0 0, ip4 198 19 255 255), (ip4 198 51 100 0, ip4 198 51 100 255), (ip4 203 0 113 0, ip4 203 0 113 255),
      (ip4 224 0 0 0, ip4 239 255 255 255), (ip4 240 0 0 0, ip4 255 255 255 255)]"

definition in_ranges :: "(nat \<times> nat) list \<Rightarrow> nat \<Rightarrow> bool" where
  "in_ranges ranges n \<longleftrightarrow> list_ex (\<lambda>(lo, hi). lo \<le> n \<and> n \<le> hi) ranges"

lemma drop_bit_eq_iff:
  fixes a b :: "'a :: len word"
  shows "drop_bit k a = drop_bit k b \<longleftrightarrow> unat a div 2 ^ k = unat b div 2 ^ k"
  unfolding word_unat_eq_iff unat_drop_bit_eq by (simp add: drop_bit_eq_div)

lemma drop_bit_numeral_iff:
  fixes a :: "'a :: len word"
  shows "drop_bit k a = c \<longleftrightarrow> unat a div 2 ^ k = unat c"
  unfolding word_unat_eq_iff unat_drop_bit_eq by (simp add: drop_bit_eq_div)

lemma div_interval:
  assumes "0 < (d :: nat)"
  shows "n div d = q \<longleftrightarrow> q * d \<le> n \<and> n \<le> q * d + (d - 1)"
proof
  assume "n div d = q"
  with dividend_less_div_times [OF assms, of n] div_times_less_eq_dividend [of n d]
  show "q * d \<le> n \<and> n \<le> q * d + (d - 1)" by auto
next
  assume "q * d \<le> n \<and> n \<le> q * d + (d - 1)"
  with assms show "n div d = q" by (intro div_nat_eqI) (auto simp: mult.commute)
qed

lemma unsafe_v4:
  fixes a :: "32 word"
  shows "isUnsafeAddress (V4 a) \<longleftrightarrow> in_ranges special_v4 (unat a)"
proof -
  have top: "unat a < 4294967296" using unsigned_less [of a] by simp
  have "isUnsafeAddress (V4 a) \<longleftrightarrow>
     unat a div 2 ^ 24 = 127 \<or> unat a div 2 ^ 24 = 10 \<or> unat a div 2 ^ 20 = 0xac1 \<or> unat a div 2 ^ 16 = 0xc0a8 \<or>
     unat a div 2 ^ 16 = 0xa9fe \<or> unat a div 2 ^ 8 = 0xe00000 \<or> unat a div 2 ^ 28 = 0xe \<or> unat a = 0 \<or>
     unat a div 2 ^ 24 = 0 \<or> unat a div 2 ^ 22 = 0x191 \<or> unat a div 2 ^ 8 = 0xC00000 \<or> unat a div 2 ^ 8 = 0xC00002 \<or>
     unat a div 2 ^ 17 = 0x6309 \<or> unat a div 2 ^ 8 = 0xC63364 \<or> unat a div 2 ^ 8 = 0xCB0071 \<or> unat a div 2 ^ 28 = 0xF"
    by (simp add: isUnsafeAddress_def Let_def blockedAddressRanges_def IsUnspecified_def drop_bit_numeral_iff drop_bit_eq_iff
        unat_eq_zero)
  also have "\<dots> \<longleftrightarrow>
     unat a div 2 ^ 24 = 0 \<or> unat a div 2 ^ 24 = 10 \<or> unat a div 2 ^ 22 = 0x191 \<or> unat a div 2 ^ 24 = 127 \<or>
     unat a div 2 ^ 16 = 0xa9fe \<or> unat a div 2 ^ 20 = 0xac1 \<or> unat a div 2 ^ 8 = 0xC00000 \<or>
     unat a div 2 ^ 8 = 0xC00002 \<or> unat a div 2 ^ 16 = 0xc0a8 \<or> unat a div 2 ^ 17 = 0x6309 \<or>
     unat a div 2 ^ 8 = 0xC63364 \<or> unat a div 2 ^ 8 = 0xCB0071 \<or> unat a div 2 ^ 28 = 0xe \<or> unat a div 2 ^ 28 = 0xF"
  proof -
    have "unat a div 2 ^ 8 = 0xe00000 \<longrightarrow> unat a div 2 ^ 28 = 0xe"
      by (simp add: div_interval)
    moreover have "unat a = 0 \<longrightarrow> unat a div 2 ^ 24 = 0" by simp
    ultimately show ?thesis by blast
  qed
  also have "\<dots> \<longleftrightarrow> in_ranges special_v4 (unat a)"
    by (simp add: div_interval in_ranges_def special_v4_def ip4_def del: div_eq_0_iff)
  finally show ?thesis .
qed

text \<open>Loopback, unique local, link local and multicast IPv6 addresses; and the further blocked ones.\<close>

definition scoped_v6 :: "(nat \<times> nat) list" where
  "scoped_v6 =
     [(1, 1),
      (0xFC000000000000000000000000000000, 0xFDFFFFFFFFFFFFFFFFFFFFFFFFFFFFFF),
      (0xFE800000000000000000000000000000, 0xFEBFFFFFFFFFFFFFFFFFFFFFFFFFFFFF),
      (0xFF000000000000000000000000000000, 0xFFFFFFFFFFFFFFFFFFFFFFFFFFFFFFFF)]"

definition further_v6 :: "(nat \<times> nat) list" where
  "further_v6 =
     [(0, 0),
      (0x0064FF9B000000000000000000000000, 0x0064FF9B0000000000000000FFFFFFFF),
      (0x20010DB8000000000000000000000000, 0x20010DB8FFFFFFFFFFFFFFFFFFFFFFFF),
      (0xFEC00000000000000000000000000000, 0xFEFFFFFFFFFFFFFFFFFFFFFFFFFFFFFF)]"

definition is_mapped :: "128 word \<Rightarrow> bool" where
  "is_mapped a \<longleftrightarrow> in_ranges [(0xFFFF00000000, 0xFFFFFFFFFFFF)] (unat a)"

lemma Unmap_mapped: "is_mapped a \<Longrightarrow> Unmap (V6 a zone) = V4 (ucast a)"
  and Unmap_not_mapped: "\<not> is_mapped a \<Longrightarrow> Unmap (V6 a zone) = V6 a zone"
  by (simp_all add: is_mapped_def in_ranges_def drop_bit_numeral_iff div_interval)

lemma unsafe_mapped: "is_mapped a \<Longrightarrow> isUnsafeAddress (V6 a zone) = isUnsafeAddress (V4 (ucast a))"
  unfolding isUnsafeAddress_def by (simp only: Unmap_mapped Unmap.simps(1))

lemma unat_eq_1: "unat (a :: 128 word) = 1 \<longleftrightarrow> a = 1"
  by (metis unat_1 word_unat_eq_iff)

lemma unsafe_v6:
  assumes "\<not> is_mapped a"
  shows "isUnsafeAddress (V6 a zone) \<longleftrightarrow> in_ranges scoped_v6 (unat a) \<or> zone = [] \<and> in_ranges further_v6 (unat a)"
proof -
  have "isUnsafeAddress (V6 a zone) \<longleftrightarrow>
     (unat a = 1 \<or> unat a div 2 ^ 121 = 0x7e \<or> unat a div 2 ^ 118 = 0x3fa \<or> unat a div 2 ^ 120 = 0xff) \<or>
     zone = [] \<and> (unat a = 0 \<or> unat a div 2 ^ 32 = 0x64FF9B0000000000000000 \<or> unat a div 2 ^ 96 = 0x20010DB8 \<or>
       unat a div 2 ^ 118 = 0x3fb)"
  proof -
    have "isUnsafeAddress (V6 a zone) \<longleftrightarrow>
       IsLoopback (V6 a zone) \<or> IsPrivate (V6 a zone) \<or> IsLinkLocalUnicast (V6 a zone) \<or> IsMulticast (V6 a zone) \<or>
       IsUnspecified (V6 a zone) \<or> list_ex (\<lambda>network. prefix_contains network (V6 a zone)) blockedAddressRanges"
      unfolding isUnsafeAddress_def Let_def Unmap_not_mapped [OF assms] by auto
    also have "list_ex (\<lambda>network. prefix_contains network (V6 a zone)) blockedAddressRanges \<longleftrightarrow>
       zone = [] \<and> (unat a div 2 ^ 32 = 0x64FF9B0000000000000000 \<or> unat a div 2 ^ 96 = 0x20010DB8 \<or> unat a div 2 ^ 118 = 0x3fb)"
      unfolding blockedAddressRanges_def by (cases zone) (simp_all add: drop_bit_numeral_iff)
    finally show ?thesis
      by (simp only: IsLoopback.simps IsPrivate.simps IsLinkLocalUnicast.simps IsMulticast.simps IsUnspecified_def
          addr.distinct addr.inject drop_bit_numeral_iff unat_eq_1 unat_eq_zero) auto
  qed
  also have "\<dots> \<longleftrightarrow> in_ranges scoped_v6 (unat a) \<or> zone = [] \<and> in_ranges further_v6 (unat a)"
    by (simp add: div_interval in_ranges_def scoped_v6_def further_v6_def del: div_eq_0_iff) arith
  finally show ?thesis .
qed

text \<open>
  C9. Which addresses a check may not reach, exactly: an IPv4 address in one of the listed
  special-purpose ranges; an IPv4-mapped IPv6 address precisely when its IPv4 address is
  blocked, with or without a zone; any other IPv6 address when it is loopback, unique local,
  link local or multicast, and without a zone also the unspecified, NAT64, documentation and
  site-local ones.
\<close>

lemma unsafe_addresses:
  "isUnsafeAddress addr \<longleftrightarrow>
     (case addr of
        V4 a \<Rightarrow> in_ranges special_v4 (unat a)
      | V6 a zone \<Rightarrow>
          if in_ranges [(0xFFFF00000000, 0xFFFFFFFFFFFF)] (unat a) then in_ranges special_v4 (unat a mod 2 ^ 32)
          else in_ranges scoped_v6 (unat a) \<or> zone = [] \<and> in_ranges further_v6 (unat a))"
proof (cases addr)
  case (V4 a)
  then show ?thesis by (simp add: unsafe_v4)
next
  case (V6 a zone)
  have "unat (ucast a :: 32 word) = unat a mod 2 ^ 32"
    by (simp add: unsigned_ucast_eq take_bit_eq_mod)
  then show ?thesis using V6 unsafe_v6 [of a zone] unsafe_mapped [of a zone] unsafe_v4 [of "ucast a"]
    by (simp add: is_mapped_def)
qed

lemmas vet_simps = unsafe_v4 unsafe_v6 is_mapped_def in_ranges_def special_v4_def scoped_v6_def further_v6_def ip4_def

section \<open>Where the worker connects\<close>

lemma resolved_safe:
  assumes "resolveHostIPs lookup False host = Inr ips"
  shows "ips \<noteq> [] \<and> (\<forall>ip \<in> set ips. \<not> isUnsafeAddress ip)"
  using assms by (auto simp: resolveHostIPs_def list_ex_iff split: option.splits if_splits)

text \<open>
  C8. Under the default policy every connection goes to an address that was vetted: the
  dialer gets an address, never a name to resolve again, it is not a blocked one, and it is
  the literal address of the request or one of the addresses its host resolved to, all of
  which are allowed. One blocked address among them refuses the connection.
\<close>

lemma dials_only_vetted_addresses:
  assumes "SafeDialContext lookup False address = Inr d"
  shows "\<exists>host port ip. SplitHostPort address = Some (host, port) \<and> d = DialAddr ip port \<and> \<not> isUnsafeAddress ip \<and>
    (case ParseAddr host of
       Some literal \<Rightarrow> ip = literal
     | None \<Rightarrow> \<exists>ips. lookup host = Some ips \<and> ip \<in> set ips \<and> (\<forall>x \<in> set ips. \<not> isUnsafeAddress x))"
proof -
  from assms obtain host port ips where
    s: "SplitHostPort address = Some (host, port)" and
    r: "resolveHostIPs lookup False host = Inr ips" and d: "d = DialAddr (hd ips) port"
    by (auto simp: SafeDialContext_def split: option.splits sum.splits)
  from resolved_safe [OF r] have ne: "hd ips \<in> set ips" "\<forall>ip \<in> set ips. \<not> isUnsafeAddress ip" by auto
  have "case ParseAddr host of
       Some literal \<Rightarrow> hd ips = literal
     | None \<Rightarrow> \<exists>ips'. lookup host = Some ips' \<and> hd ips \<in> set ips' \<and> (\<forall>x \<in> set ips'. \<not> isUnsafeAddress x)"
    using r ne by (auto simp: resolveHostIPs_def split: option.splits if_splits)
  with s d ne show ?thesis by blast
qed

lemma dials_only_vetted_addresses_witness:
  "\<exists>ip. SafeDialContext (\<lambda>_. Some [V4 0x08080808, V4 0x01010101]) False ''dns:53'' = Inr (DialAddr ip ''53'') \<and>
     \<not> isUnsafeAddress ip"
proof -
  let ?lookup = "\<lambda>_. Some [V4 0x08080808, V4 0x01010101]"
  have s: "SplitHostPort ''dns:53'' = Some (''dns'', ''53'')" by code_simp
  have p: "ParseAddr ''dns'' = None" by code_simp
  have u: "\<not> isUnsafeAddress (V4 0x08080808)" "\<not> isUnsafeAddress (V4 0x01010101)" by code_simp+
  have d: "SafeDialContext ?lookup False ''dns:53'' = Inr (DialAddr (V4 0x08080808) ''53'')"
    by (simp add: SafeDialContext_def s resolveHostIPs_def p u)
  from dials_only_vetted_addresses [OF d] d show ?thesis by auto
qed

text \<open>
  C35. A URL that is accepted is an \<open>http\<close> or \<open>https\<close> URL with a host and without
  credentials, and under the default policy its host is not a loopback name and is either an
  allowed literal address or resolves to allowed addresses only.
\<close>

lemma accepted_url_is_safe:
  assumes "HTTPURL parse lookup False rawTarget = Inr parsed"
  shows "u_Scheme parsed \<in> {''http'', ''https''} \<and> u_Host parsed \<noteq> [] \<and> \<not> u_HasUser parsed \<and>
    length (trim_space rawTarget) \<le> 4096 \<and>
    (let host = trim_bytes {CHR ''['', CHR '']''} (trim_space (u_Hostname parsed))
     in host \<noteq> [] \<and> \<not> equal_fold host ''localhost'' \<and> \<not> has_suffix (to_lower host) ''.localhost'' \<and>
        (\<exists>ips. resolveHostIPs lookup False host = Inr ips \<and> ips \<noteq> [] \<and> (\<forall>ip \<in> set ips. \<not> isUnsafeAddress ip)))"
proof -
  from assms have ok: "u_Scheme parsed \<in> {''http'', ''https''}" "u_Host parsed \<noteq> []" "\<not> u_HasUser parsed"
    "length (trim_space rawTarget) \<le> 4096" and v: "ValidateHost lookup False (u_Hostname parsed) = None"
    by (auto simp: HTTPURL_def Let_def split: if_splits option.splits)
  let ?host = "trim_bytes {CHR ''['', CHR '']''} (trim_space (u_Hostname parsed))"
  from v have h: "?host \<noteq> []" "\<not> equal_fold ?host ''localhost''" "\<not> has_suffix (to_lower ?host) ''.localhost''"
    by (auto simp: ValidateHost_def Let_def split: if_splits)
  from v h obtain ips where r: "resolveHostIPs lookup False ?host = Inr ips"
    by (auto simp: ValidateHost_def Let_def split: sum.splits)
  show ?thesis using ok h r resolved_safe [OF r] by (auto simp: Let_def)
qed

lemma accepted_url_is_safe_witness:
  "let url = \<lparr>u_Scheme = ''https'', u_Host = ''8.8.8.8'', u_Hostname = ''8.8.8.8'', u_HasUser = False\<rparr> in
   HTTPURL (\<lambda>_. Some url) (\<lambda>_. None) False ''https://8.8.8.8'' = Inr url \<and> \<not> equal_fold ''8.8.8.8'' ''localhost''"
proof -
  let ?url = "\<lparr>u_Scheme = ''https'', u_Host = ''8.8.8.8'', u_Hostname = ''8.8.8.8'', u_HasUser = False\<rparr>"
  have t: "trim_space ''https://8.8.8.8'' = ''https://8.8.8.8''" by code_simp
  have h: "trim_bytes {CHR ''['', CHR '']''} (trim_space ''8.8.8.8'') = ''8.8.8.8''" by code_simp
  have p: "ParseAddr ''8.8.8.8'' = Some (V4 0x08080808)"
  proof -
    have "find (\<lambda>c. c = CHR ''.'' \<or> c = CHR '':'' \<or> c = CHR ''%'') ''8.8.8.8'' = Some CHR ''.''" by simp
    moreover have "parse_v4 ''8.8.8.8'' = Some 0x08080808"
      by (simp add: parse_v4_def v4_octet_def digit_val_def ip4_def)
    ultimately show ?thesis by (simp add: ParseAddr_def)
  qed
  have l: "\<not> equal_fold ''8.8.8.8'' ''localhost'' \<and> \<not> has_suffix (to_lower ''8.8.8.8'') ''.localhost''" by code_simp
  have v: "ValidateHost (\<lambda>_. None) False ''8.8.8.8'' = None"
    by (simp add: ValidateHost_def h l resolveHostIPs_def p vet_simps)
  have ok: "HTTPURL (\<lambda>_. Some ?url) (\<lambda>_. None) False ''https://8.8.8.8'' = Inr ?url"
    by (simp add: HTTPURL_def t v)
  from accepted_url_is_safe [OF ok] ok h show ?thesis by (simp add: Let_def)
qed

text \<open>
  The policy can be evaded with a zone: \<open>::\<close> is blocked, but \<open>::%1\<close> is accepted as a
  host and dialed under the default policy, because an address with a zone is neither
  unspecified nor in any prefix. The same holds for a NAT64 address that embeds \<open>127.0.0.1\<close>.
\<close>

lemma zone_evades_policy:
  "isUnsafeAddress (V6 0 []) \<and>
   ValidateHost lookup False ''::'' = Some (PrivateTarget ''::'') \<and>
   ValidateHost lookup False ''::%1'' = None \<and>
   SafeDialContext lookup False ''[::%1]:80'' = Inr (DialAddr (V6 0 ''1'') ''80'') \<and>
   isUnsafeAddress (V6 0x0064FF9B00000000000000007F000001 []) \<and>
   ValidateHost lookup False ''64:ff9b::7f00:1%1'' = None"
proof -
  have u: "isUnsafeAddress (V6 0 [])" "\<not> isUnsafeAddress (V6 0 ''1'')"
    "isUnsafeAddress (V6 0x0064FF9B00000000000000007F000001 [])"
    "\<not> isUnsafeAddress (V6 0x0064FF9B00000000000000007F000001 ''1'')" by (simp_all add: vet_simps)
  have hv: "hex_value CHR ''6'' = Some 6" "hex_value CHR ''4'' = Some 4" "hex_value CHR ''f'' = Some 15"
    "hex_value CHR ''9'' = Some 9" "hex_value CHR ''b'' = Some 11" "hex_value CHR ''7'' = Some 7"
    "hex_value CHR ''0'' = Some 0" "hex_value CHR ''1'' = Some 1" "hex_value CHR '':'' = None"
    by (simp_all add: hex_value_def)
  have eight: "v6_loop 8 = v6_loop (Suc (Suc (Suc (Suc (Suc (Suc (Suc (Suc 0))))))))" by (simp add: numeral_eq_Suc)
  have g: "parse_v6_groups ''::'' = Some [0, 0, 0, 0, 0, 0, 0, 0]"
    by (simp add: parse_v6_groups_def numeral_eq_Suc)
  have g': "parse_v6_groups ''64:ff9b::7f00:1'' = Some [0x64, 0xff9b, 0, 0, 0, 0, 0x7f00, 1]"
    by (simp add: parse_v6_groups_def eight hv hex_group_def) (simp add: numeral_eq_Suc)
  have p: "ParseAddr ''::'' = Some (V6 0 [])" "ParseAddr ''::%1'' = Some (V6 0 ''1'')"
    "ParseAddr ''64:ff9b::7f00:1%1'' = Some (V6 0x0064FF9B00000000000000007F000001 ''1'')"
    by (simp_all add: ParseAddr_def g g' v6_value_def)
  have t: "trim_bytes {CHR ''['', CHR '']''} (trim_space ''::'') = ''::''"
    "trim_bytes {CHR ''['', CHR '']''} (trim_space ''::%1'') = ''::%1''"
    "trim_bytes {CHR ''['', CHR '']''} (trim_space ''64:ff9b::7f00:1%1'') = ''64:ff9b::7f00:1%1''" by code_simp+
  have l: "\<not> equal_fold ''::'' ''localhost'' \<and> \<not> has_suffix (to_lower ''::'') ''.localhost''"
    "\<not> equal_fold ''::%1'' ''localhost'' \<and> \<not> has_suffix (to_lower ''::%1'') ''.localhost''"
    "\<not> equal_fold ''64:ff9b::7f00:1%1'' ''localhost'' \<and> \<not> has_suffix (to_lower ''64:ff9b::7f00:1%1'') ''.localhost''"
    by code_simp+
  have s: "SplitHostPort ''[::%1]:80'' = Some (''::%1'', ''80'')" by code_simp
  show ?thesis
    unfolding ValidateHost_def SafeDialContext_def t s Let_def
    by (simp add: resolveHostIPs_def p u l)
qed

end
