(* ===== verification/Core_Client.thy ===== *)
theory Core_Client
  imports Gateway Egress_Target Runner_Config
begin

text \<open>
  \<open>internal/adapters/coreapi/client.go\<close>: the client of the Core API.

  A call yields the requests it sent, in order, and its result. The world is an argument: the
  parts \<open>url.Parse\<close> finds in an endpoint (\<open>None\<close> when the endpoint is not accepted as
  the URL of a request), the files, the replies of Core, and the JSON decoder of a reply. A
  request body is the value that is marshalled.
\<close>

section \<open>Client\<close>

record client =
  cl_baseURL :: string
  cl_apiKey :: string
  cl_apiKeyFile :: string
  cl_instanceCode :: string
  cl_instanceAPIPath :: string

datatype client_error = Rejected string | Transport | HTTPStatus int string | BadJSON | Canceled

definition maxResponseBodyBytes :: nat where "maxResponseBodyBytes = 4 * 1024 * 1024"
definition maxClaimBatchSize :: int where "maxClaimBatchSize = 256"
definition DefaultInstanceAPIBasePath :: string where "DefaultInstanceAPIBasePath = ''/api/instances''"

definition NewClient :: "string \<Rightarrow> string \<Rightarrow> string \<Rightarrow> client" where
  "NewClient baseURL apiKey instanceCode =
     \<lparr>cl_baseURL = trim_right_byte CHR ''/'' baseURL, cl_apiKey = trim_space apiKey, cl_apiKeyFile = [],
      cl_instanceCode = trim_space instanceCode, cl_instanceAPIPath = DefaultInstanceAPIBasePath\<rparr>"

definition normalizeInstanceAPIPath :: "string \<Rightarrow> client_error + string" where
  "normalizeInstanceAPIPath instanceAPIPath =
     (let normalized = ''/'' @ trim_byte CHR ''/'' (trim_space instanceAPIPath)
      in if normalized = DefaultInstanceAPIBasePath then Inr normalized
         else Inl (Rejected ''unsupported WEBGUARD_INSTANCE_API_BASE_PATH''))"

definition SetInstanceAPIPath :: "string \<Rightarrow> client \<Rightarrow> client_error + client" where
  "SetInstanceAPIPath instanceAPIPath c =
     (case normalizeInstanceAPIPath instanceAPIPath of
        Inl err \<Rightarrow> Inl err
      | Inr normalized \<Rightarrow> Inr (c\<lparr>cl_instanceAPIPath := normalized\<rparr>))"

definition NewClientWithInstanceAPIPath :: "string \<Rightarrow> string \<Rightarrow> string \<Rightarrow> string \<Rightarrow> client" where
  "NewClientWithInstanceAPIPath baseURL apiKey instanceCode instanceAPIPath =
     (let c = NewClient baseURL apiKey instanceCode
      in case SetInstanceAPIPath instanceAPIPath c of
           Inl err \<Rightarrow> c\<lparr>cl_instanceAPIPath := []\<rparr>
         | Inr c' \<Rightarrow> c')"

definition SetAPIKeyFile :: "string \<Rightarrow> client \<Rightarrow> client" where
  "SetAPIKeyFile path c = c\<lparr>cl_apiKeyFile := trim_space path\<rparr>"

definition instanceAPIEndpoint :: "client \<Rightarrow> string \<Rightarrow> string" where
  "instanceAPIEndpoint c sfx = cl_instanceAPIPath c @ sfx"

section \<open>Redirects\<close>

text \<open>A request is known by the scheme and host of its URL; the origin's host is ASCII.\<close>

definition rejectCrossOriginRedirect :: "string \<times> string \<Rightarrow> (string \<times> string) list \<Rightarrow> client_error option" where
  "rejectCrossOriginRedirect request via =
     (case via of
        [] \<Rightarrow> None
      | origin # _ \<Rightarrow>
          if length via \<ge> 5 then Some (Rejected ''stopped after 5 Core API redirects'')
          else if fst request \<noteq> fst origin \<or> \<not> equal_fold (snd request) (snd origin)
          then Some (Rejected ''Core API redirect changed origin'')
          else None)"

text \<open>The HTTP client follows the redirects it is offered until one is rejected.\<close>

fun follow_redirects :: "(string \<times> string) list \<Rightarrow> (string \<times> string) list \<Rightarrow> (string \<times> string) list" where
  "follow_redirects via [] = via"
| "follow_redirects via (target # targets) =
     (if rejectCrossOriginRedirect target via \<noteq> None then via else follow_redirects (via @ [target]) targets)"

section \<open>Requests\<close>

text \<open>
  A request is sent to the URL that \<open>hr_endpoint\<close> parses to, with the query \<open>hr_query\<close>
  set. The world tells what a text parses to, the contents of the files, whether \<open>json.Marshal\<close>
  can encode a payload (it fails for a float that is not finite), and whether
  \<open>http.NewRequestWithContext\<close> accepts the method and the URL, written out and parsed again.
\<close>

record endpoint = parsed_url +
  u_RawQuery :: string
  u_Fragment :: string

record http_request =
  hr_method :: string
  hr_endpoint :: string
  hr_query :: "(string \<times> string) list"
  hr_body :: "core_call option"
  hr_headers :: "(string, string) gomap"

record world =
  w_parse :: "string \<Rightarrow> endpoint option"
  w_file :: "string \<Rightarrow> string option"
  w_marshals :: "core_call \<Rightarrow> bool"
  w_builds :: "string \<Rightarrow> endpoint \<Rightarrow> (string \<times> string) list option \<Rightarrow> bool"

definition configuredAPIKey :: "world \<Rightarrow> client \<Rightarrow> client_error + string" where
  "configuredAPIKey w c =
     (if cl_apiKeyFile c = [] then Inr (cl_apiKey c)
      else case w_file w (cl_apiKeyFile c) of
             None \<Rightarrow> Inl (Rejected ''read WEBGUARD_CORE_API_KEY_FILE'')
           | Some content \<Rightarrow>
               (let content = take (maxAPIKeyFileBytes + 1) content
                in if length content > maxAPIKeyFileBytes then Inl (Rejected ''WEBGUARD_CORE_API_KEY_FILE exceeds the limit'')
                   else if trim_space content = [] then Inl (Rejected ''WEBGUARD_CORE_API_KEY_FILE is empty'')
                   else Inr (trim_space content)))"

definition checkEndpoint :: "endpoint \<Rightarrow> client_error option" where
  "checkEndpoint e =
     (if u_Scheme e \<noteq> ''http'' \<and> u_Scheme e \<noteq> ''https''
      then Some (Rejected ''WEBGUARD_CORE_API_URL must use HTTP or HTTPS'')
      else if u_Host e = [] then Some (Rejected ''WEBGUARD_CORE_API_URL must include a host'')
      else if u_HasUser e then Some (Rejected ''WEBGUARD_CORE_API_URL must not contain credentials'')
      else if u_RawQuery e \<noteq> [] \<or> u_Fragment e \<noteq> []
      then Some (Rejected ''WEBGUARD_CORE_API_URL must not contain a query or fragment'')
      else None)"

definition requestHeaders :: "client \<Rightarrow> string \<Rightarrow> core_call option \<Rightarrow> (string, string) gomap" where
  "requestHeaders c apiKey body =
     (let headers = map_write ''Accept'' ''application/json'' [];
          headers = (if body \<noteq> None then map_write ''Content-Type'' ''application/json'' headers else headers);
          headers = (if apiKey \<noteq> [] then map_write ''X-API-KEY'' apiKey headers else headers)
      in if cl_instanceCode c \<noteq> [] then map_write ''X-INSTANCE-CODE'' (cl_instanceCode c) headers else headers)"

definition newRequest ::
    "world \<Rightarrow> client \<Rightarrow> string \<Rightarrow> string \<Rightarrow> (string \<times> string) list option \<Rightarrow> core_call option \<Rightarrow> client_error + http_request" where
  "newRequest w c httpMethod path query body =
     (if cl_baseURL c = [] then Inl (Rejected ''WEBGUARD_CORE_API_URL is empty'')
      else if cl_instanceAPIPath c = [] then Inl (Rejected ''WEBGUARD_INSTANCE_API_BASE_PATH is invalid'')
      else case w_parse w (cl_baseURL c @ path) of
             None \<Rightarrow> Inl (Rejected ''invalid URL'')
           | Some e \<Rightarrow>
               (case checkEndpoint e of
                  Some err \<Rightarrow> Inl err
                | None \<Rightarrow>
                    if \<not> pred_option (w_marshals w) body then Inl (Rejected ''json: unsupported value'')
                    else if \<not> w_builds w httpMethod e query then Inl (Rejected ''invalid request'')
                    else
                    (case configuredAPIKey w c of
                       Inl err \<Rightarrow> Inl err
                     | Inr apiKey \<Rightarrow>
                         Inr \<lparr>hr_method = httpMethod, hr_endpoint = cl_baseURL c @ path,
                              hr_query = (case query of None \<Rightarrow> [] | Some q \<Rightarrow> q), hr_body = body,
                              hr_headers = requestHeaders c apiKey body\<rparr>)))"

definition set_header :: "string \<Rightarrow> string \<Rightarrow> http_request \<Rightarrow> http_request" where
  "set_header k v r = r\<lparr>hr_headers := map_write k v (hr_headers r)\<rparr>"

section \<open>Replies\<close>

text \<open>
  No reply at all, or a status and a body, \<open>None\<close> when reading the body fails. The duration
  is what the telemetry records for the exchange.
\<close>

datatype reply = NoReply | Reply int "string option"

definition readLimitedBody :: "string option \<Rightarrow> nat \<Rightarrow> client_error + string" where
  "readLimitedBody body maxBytes =
     (case body of
        None \<Rightarrow> Inl Transport
      | Some content \<Rightarrow>
          (let payload = take (maxBytes + 1) content
           in if length payload > maxBytes then Inl (Rejected ''response body exceeds the limit'') else Inr payload))"

definition exchange :: "(string \<Rightarrow> 'a option) option \<Rightarrow> 'a \<Rightarrow> reply \<Rightarrow> client_error + 'a" where
  "exchange decoder out r =
     (case r of
        NoReply \<Rightarrow> Inl Transport
      | Reply status body \<Rightarrow>
          (case readLimitedBody body maxResponseBodyBytes of
             Inl err \<Rightarrow> Inl Transport
           | Inr raw \<Rightarrow>
               if status \<ge> 400 then Inl (HTTPStatus status raw)
               else case decoder of
                      None \<Rightarrow> Inr out
                    | Some decode \<Rightarrow>
                        if raw = [] then Inr out
                        else case decode raw of None \<Rightarrow> Inl BadJSON | Some v \<Rightarrow> Inr v))"

text \<open>\<open>doJSON\<close>: the exchange and the telemetry of its deferred call.\<close>

definition doJSON ::
    "(string \<Rightarrow> 'a option) option \<Rightarrow> 'a \<Rightarrow> string \<Rightarrow> duration \<Rightarrow> reply \<Rightarrow> telemetry_op \<times> (client_error + 'a)" where
  "doJSON decoder out operation d r =
     (let resultErr = exchange decoder out r in (OpCore operation d (isl resultErr), resultErr))"

section \<open>Callbacks\<close>

definition isRetryableCallbackError :: "client_error \<Rightarrow> bool" where
  "isRetryableCallbackError err =
     (case err of HTTPStatus statusCode body \<Rightarrow> statusCode \<ge> 500 | Transport \<Rightarrow> True | _ \<Rightarrow> False)"

text \<open>
  What the world does in one attempt: its files and URL parser, the reply, whether the context is
  done after it, and whether it is done before the retry timer fires.
\<close>

record attempt =
  at_world :: world
  at_reply :: reply
  at_duration :: duration
  at_ctx_err :: bool
  at_wait_done :: bool

definition maxAttempts :: "string \<Rightarrow> nat" where
  "maxAttempts idempotencyKey = (if trim_space idempotencyKey \<noteq> [] then 2 else 1)"

text \<open>One round of the loop up to the reply, then the decision whether to go on.\<close>

definition sendCallback ::
    "client \<Rightarrow> string \<Rightarrow> string \<Rightarrow> string \<Rightarrow> core_call \<Rightarrow> attempt \<Rightarrow>
     client_error + http_request \<times> telemetry_op \<times> client_error option" where
  "sendCallback c path operation key payload a =
     (case newRequest (at_world a) c ''POST'' (instanceAPIEndpoint c path) None (Some payload) of
        Inl err \<Rightarrow> Inl err
      | Inr request \<Rightarrow>
          (let request = (if key \<noteq> [] then set_header ''Idempotency-Key'' key request else request);
               result = doJSON None () operation (at_duration a) (at_reply a)
           in Inr (request, fst result, (case snd result of Inl e \<Rightarrow> Some e | Inr _ \<Rightarrow> None))))"

fun callback_loop ::
    "client \<Rightarrow> string \<Rightarrow> string \<Rightarrow> string \<Rightarrow> core_call \<Rightarrow> (nat \<Rightarrow> attempt) \<Rightarrow> nat \<Rightarrow> nat \<Rightarrow>
     http_request list \<times> telemetry_op list \<times> client_error option" where
  "callback_loop c path operation key payload attempts k 0 = ([], [], None)"
| "callback_loop c path operation key payload attempts k (Suc remaining) =
     (case sendCallback c path operation key payload (attempts k) of
        Inl err \<Rightarrow> ([], [], Some err)
      | Inr (request, telemetry, err) \<Rightarrow>
          if err = None \<or> remaining = 0 \<or> at_ctx_err (attempts k) \<or> \<not> isRetryableCallbackError (the err)
          then ([request], [telemetry], err)
          else if at_wait_done (attempts k) then ([request], [telemetry], Some Canceled)
          else case callback_loop c path operation key payload attempts (k + 1) remaining of
                 (requests, ops, err') \<Rightarrow> (request # requests, telemetry # ops, err'))"

definition postCallbackJSON ::
    "client \<Rightarrow> string \<Rightarrow> string \<Rightarrow> string \<Rightarrow> core_call \<Rightarrow> (nat \<Rightarrow> attempt) \<Rightarrow>
     http_request list \<times> telemetry_op list \<times> client_error option" where
  "postCallbackJSON c path operation key payload attempts =
     callback_loop c path operation key payload attempts 0 (maxAttempts key)"

definition postMonitoringResponse where
  "postMonitoringResponse c p =
     postCallbackJSON c ''/monitoring-responses'' ''post_monitoring_response'' (rp_IdempotencyKey p) (PostMonitoringResponse p)"

definition postSSLResult where
  "postSSLResult c p = postCallbackJSON c ''/ssl-results'' ''post_ssl_result'' (sp_IdempotencyKey p) (PostSSLResult p)"

definition postDomainResult where
  "postDomainResult c p =
     postCallbackJSON c ''/domain-results'' ''post_domain_result'' (dp_IdempotencyKey p) (PostDomainResult p)"

section \<open>Monitorings\<close>

text \<open>One GET; the reply and its duration depend on the type asked for.\<close>

record getter =
  g_world :: world
  g_reply :: "mon_type \<Rightarrow> reply"
  g_duration :: "mon_type \<Rightarrow> duration"
  g_decode :: "string \<Rightarrow> monitoring list option"

definition getMonitoringsOf ::
    "getter \<Rightarrow> client \<Rightarrow> string \<Rightarrow> mon_type \<Rightarrow> http_request list \<times> (client_error + monitoring list)" where
  "getMonitoringsOf g c location t =
     (let query = (''location'', location) # (if t \<noteq> [] then [(''type'', t)] else [])
      in case newRequest (g_world g) c ''GET'' (instanceAPIEndpoint c ''/monitorings'') (Some query) None of
           Inl err \<Rightarrow> ([], Inl err)
         | Inr request \<Rightarrow>
             ([request], snd (doJSON (Some (g_decode g)) [] ''get_monitorings'' (g_duration g t) (g_reply g t))))"

text \<open>The two nested loops, with the types and the identifiers seen.\<close>

fun fetch_types ::
    "(mon_type \<Rightarrow> http_request list \<times> (client_error + monitoring list)) \<Rightarrow> mon_type set \<Rightarrow> string set \<Rightarrow> mon_type list \<Rightarrow>
     http_request list \<times> (client_error + monitoring list)" where
  "fetch_types fetch seenTypes seenMonitorings [] = ([], Inr [])"
| "fetch_types fetch seenTypes seenMonitorings (t # ts) =
     (if t \<in> seenTypes then fetch_types fetch seenTypes seenMonitorings ts
      else case fetch t of
             (requests, Inl err) \<Rightarrow> (requests, Inl err)
           | (requests, Inr items) \<Rightarrow>
               (case fetch_types fetch (insert t seenTypes) (seenMonitorings \<union> m_ID ` set items) ts of
                  (requests', Inl err) \<Rightarrow> (requests @ requests', Inl err)
                | (requests', Inr monitorings) \<Rightarrow>
                    (requests @ requests', Inr (keep_first m_ID seenMonitorings items @ monitorings))))"

definition getMonitorings ::
    "getter \<Rightarrow> client \<Rightarrow> string \<Rightarrow> mon_type list \<Rightarrow> http_request list \<times> (client_error + monitoring list)" where
  "getMonitorings g c location types =
     (let location = trim_space location
      in if location = [] then ([], Inl (Rejected ''WEBGUARD_LOCATION is empty''))
         else if cl_instanceCode c = [] then ([], Inl (Rejected ''WEBGUARD_LOCATION is empty''))
         else if location \<noteq> cl_instanceCode c then ([], Inl (Rejected ''location must match instance code''))
         else if types = [] then getMonitoringsOf g c location []
         else fetch_types (getMonitoringsOf g c location) {} {} types)"

section \<open>Jobs\<close>

text \<open>\<open>url.PathEscape\<close>: everything but letters, digits and \<open>-_.~$&+=:@\<close> becomes \<open>%XX\<close>.\<close>

definition path_safe :: "char \<Rightarrow> bool" where
  "path_safe c \<longleftrightarrow>
     (let n = (of_char c :: nat)
      in 48 \<le> n \<and> n \<le> 57 \<or> 65 \<le> n \<and> n \<le> 90 \<or> 97 \<le> n \<and> n \<le> 122) \<or> c \<in> set ''-_.~$&+=:@''"

definition path_escape :: "string \<Rightarrow> string" where
  "path_escape s =
     concat (map (\<lambda>c. if path_safe c then [c]
                      else CHR ''%'' # to_upper [hex_digit (of_char c div 16), hex_digit (of_char c mod 16)]) s)"

definition validateClaim :: "claim_request \<Rightarrow> client_error option" where
  "validateClaim payload =
     (if trim_space (cr_Location payload) = [] then Some (Rejected ''claim location is empty'')
      else if trim_space (cr_InstanceID payload) = [] then Some (Rejected ''WEBGUARD_INSTANCE_ID is empty'')
      else if cr_Capacity payload < 1 then Some (Rejected ''claim capacity must be positive'')
      else if cr_MaxBatchSize payload < 1 then Some (Rejected ''claim max batch size must be positive'')
      else if cr_MaxBatchSize payload > maxClaimBatchSize then Some (Rejected ''claim max batch size exceeds the limit'')
      else None)"

definition claimMonitoringJobs ::
    "world \<Rightarrow> client \<Rightarrow> claim_request \<Rightarrow> (string \<Rightarrow> claimed_job list option) \<Rightarrow> duration \<Rightarrow> reply \<Rightarrow>
     http_request list \<times> (client_error + claimed_job list)" where
  "claimMonitoringJobs w c payload decode d r =
     (case validateClaim payload of
        Some err \<Rightarrow> ([], Inl err)
      | None \<Rightarrow>
          (case newRequest w c ''POST'' (instanceAPIEndpoint c ''/monitoring-jobs/claim'') None (Some (ClaimMonitoringJobs payload)) of
             Inl err \<Rightarrow> ([], Inl err)
           | Inr request \<Rightarrow>
               (case snd (doJSON (Some decode) [] ''claim_monitoring_jobs'' d r) of
                  Inl err \<Rightarrow> ([request], Inl err)
                | Inr jobs \<Rightarrow>
                    if int (length jobs) > cr_MaxBatchSize payload
                    then ([request], Inl (Rejected ''Core API returned more jobs than the requested batch limit''))
                    else ([request], Inr jobs))))"

definition job_path :: "string \<Rightarrow> string \<Rightarrow> string" where
  "job_path jobID action = ''/monitoring-jobs/'' @ path_escape jobID @ ''/'' @ action"

definition completeMonitoringJob ::
    "world \<Rightarrow> client \<Rightarrow> string \<Rightarrow> string \<Rightarrow> int \<Rightarrow> job_result \<Rightarrow> duration \<Rightarrow> reply \<Rightarrow> http_request list \<times> client_error option" where
  "completeMonitoringJob w c jobID idempotencyKey attempt result d r =
     (if trim_space jobID = [] then ([], Some (Rejected ''job ID is empty''))
      else if trim_space idempotencyKey = [] then ([], Some (Rejected ''job idempotency key is empty''))
      else case newRequest w c ''POST'' (instanceAPIEndpoint c (job_path jobID ''complete'')) None
                  (Some (CompleteMonitoringJob jobID idempotencyKey attempt result)) of
             Inl err \<Rightarrow> ([], Some err)
           | Inr request \<Rightarrow>
               ([set_header ''Idempotency-Key'' idempotencyKey request],
                case snd (doJSON None () ''complete_monitoring_job'' d r) of Inl err \<Rightarrow> Some err | Inr _ \<Rightarrow> None))"

definition releaseMonitoringJob ::
    "world \<Rightarrow> client \<Rightarrow> string \<Rightarrow> int \<Rightarrow> string \<Rightarrow> duration \<Rightarrow> reply \<Rightarrow> http_request list \<times> client_error option" where
  "releaseMonitoringJob w c jobID attempt reason d r =
     (if trim_space jobID = [] then ([], Some (Rejected ''job ID is empty''))
      else case newRequest w c ''POST'' (instanceAPIEndpoint c (job_path jobID ''release'')) None
                  (Some (ReleaseMonitoringJob jobID attempt reason)) of
             Inl err \<Rightarrow> ([], Some err)
           | Inr request \<Rightarrow>
               ([request], case snd (doJSON None () ''release_monitoring_job'' d r) of Inl err \<Rightarrow> Some err | Inr _ \<Rightarrow> None))"

definition extendMonitoringJob ::
    "world \<Rightarrow> client \<Rightarrow> string \<Rightarrow> int \<Rightarrow> (string \<Rightarrow> instant option) \<Rightarrow> duration \<Rightarrow> reply \<Rightarrow>
     http_request list \<times> (client_error + instant)" where
  "extendMonitoringJob w c jobID attempt decode d r =
     (if trim_space jobID = [] then ([], Inl (Rejected ''job ID is empty''))
      else case newRequest w c ''POST'' (instanceAPIEndpoint c (job_path jobID ''extend'')) None
                  (Some (ExtendMonitoringJob jobID attempt)) of
             Inl err \<Rightarrow> ([], Inl err)
           | Inr request \<Rightarrow> ([request], snd (doJSON (Some decode) 0 ''extend_monitoring_job'' d r)))"

section \<open>Requests go where they should\<close>

named_theorems client_result \<open>what a successful or failed step of the client tells\<close>

lemma checkEndpoint_None [client_result]:
  "checkEndpoint e = None \<longleftrightarrow>
   u_Scheme e \<in> {''http'', ''https''} \<and> u_Host e \<noteq> [] \<and> \<not> u_HasUser e \<and> u_RawQuery e = [] \<and> u_Fragment e = []"
  by (simp add: checkEndpoint_def)

lemma newRequest_InrD:
  assumes "newRequest w c httpMethod path query body = Inr r"
  shows "cl_instanceAPIPath c \<noteq> [] \<and> (\<exists>e. w_parse w (cl_baseURL c @ path) = Some e \<and> checkEndpoint e = None) \<and>
    (\<exists>apiKey. configuredAPIKey w c = Inr apiKey \<and> hr_headers r = requestHeaders c apiKey body) \<and>
    hr_method r = httpMethod \<and> hr_endpoint r = cl_baseURL c @ path \<and> hr_body r = body"
  using assms by (auto simp: newRequest_def split: if_splits option.splits sum.splits)

lemma requestHeaders_read:
  "map_read [] (requestHeaders c apiKey body) ''X-API-KEY'' = apiKey"
  "map_read [] (requestHeaders c apiKey body) ''X-INSTANCE-CODE'' = cl_instanceCode c"
  by (simp_all add: requestHeaders_def Let_def)

lemma exchange_Inr [client_result]:
  "exchange decoder out r = Inr v \<longleftrightarrow>
   (\<exists>status raw. r = Reply status (Some raw) \<and> length raw \<le> maxResponseBodyBytes \<and> status < 400 \<and>
      (case decoder of None \<Rightarrow> v = out | Some decode \<Rightarrow> if raw = [] then v = out else decode raw = Some v))"
  by (auto simp: exchange_def readLimitedBody_def Let_def not_le split: reply.splits option.splits if_splits)

lemma configuredAPIKey_trimmed:
  assumes "configuredAPIKey w c = Inr k" "trim_space (cl_apiKey c) = cl_apiKey c"
  shows "trim_space k = k"
  using assms by (auto simp: configuredAPIKey_def Let_def split: if_splits option.splits)

text \<open>What the constructors guarantee and no setter gives up.\<close>

definition client_ok :: "client \<Rightarrow> bool" where
  "client_ok c \<longleftrightarrow>
     trim_right_byte CHR ''/'' (cl_baseURL c) = cl_baseURL c \<and> trim_space (cl_apiKey c) = cl_apiKey c \<and>
     trim_space (cl_apiKeyFile c) = cl_apiKeyFile c \<and> trim_space (cl_instanceCode c) = cl_instanceCode c \<and>
     cl_instanceAPIPath c \<in> {[], ''/api/instances''}"

lemma trim_right_byte_idem [simp]: "trim_right_byte b (trim_right_byte b s) = trim_right_byte b s"
  by (simp add: trim_right_byte_def)

lemma client_ok_new: "client_ok (NewClient baseURL apiKey instanceCode)"
  by (simp add: client_ok_def NewClient_def DefaultInstanceAPIBasePath_def)

lemma client_ok_set_path: "client_ok c \<Longrightarrow> SetInstanceAPIPath p c = Inr c' \<Longrightarrow> client_ok c'"
  by (auto simp: client_ok_def SetInstanceAPIPath_def normalizeInstanceAPIPath_def DefaultInstanceAPIBasePath_def Let_def
      split: if_splits)

lemma client_ok_set_file: "client_ok c \<Longrightarrow> client_ok (SetAPIKeyFile p c)"
  by (simp add: client_ok_def SetAPIKeyFile_def)

lemma client_ok_new_path: "client_ok (NewClientWithInstanceAPIPath baseURL apiKey instanceCode p)"
proof (cases "SetInstanceAPIPath p (NewClient baseURL apiKey instanceCode)")
  case (Inl err)
  then show ?thesis using client_ok_new [of baseURL apiKey instanceCode]
    by (simp add: NewClientWithInstanceAPIPath_def client_ok_def)
next
  case (Inr c')
  with client_ok_set_path [OF client_ok_new Inr] show ?thesis by (simp add: NewClientWithInstanceAPIPath_def)
qed

text \<open>
  C28. Every request of a constructed client goes to the configured base URL under
  \<open>/api/instances\<close>, over \<open>http\<close> or \<open>https\<close>, with a host, without credentials,
  query or fragment in that URL, and carries the trimmed instance code and API key when there
  are any; the key is the one in the key file when one is configured.
\<close>

lemma requests_stay_under_base:
  assumes "c = SetAPIKeyFile keyFile (NewClientWithInstanceAPIPath baseURL apiKey instanceCode apiPath)"
    "newRequest w c httpMethod (instanceAPIEndpoint c ending) query body = Inr r"
  shows "hr_endpoint r = trim_right_byte CHR ''/'' baseURL @ ''/api/instances'' @ ending \<and>
    (\<exists>e. w_parse w (hr_endpoint r) = Some e \<and> u_Scheme e \<in> {''http'', ''https''} \<and> u_Host e \<noteq> [] \<and>
       \<not> u_HasUser e \<and> u_RawQuery e = [] \<and> u_Fragment e = []) \<and>
    map_read [] (hr_headers r) ''X-INSTANCE-CODE'' = trim_space instanceCode \<and>
    (\<exists>key. configuredAPIKey w c = Inr key \<and> map_read [] (hr_headers r) ''X-API-KEY'' = key \<and> trim_space key = key)"
proof -
  have ok: "client_ok c" unfolding assms(1) by (intro client_ok_set_file client_ok_new_path)
  have base: "cl_baseURL c = trim_right_byte CHR ''/'' baseURL" "cl_instanceCode c = trim_space instanceCode"
    by (auto simp: assms(1) SetAPIKeyFile_def NewClientWithInstanceAPIPath_def NewClient_def SetInstanceAPIPath_def Let_def
        split: sum.split)
  note d = newRequest_InrD [OF assms(2)]
  have r: "cl_instanceAPIPath c \<noteq> []" "hr_endpoint r = cl_baseURL c @ instanceAPIEndpoint c ending"
    using d by simp_all
  obtain e where "w_parse w (cl_baseURL c @ instanceAPIEndpoint c ending) = Some e" "checkEndpoint e = None"
    using d by (elim conjE exE) (rule that)
  with r(2) have e: "w_parse w (hr_endpoint r) = Some e" "checkEndpoint e = None" by simp_all
  obtain key where k: "configuredAPIKey w c = Inr key" "hr_headers r = requestHeaders c key body"
    using d by (elim conjE exE) (rule that)
  have "cl_instanceAPIPath c = ''/api/instances''" using ok r(1) by (simp add: client_ok_def)
  moreover have "trim_space key = key"
    by (rule configuredAPIKey_trimmed [OF k(1)]) (use ok in \<open>simp add: client_ok_def\<close>)
  ultimately show ?thesis using r(2) e k base requestHeaders_read [of c key body] checkEndpoint_None [of e]
    by (simp add: instanceAPIEndpoint_def)
qed

section \<open>Callbacks are retried safely\<close>

lemma sent_callback:
  assumes "sendCallback c path operation key payload a = Inr (r, t, e)"
  shows "hr_method r = ''POST'' \<and> hr_body r = Some payload \<and>
    hr_endpoint r = cl_baseURL c @ cl_instanceAPIPath c @ path \<and>
    (key = [] \<or> map_of (hr_headers r) ''Idempotency-Key'' = Some key) \<and>
    (case e of None \<Rightarrow> exchange None () (at_reply a) = Inr () | Some e' \<Rightarrow> exchange None () (at_reply a) = Inl e')"
  using assms
  by (cases "key = []")
     (auto simp: sendCallback_def doJSON_def Let_def set_header_def instanceAPIEndpoint_def
      split: sum.splits dest!: newRequest_InrD)

lemma retryable_iff: "isRetryableCallbackError e \<longleftrightarrow> e = Transport \<or> (\<exists>status body. e = HTTPStatus status body \<and> status \<ge> 500)"
  by (cases e) (auto simp: isRetryableCallbackError_def)

text \<open>
  C27. A callback is sent at most twice, and a second time only when it carries an idempotency
  key and the first attempt failed in transport or with a server error while the context was
  still alive; both requests are the same POST with the same key and payload, each is counted
  once by the telemetry, and success is reported only when Core accepted the last one.
\<close>

lemma callbacks_retried_safely:
  assumes "postCallbackJSON c path operation key payload attempts = (requests, ops, err)"
  shows "length requests \<le> 2 \<and> length ops = length requests \<and>
    (length requests = 2 \<longrightarrow>
       trim_space key \<noteq> [] \<and> \<not> at_ctx_err (attempts 0) \<and> \<not> at_wait_done (attempts 0) \<and>
       (\<exists>e. exchange None () (at_reply (attempts 0)) = Inl e \<and> (e = Transport \<or> (\<exists>status body. e = HTTPStatus status body \<and> status \<ge> 500)))) \<and>
    list_all (\<lambda>r. hr_method r = ''POST'' \<and> hr_body r = Some payload \<and>
        hr_endpoint r = cl_baseURL c @ cl_instanceAPIPath c @ path \<and>
        (key = [] \<or> map_of (hr_headers r) ''Idempotency-Key'' = Some key)) requests \<and>
    (err \<noteq> None \<or> requests \<noteq> [] \<and> exchange None () (at_reply (attempts (length requests - 1))) = Inr ())"
proof -
  note one = sent_callback [of c path operation key payload]
  show ?thesis
  proof (cases "sendCallback c path operation key payload (attempts 0)")
    case (Inl err')
    then show ?thesis using assms by (auto simp: postCallbackJSON_def maxAttempts_def numeral_2_eq_2 split: if_splits)
  next
    case (Inr x)
    obtain r1 t1 e1 where x: "x = (r1, t1, e1)" by (cases x)
    note first = one [OF Inr [unfolded x]]
    show ?thesis
    proof (cases "requests = [r1]")
      case True
      have "length ops = 1 \<and> (err = None \<longrightarrow> e1 = None)"
        using assms Inr x True
        by (cases "sendCallback c path operation key payload (attempts 1)")
           (auto simp: postCallbackJSON_def maxAttempts_def numeral_2_eq_2 split: if_splits prod.splits)
      with True first show ?thesis by (cases err) auto
    next
      case False
      with assms Inr x have again: "trim_space key \<noteq> []" "e1 \<noteq> None" "\<not> at_ctx_err (attempts 0)"
        "isRetryableCallbackError (the e1)" "\<not> at_wait_done (attempts 0)"
        by (auto simp: postCallbackJSON_def maxAttempts_def numeral_2_eq_2 split: if_splits prod.splits)
      show ?thesis
      proof (cases "sendCallback c path operation key payload (attempts 1)")
        case (Inl err')
        with assms False Inr x again show ?thesis
          by (simp add: postCallbackJSON_def maxAttempts_def numeral_2_eq_2)
      next
        case (Inr y)
        obtain r2 t2 e2 where y: "y = (r2, t2, e2)" by (cases y)
        note second = one [OF Inr [unfolded y]]
        have "requests = [r1, r2] \<and> length ops = 2 \<and> err = e2"
          using assms Inr y \<open>sendCallback c path operation key payload (attempts 0) = Inr x\<close> x again
          by (auto simp: postCallbackJSON_def maxAttempts_def numeral_2_eq_2)
        moreover from again obtain e where "e1 = Some e" "isRetryableCallbackError e" by auto
        moreover from this first have "exchange None () (at_reply (attempts 0)) = Inl e" by simp
        moreover have "err \<noteq> None \<or> exchange None () (at_reply (attempts 1)) = Inr ()" if "err = e2"
          using second that by (cases e2) simp_all
        ultimately show ?thesis using first second again(1,3,5) retryable_iff [of e] by simp
      qed
    qed
  qed
qed

lemma requests_stay_under_base_witness:
  "let c = SetAPIKeyFile [] (NewClientWithInstanceAPIPath ''https://core/'' ''k'' ''de'' ''api/instances/'');
       e = \<lparr>u_Scheme = ''https'', u_Host = ''core'', u_Hostname = ''core'', u_HasUser = False, u_RawQuery = [], u_Fragment = []\<rparr>;
       w = \<lparr>w_parse = (\<lambda>_. Some e), w_file = (\<lambda>_. None), w_marshals = (\<lambda>_. True), w_builds = (\<lambda>_ _ _. True)\<rparr>
   in \<exists>r. newRequest w c ''GET'' (instanceAPIEndpoint c ''/monitorings'') None None = Inr r \<and>
        hr_endpoint r = ''https://core/api/instances/monitorings'' \<and> map_read [] (hr_headers r) ''X-API-KEY'' = ''k''"
proof -
  let ?c = "SetAPIKeyFile [] (NewClientWithInstanceAPIPath ''https://core/'' ''k'' ''de'' ''api/instances/'')"
  let ?e = "\<lparr>u_Scheme = ''https'', u_Host = ''core'', u_Hostname = ''core'', u_HasUser = False, u_RawQuery = [], u_Fragment = []\<rparr>"
  let ?w = "\<lparr>w_parse = (\<lambda>_. Some ?e), w_file = (\<lambda>_. None), w_marshals = (\<lambda>_. True), w_builds = (\<lambda>_ _ _. True)\<rparr>"
  have t: "trim_space ''k'' = ''k''" "trim_space ''de'' = ''de''" "trim_space ''api/instances/'' = ''api/instances/''"
    "trim_right_byte CHR ''/'' ''https://core/'' = ''https://core''" "trim_byte CHR ''/'' ''api/instances/'' = ''api/instances''"
    by code_simp+
  have c: "?c = \<lparr>cl_baseURL = ''https://core'', cl_apiKey = ''k'', cl_apiKeyFile = [], cl_instanceCode = ''de'',
      cl_instanceAPIPath = ''/api/instances''\<rparr>"
    by (simp add: SetAPIKeyFile_def NewClientWithInstanceAPIPath_def NewClient_def SetInstanceAPIPath_def
        normalizeInstanceAPIPath_def DefaultInstanceAPIBasePath_def t)
  have k: "configuredAPIKey ?w ?c = Inr ''k''" unfolding c by (simp add: configuredAPIKey_def)
  obtain r where r: "newRequest ?w ?c ''GET'' (instanceAPIEndpoint ?c ''/monitorings'') None None = Inr r"
    unfolding c by (simp add: newRequest_def checkEndpoint_def configuredAPIKey_def)
  from requests_stay_under_base [OF refl r] r k show ?thesis by (auto simp: Let_def t)
qed

lemma callbacks_retried_safely_witness:
  "let c = \<lparr>cl_baseURL = ''https://core'', cl_apiKey = [], cl_apiKeyFile = [], cl_instanceCode = ''de'',
            cl_instanceAPIPath = ''/api/instances''\<rparr>;
       e = \<lparr>u_Scheme = ''https'', u_Host = ''core'', u_Hostname = ''core'', u_HasUser = False, u_RawQuery = [], u_Fragment = []\<rparr>;
       a = (\<lambda>k. \<lparr>at_world = \<lparr>w_parse = (\<lambda>_. Some e), w_file = (\<lambda>_. None), w_marshals = (\<lambda>_. True), w_builds = (\<lambda>_ _ _. True)\<rparr>,
                 at_reply = (if k = 0 then Reply 503 (Some []) else Reply 200 (Some [])),
                 at_duration = 1, at_ctx_err = False, at_wait_done = False\<rparr>)
   in \<exists>requests ops. postCallbackJSON c ''/ssl-results'' ''post_ssl_result'' ''k'' (ReleaseMonitoringJob ''1'' 1 []) a = (requests, ops, None) \<and>
        length requests = 2"
proof -
  let ?c = "\<lparr>cl_baseURL = ''https://core'', cl_apiKey = [], cl_apiKeyFile = [], cl_instanceCode = ''de'',
            cl_instanceAPIPath = ''/api/instances''\<rparr>"
  let ?e = "\<lparr>u_Scheme = ''https'', u_Host = ''core'', u_Hostname = ''core'', u_HasUser = False, u_RawQuery = [], u_Fragment = []\<rparr>"
  let ?a = "\<lambda>k :: nat. \<lparr>at_world = \<lparr>w_parse = (\<lambda>_. Some ?e), w_file = (\<lambda>_. None), w_marshals = (\<lambda>_. True), w_builds = (\<lambda>_ _ _. True)\<rparr>,
                 at_reply = (if k = 0 then Reply 503 (Some []) else Reply 200 (Some [])),
                 at_duration = 1, at_ctx_err = False, at_wait_done = False\<rparr>"
  have t: "trim_space ''k'' = ''k''" by code_simp
  obtain requests ops where r:
    "postCallbackJSON ?c ''/ssl-results'' ''post_ssl_result'' ''k'' (ReleaseMonitoringJob ''1'' 1 []) ?a = (requests, ops, None)"
    "length requests = 2"
    by (simp add: postCallbackJSON_def maxAttempts_def t numeral_2_eq_2 sendCallback_def newRequest_def checkEndpoint_def
        configuredAPIKey_def doJSON_def exchange_def readLimitedBody_def isRetryableCallbackError_def)
  from callbacks_retried_safely [OF r(1)] r show ?thesis by (auto simp: Let_def)
qed

section \<open>Monitorings are fetched once\<close>

text \<open>The items a type yields, and the types in the order they are first asked for.\<close>

definition items_of :: "(mon_type \<Rightarrow> http_request list \<times> (client_error + monitoring list)) \<Rightarrow> mon_type \<Rightarrow> monitoring list" where
  "items_of fetch t = (case snd (fetch t) of Inl err \<Rightarrow> [] | Inr items \<Rightarrow> items)"

lemma keep_first_append:
  "keep_first f seen (xs @ ys) = keep_first f seen xs @ keep_first f (seen \<union> f ` set xs) ys"
proof (induction xs arbitrary: seen)
  case (Cons x xs)
  have "insert (f x) seen = seen" if "f x \<in> seen" using that by auto
  with Cons show ?case by (auto simp: insert_absorb)
qed simp

lemma fetch_types_spec:
  "fetch_types fetch seenTypes seen ts = (requests, Inr ms) \<Longrightarrow>
   (let asked = keep_first (\<lambda>t. t) seenTypes ts in
      ms = keep_first m_ID seen (concat (map (items_of fetch) asked)) \<and>
      requests = concat (map (fst \<circ> fetch) asked) \<and> (\<forall>t \<in> set asked. \<exists>items. snd (fetch t) = Inr items))"
proof (induction ts arbitrary: seenTypes seen requests ms)
  case (Cons t ts)
  show ?case
  proof (cases "t \<in> seenTypes")
    case True
    with Cons show ?thesis by simp
  next
    case False
    with Cons.prems obtain rs items rs' ms' where
      f: "fetch t = (rs, Inr items)" and
      rec: "fetch_types fetch (insert t seenTypes) (seen \<union> m_ID ` set items) ts = (rs', Inr ms')" and
      eq: "requests = rs @ rs'" "ms = keep_first m_ID seen items @ ms'"
      by (auto split: prod.splits sum.splits)
    from Cons.IH [OF rec] False f eq show ?thesis
      by (simp add: Let_def keep_first_append items_of_def)
  qed
qed simp

text \<open>
  C29. A successful fetch for several types is the reference answer: every type is asked for
  once, in the order given, and the result is the answers one after the other with only the
  first monitoring of each identifier kept, so that no monitoring is checked twice in a phase.
  The location asked for is always the worker's own.
\<close>

lemma getMonitorings_is_reference:
  assumes "getMonitorings g c location types = (requests, Inr ms)" "types \<noteq> []"
  shows "trim_space location = cl_instanceCode c \<and> cl_instanceCode c \<noteq> [] \<and>
    (let asked = keep_first (\<lambda>t. t) {} types; answer = items_of (getMonitoringsOf g c (trim_space location)) in
       ms = keep_first m_ID {} (concat (map answer asked)) \<and> distinct (map m_ID ms) \<and>
       m_ID ` set ms = m_ID ` (\<Union>t \<in> set types. set (answer t)) \<and>
       requests = concat (map (fst \<circ> getMonitoringsOf g c (trim_space location)) asked))"
proof -
  from assms have loc: "trim_space location = cl_instanceCode c" "cl_instanceCode c \<noteq> []" and
    f: "fetch_types (getMonitoringsOf g c (trim_space location)) {} {} types = (requests, Inr ms)"
    by (auto simp: getMonitorings_def Let_def split: if_splits)
  have "(\<lambda>t. t) ` set (keep_first (\<lambda>t. t) {} types) = (\<lambda>t. t) ` set types - {}" by (rule keep_first_keys)
  then have types: "set (keep_first (\<lambda>t. t) {} types) = set types" by simp
  from fetch_types_spec [OF f] loc types show ?thesis
    by (auto simp: Let_def keep_first_distinct keep_first_keys)
qed

lemma getMonitorings_is_reference_witness:
  "let e = \<lparr>u_Scheme = ''https'', u_Host = ''core'', u_Hostname = ''core'', u_HasUser = False, u_RawQuery = [], u_Fragment = []\<rparr>;
       c = \<lparr>cl_baseURL = ''https://core'', cl_apiKey = [], cl_apiKeyFile = [], cl_instanceCode = ''de'',
            cl_instanceAPIPath = ''/api/instances''\<rparr>;
       g = \<lparr>g_world = \<lparr>w_parse = (\<lambda>_. Some e), w_file = (\<lambda>_. None), w_marshals = (\<lambda>_. True), w_builds = (\<lambda>_ _ _. True)\<rparr>, g_reply = (\<lambda>_. Reply 200 (Some ''x'')),
            g_duration = (\<lambda>_. 1), g_decode = (\<lambda>_. Some [zero_monitoring])\<rparr>
   in \<exists>requests ms. getMonitorings g c ''de'' [''http'', ''ping'', ''http''] = (requests, Inr ms) \<and>
        length requests = 2 \<and> distinct (map m_ID ms)"
proof -
  let ?e = "\<lparr>u_Scheme = ''https'', u_Host = ''core'', u_Hostname = ''core'', u_HasUser = False, u_RawQuery = [], u_Fragment = []\<rparr>"
  let ?c = "\<lparr>cl_baseURL = ''https://core'', cl_apiKey = [], cl_apiKeyFile = [], cl_instanceCode = ''de'',
            cl_instanceAPIPath = ''/api/instances''\<rparr>"
  let ?g = "\<lparr>g_world = \<lparr>w_parse = (\<lambda>_. Some ?e), w_file = (\<lambda>_. None), w_marshals = (\<lambda>_. True), w_builds = (\<lambda>_ _ _. True)\<rparr>, g_reply = (\<lambda>_. Reply 200 (Some ''x'')),
            g_duration = (\<lambda>_. 1), g_decode = (\<lambda>_. Some [zero_monitoring])\<rparr>"
  have t: "trim_space ''de'' = ''de''" by code_simp
  obtain requests ms where r: "getMonitorings ?g ?c ''de'' [''http'', ''ping'', ''http''] = (requests, Inr ms)"
    "length requests = 2"
    by (simp add: Let_def getMonitorings_def t getMonitoringsOf_def newRequest_def checkEndpoint_def configuredAPIKey_def
        doJSON_def exchange_def readLimitedBody_def maxResponseBodyBytes_def)
  from getMonitorings_is_reference [OF r(1)] r show ?thesis by (auto simp: Let_def)
qed

section \<open>Claims\<close>

text \<open>
  A claim that succeeds yields at most the batch that was asked for, which is at most 256,
  and sent exactly one request; an invalid claim sends none.
\<close>

lemma claims_are_bounded:
  assumes "claimMonitoringJobs w c payload decode d r = (requests, result)"
  shows "length requests \<le> 1 \<and>
    (\<forall>err. validateClaim payload = Some err \<longrightarrow> requests = [] \<and> result = Inl err) \<and>
    (\<forall>jobs. result = Inr jobs \<longrightarrow>
       length requests = 1 \<and> int (length jobs) \<le> cr_MaxBatchSize payload \<and> cr_MaxBatchSize payload \<le> 256 \<and>
       1 \<le> cr_Capacity payload)"
  using assms
  by (auto simp: claimMonitoringJobs_def validateClaim_def maxClaimBatchSize_def split: option.splits sum.splits if_splits)

lemma claims_are_bounded_witness:
  "\<forall>w c d r. fst (claimMonitoringJobs w c \<lparr>cr_Location = ''de'', cr_InstanceID = ''i'', cr_Capabilities = [],
      cr_Capacity = 3, cr_MaxBatchSize = 257\<rparr> (\<lambda>_. None) d r) = []"
proof (intro allI)
  fix w c d r
  let ?p = "\<lparr>cr_Location = ''de'', cr_InstanceID = ''i'', cr_Capabilities = [], cr_Capacity = 3, cr_MaxBatchSize = 257\<rparr>"
  obtain requests result where q: "claimMonitoringJobs w c ?p (\<lambda>_. None) d r = (requests, result)"
    by (cases "claimMonitoringJobs w c ?p (\<lambda>_. None) d r")
  have "trim_space ''de'' = ''de''" "trim_space ''i'' = ''i''" by code_simp+
  then have "validateClaim ?p = Some (Rejected ''claim max batch size exceeds the limit'')"
    by (simp add: validateClaim_def maxClaimBatchSize_def)
  with claims_are_bounded [OF q] q show "fst (claimMonitoringJobs w c ?p (\<lambda>_. None) d r) = []" by simp
qed

section \<open>Redirects and response sizes\<close>

definition same_origin :: "string \<times> string \<Rightarrow> string \<times> string \<Rightarrow> bool" where
  "same_origin origin x \<longleftrightarrow> fst x = fst origin \<and> equal_fold (snd x) (snd origin)"

lemma redirect_allowed:
  "rejectCrossOriginRedirect target (origin # via) = None \<longleftrightarrow> length via < 4 \<and> same_origin origin target"
  by (auto simp: rejectCrossOriginRedirect_def same_origin_def)

lemma follow_redirects_origin:
  "length via < 5 \<Longrightarrow> list_all (same_origin origin) (origin # via) \<Longrightarrow>
   length (follow_redirects (origin # via) targets) \<le> 5 \<and>
   list_all (same_origin origin) (follow_redirects (origin # via) targets)"
proof (induction targets arbitrary: via)
  case (Cons target targets)
  show ?case
  proof (cases "rejectCrossOriginRedirect target (origin # via) = None")
    case True
    then have "length via < 4" "same_origin origin target" by (simp_all add: redirect_allowed)
    with Cons.IH [of "via @ [target]"] Cons.prems True show ?thesis by simp
  next
    case False
    with Cons.prems show ?thesis by simp
  qed
qed simp

text \<open>
  Redirects never carry the API key to another origin: starting from a request to the
  Core origin, every request the client makes, whatever redirects it is offered, has the same
  scheme and host, and there are at most five of them.
\<close>

lemma redirects_stay_on_origin:
  "let visited = follow_redirects [origin] targets in
    length visited \<le> 5 \<and> list_all (\<lambda>x. fst x = fst origin \<and> equal_fold (snd x) (snd origin)) visited"
  using follow_redirects_origin [of "[]" origin targets]
  by (simp add: Let_def same_origin_def [abs_def] equal_fold_def)

lemma readLimitedBody_exact:
  "readLimitedBody body maxBytes = Inr payload \<longleftrightarrow> body = Some payload \<and> length payload \<le> maxBytes"
  by (auto simp: readLimitedBody_def Let_def not_le split: option.splits)

section \<open>Job identifiers in paths\<close>

fun path_unescape :: "string \<Rightarrow> string option" where
  "path_unescape [] = Some []"
| "path_unescape (c # cs) =
     (if c = CHR ''%'' then
        (case cs of
           h # l # rst \<Rightarrow>
             (case (hex_value h, hex_value l, path_unescape rst) of
                (Some a, Some b, Some r) \<Rightarrow> Some (char_of (16 * a + b) # r)
              | _ \<Rightarrow> None)
         | _ \<Rightarrow> None)
      else map_option (\<lambda>r. c # r) (path_unescape cs))"

lemma upper_hex:
  assumes "n < 16"
  shows "hex_value (upper_byte (hex_digit n)) = Some n \<and> path_safe (upper_byte (hex_digit n))"
proof (cases "n < 10")
  case True
  then have "upper_byte (hex_digit n) = hex_digit n" by (simp add: upper_byte_def hex_digit_def)
  with True show ?thesis by (simp add: hex_value_digit) (simp add: path_safe_def hex_digit_def)
next
  case False
  with assms have "upper_byte (hex_digit n) = char_of (55 + n)" by (simp add: upper_byte_def hex_digit_def)
  with False assms show ?thesis by (simp add: hex_value_def path_safe_def)
qed

lemma hex_digit_ascii: "n < 16 \<Longrightarrow> hex_digit n \<noteq> CHR 0xC4 \<and> hex_digit n \<noteq> CHR 0xC5"
proof -
  assume "n < 16"
  then have "(of_char (hex_digit n) :: nat) < 128" by (simp add: hex_digit_def)
  then show ?thesis by auto
qed

lemma percent_not_safe: "\<not> path_safe CHR ''%''" "\<not> path_safe CHR ''/''" "\<not> path_safe CHR ''?''" "\<not> path_safe CHR ''#''"
  by (simp_all add: path_safe_def)

text \<open>
  A job identifier stays one segment of the path: its escaped form contains no slash,
  question mark or number sign, and different identifiers have different paths.
\<close>

lemma job_paths_confined:
  "set (path_escape jobID) \<inter> {CHR ''/'', CHR ''?'', CHR ''#''} = {} \<and> path_unescape (path_escape jobID) = Some jobID"
proof (induction jobID)
  case (Cons c cs)
  have n: "(of_char c :: nat) div 16 < 16" "(of_char c :: nat) mod 16 < 16"
    using nat_of_char_less_256 [of c] by (auto simp: less_mult_imp_div_less)
  show ?case
  proof (cases "path_safe c")
    case True
    then have "c \<notin> {CHR ''%'', CHR ''/'', CHR ''?'', CHR ''#''}" using percent_not_safe by auto
    with True Cons show ?thesis by (auto simp: path_escape_def)
  next
    case False
    let ?h = "upper_byte (hex_digit (of_char c div 16))" and ?l = "upper_byte (hex_digit (of_char c mod 16))"
    have "path_safe ?h" "path_safe ?l" using upper_hex n by blast+
    then have "{?h, ?l} \<inter> {CHR ''/'', CHR ''?'', CHR ''#''} = {}" using percent_not_safe by auto
    moreover have "path_escape (c # cs) = CHR ''%'' # ?h # ?l # path_escape cs"
      using False hex_digit_ascii n by (simp add: path_escape_def to_upper.simps)
    ultimately show ?thesis using Cons upper_hex n by (auto simp: mult.commute)
  qed
qed (simp add: path_escape_def)

end
