(* ===== verification/Go_Text.thy ===== *)
theory Go_Text
  imports Go_Strconv
begin

text \<open>
  Further text functions of Go's library: \<open>strings.Fields\<close> and \<open>strings.Join\<close>,
  \<open>strconv.Unquote\<close> and the UTF-8 encoding it needs. Text outside ASCII is taken to be valid
  UTF-8, as everything the worker decodes from JSON is.
\<close>

section \<open>Fields\<close>

text \<open>The number of bytes before the next white space rune.\<close>

fun word_length :: "string \<Rightarrow> nat" where
  "word_length [] = 0"
| "word_length (c # cs) = (if starts_with_one go_spaces (c # cs) > 0 then 0 else 1 + word_length cs)"

lemma word_length_le: "word_length s \<le> length s"
  by (induction s) auto

function text_fields :: "string \<Rightarrow> string list" where
  "text_fields s =
     (let t = trim_left s; n = word_length t
      in if n = 0 then [] else take n t # text_fields (drop n t))"
  by pat_completeness auto
termination
proof (relation "measure length")
  fix s t :: string and n
  assume "t = trim_left s" "n = word_length t" "n \<noteq> 0"
  moreover have "length (trim_left s) \<le> length s"
    unfolding trim_left_def
  proof (induction go_spaces s rule: strip_front.induct)
    case (1 s)
    then show ?case
      by (cases "starts_with_one go_spaces s = 0") (auto simp: strip_front.simps [of go_spaces s] Let_def intro: order_trans)
  qed
  ultimately show "(drop n t, s) \<in> measure length" using word_length_le [of t] by simp
qed simp

declare text_fields.simps [simp del]

definition join_spaces :: "string list \<Rightarrow> string" where
  "join_spaces parts = join_byte CHR '' '' parts"

section \<open>Runes\<close>

definition utf8_encode :: "nat \<Rightarrow> string" where
  "utf8_encode r =
     (if r < 0x80 then [char_of r]
      else if r < 0x800 then [char_of (0xC0 + r div 64), char_of (0x80 + r mod 64)]
      else if r < 0x10000 then [char_of (0xE0 + r div 4096), char_of (0x80 + r div 64 mod 64), char_of (0x80 + r mod 64)]
      else [char_of (0xF0 + r div 262144), char_of (0x80 + r div 4096 mod 64), char_of (0x80 + r div 64 mod 64),
            char_of (0x80 + r mod 64)])"

text \<open>The bytes of the rune a non-empty text starts with, told by its first byte.\<close>

definition rune_bytes :: "char \<Rightarrow> nat" where
  "rune_bytes c = (let n = (of_char c :: nat) in if n < 0xC0 then 1 else if n < 0xE0 then 2 else if n < 0xF0 then 3 else 4)"

definition valid_rune :: "nat \<Rightarrow> bool" where
  "valid_rune r \<longleftrightarrow> r < 0xD800 \<or> 0xE000 \<le> r \<and> r \<le> 0x10FFFF"

section \<open>Unquote\<close>

fun hex_number :: "nat \<Rightarrow> string \<Rightarrow> nat option" where
  "hex_number acc [] = Some acc"
| "hex_number acc (c # cs) = (case hex_value c of None \<Rightarrow> None | Some d \<Rightarrow> hex_number (16 * acc + d) cs)"

fun octal_number :: "nat \<Rightarrow> string \<Rightarrow> nat option" where
  "octal_number acc [] = Some acc"
| "octal_number acc (c # cs) =
     (case digit_val c of None \<Rightarrow> None | Some d \<Rightarrow> if d > 7 then None else octal_number (8 * acc + d) cs)"

text \<open>\<open>UnquoteChar\<close>: the bytes of the next character and the rest of the text.\<close>

definition simple_escapes :: "(char \<times> char) list" where
  "simple_escapes = zip ''abfnrtv'' [CHR 7, CHR 8, CHR 0x0C, CHR 0x0A, CHR 0x0D, CHR 9, CHR 0x0B]"

definition hex_escape :: "char \<Rightarrow> string \<Rightarrow> (string \<times> string) option" where
  "hex_escape e s =
     (let n = (if e = CHR ''x'' then 2 else if e = CHR ''u'' then 4 else 8)
      in if length s < n then None
         else case hex_number 0 (take n s) of
                None \<Rightarrow> None
              | Some v \<Rightarrow>
                  if e = CHR ''x'' then Some ([char_of v], drop n s)
                  else if \<not> valid_rune v then None
                  else Some (utf8_encode v, drop n s))"

definition octal_escape :: "char \<Rightarrow> string \<Rightarrow> (string \<times> string) option" where
  "octal_escape e s =
     (if length s < 2 then None
      else case octal_number 0 (e # take 2 s) of
             None \<Rightarrow> None
           | Some v \<Rightarrow> if v > 255 then None else Some ([char_of v], drop 2 s))"

definition unquote_escape :: "char \<Rightarrow> char \<Rightarrow> string \<Rightarrow> (string \<times> string) option" where
  "unquote_escape quote e s =
     (case map_of simple_escapes e of
        Some v \<Rightarrow> Some ([v], s)
      | None \<Rightarrow>
          if e \<in> {CHR ''x'', CHR ''u'', CHR ''U''} then hex_escape e s
          else if digit_val e \<noteq> None \<and> e \<noteq> CHR ''8'' \<and> e \<noteq> CHR ''9'' then octal_escape e s
          else if e = CHR 0x5C \<or> e = quote then Some ([e], s)
          else None)"

definition unquote_char :: "char \<Rightarrow> string \<Rightarrow> (string \<times> string) option" where
  "unquote_char quote s =
     (case s of
        [] \<Rightarrow> None
      | c # cs \<Rightarrow>
          if c = quote then None
          else if (of_char c :: nat) \<ge> 0x80 then Some (take (rune_bytes c) s, drop (rune_bytes c) s)
          else if c \<noteq> CHR 0x5C then Some ([c], cs)
          else case cs of [] \<Rightarrow> None | e # rst \<Rightarrow> unquote_escape quote e rst)"

lemma hex_escape_le: "hex_escape e s = Some (b, rst) \<Longrightarrow> length rst \<le> length s"
  unfolding hex_escape_def Let_def by (auto split: if_split_asm option.split_asm)

lemma octal_escape_le: "octal_escape e s = Some (b, rst) \<Longrightarrow> length rst \<le> length s"
  unfolding octal_escape_def by (auto split: if_split_asm option.split_asm)

lemma unquote_escape_le: "unquote_escape quote e s = Some (b, rst) \<Longrightarrow> length rst \<le> length s"
  unfolding unquote_escape_def using hex_escape_le octal_escape_le
  by (simp split: if_split_asm option.split_asm)

lemma rune_bytes_pos: "Suc 0 \<le> rune_bytes c" "Suc n - rune_bytes c \<le> n"
  by (simp_all add: rune_bytes_def Let_def)

lemma unquote_char_shorter: "unquote_char quote s = Some (b, rst) \<Longrightarrow> length rst < length s"
  unfolding unquote_char_def
  by (auto split: list.split_asm if_split_asm dest!: unquote_escape_le simp: less_Suc_eq_le rune_bytes_pos)

function unquote_loop :: "char \<Rightarrow> string \<Rightarrow> (string \<times> string) option" where
  "unquote_loop quote s =
     (if s = [] \<or> hd s = quote then Some ([], s)
      else if hd s = CHR 0x0A then None
      else case unquote_char quote s of
             None \<Rightarrow> None
           | Some (b, rst) \<Rightarrow>
               if quote = CHR 0x27 then Some (b, rst)
               else case unquote_loop quote rst of None \<Rightarrow> None | Some (bs, rst') \<Rightarrow> Some (b @ bs, rst'))"
  by pat_completeness auto
termination by (relation "measure (\<lambda>(q, s). length s)") (auto dest: unquote_char_shorter)

declare unquote_loop.simps [simp del]

definition unquote :: "string \<Rightarrow> string option" where
  "unquote s =
     (if length s < 2 then None
      else let quote = hd s; body = tl s
           in if quote \<notin> set body then None
              else if quote = CHR 0x60 then
                (let raw = takeWhile (\<lambda>c. c \<noteq> quote) body
                 in if length raw + 1 < length body then None else Some (filter (\<lambda>c. c \<noteq> CHR 0x0D) raw))
              else if quote = CHR 0x22 \<or> quote = CHR 0x27 then
                (case unquote_loop quote body of
                   None \<Rightarrow> None
                 | Some (out, rst) \<Rightarrow> if rst = [quote] then Some out else None)
              else None)"

end
