(* ===== verification/Dns_Record.thy ===== *)
theory Dns_Record
  imports Go_Text Go_Float Go_Net Monitor_Types "HOL-Library.List_Lexorder" "HOL-Library.Char_ord"
begin

text \<open>
  \<open>internal/adapters/runner/dns_record_checker.go\<close>: the DNS record check, its normalisation of
  record values and the query to the system's resolver.

  The package \<open>miekg/dns\<close> and the network are arguments: the table of record types, the
  completion of names, the resolver configuration and the exchange of a message. The resolver
  of a check is an argument too, as in the code, where it is an interface.
\<close>

section \<open>IP addresses as text\<close>

text \<open>\<open>net.ParseIP\<close> yields 16 bytes; \<open>To4\<close> the four of an IPv4-mapped address.\<close>

definition ParseIP :: "string \<Rightarrow> 128 word option" where
  "ParseIP s =
     (case ParseAddr s of
        None \<Rightarrow> None
      | Some (V4 a) \<Rightarrow> Some (push_bit 32 0xffff + ucast a)
      | Some (V6 a zone) \<Rightarrow> if zone \<noteq> [] then None else Some a)"

definition To4 :: "128 word \<Rightarrow> 32 word option" where
  "To4 ip = (if drop_bit 32 ip = 0xffff then Some (ucast ip) else None)"

definition dotted :: "32 word \<Rightarrow> string" where
  "dotted a =
     join_byte CHR ''.''
       [nat_dec (unat a div 16777216), nat_dec (unat a div 65536 mod 256), nat_dec (unat a div 256 mod 256),
        nat_dec (unat a mod 256)]"

fun nat_hex :: "nat \<Rightarrow> string" where
  "nat_hex n = (if n < 16 then [hex_digit n] else nat_hex (n div 16) @ [hex_digit (n mod 16)])"

declare nat_hex.simps [simp del]

definition v6_groups :: "128 word \<Rightarrow> nat list" where
  "v6_groups a = map (\<lambda>i. unat a div 2 ^ (16 * (7 - i)) mod 65536) [0..<8]"

text \<open>The first longest run of at least two zero groups, as start and end; (255, 255) if none.\<close>

definition zero_run :: "nat list \<Rightarrow> nat \<times> nat" where
  "zero_run gs =
     foldl (\<lambda>(s, e) i. let j = i + length (takeWhile (\<lambda>g. g = 0) (drop i gs))
                        in if j - i \<ge> 2 \<and> j - i > e - s then (i, j) else (s, e)) (255, 255) [0..<8]"

fun emit_groups :: "nat \<Rightarrow> nat list \<Rightarrow> nat \<times> nat \<Rightarrow> nat \<Rightarrow> string" where
  "emit_groups 0 gs zr i = []"
| "emit_groups (Suc k) gs zr i =
     (if i \<ge> 8 then []
      else if i = fst zr then
        ''::'' @ (if snd zr \<ge> 8 then [] else nat_hex (gs ! snd zr) @ emit_groups k gs zr (snd zr + 1))
      else (if i > 0 then '':'' else []) @ nat_hex (gs ! i) @ emit_groups k gs zr (i + 1))"

definition IP_String :: "128 word \<Rightarrow> string" where
  "IP_String ip =
     (case To4 ip of
        Some a \<Rightarrow> dotted a
      | None \<Rightarrow> (let gs = v6_groups ip in emit_groups 8 gs (zero_run gs) 0))"

section \<open>Normalised values\<close>

definition normalizeDNSHostname :: "string \<Rightarrow> string" where
  "normalizeDNSHostname v = trim_suffix (to_lower (trim_space v)) ''.''"

definition normalizeDNSTXT :: "string \<Rightarrow> string" where
  "normalizeDNSTXT v =
     (let trimmed = trim_space v
      in case unquote trimmed of Some unquoted \<Rightarrow> unquoted | None \<Rightarrow> trim_byte CHR 0x22 trimmed)"

fun all_some :: "'a option list \<Rightarrow> 'a list option" where
  "all_some [] = Some []"
| "all_some (x # xs) =
     (case x of None \<Rightarrow> None | Some v \<Rightarrow> (case all_some xs of None \<Rightarrow> None | Some vs \<Rightarrow> Some (v # vs)))"

definition normalizeMX :: "string \<Rightarrow> string option" where
  "normalizeMX v =
     (case text_fields v of
        [f0, f1] \<Rightarrow>
          (case parse_uint 16 f0 of
             None \<Rightarrow> None
           | Some priority \<Rightarrow>
               (let host = normalizeDNSHostname f1
                in if host = [] then None else Some (nat_dec priority @ '' '' @ host)))
      | _ \<Rightarrow> None)"

definition normalizeSOA :: "string \<Rightarrow> string option" where
  "normalizeSOA v =
     (case text_fields v of
        [f0, f1, f2, f3, f4, f5, f6] \<Rightarrow>
          (let ns = normalizeDNSHostname f0; mbox = normalizeDNSHostname f1
           in if ns = [] \<or> mbox = [] then None
              else case all_some (map (parse_uint 32) [f2, f3, f4, f5, f6]) of
                     None \<Rightarrow> None
                   | Some numbers \<Rightarrow> Some (join_spaces (ns # mbox # map nat_dec numbers)))
      | _ \<Rightarrow> None)"

definition normalizeCAA :: "string \<Rightarrow> string option" where
  "normalizeCAA v =
     (case text_fields v of
        f0 # f1 # f2 # more_fields \<Rightarrow>
          (case parse_uint 8 f0 of
             None \<Rightarrow> None
           | Some flags \<Rightarrow>
               (let tag = to_lower (trim_space f1); caaValue = normalizeDNSTXT (join_spaces (f2 # more_fields))
                in if tag = [] \<or> caaValue = [] then None else Some (join_spaces [nat_dec flags, tag, caaValue])))
      | _ \<Rightarrow> None)"

definition normalizeDNSRecordValue :: "string \<Rightarrow> string \<Rightarrow> string option" where
  "normalizeDNSRecordValue recordType v =
     (let recordType = to_upper (trim_space recordType)
      in if recordType = ''A'' then
           (case ParseIP (trim_space v) of
              None \<Rightarrow> None
            | Some ip \<Rightarrow> (case To4 ip of None \<Rightarrow> None | Some a \<Rightarrow> Some (dotted a)))
         else if recordType = ''AAAA'' then
           (case ParseIP (trim_space v) of
              None \<Rightarrow> None
            | Some ip \<Rightarrow> if To4 ip \<noteq> None then None else Some (to_lower (IP_String ip)))
         else if recordType = ''CNAME'' \<or> recordType = ''NS'' then
           (let host = normalizeDNSHostname v in if host = [] then None else Some host)
         else if recordType = ''MX'' then normalizeMX v
         else if recordType = ''TXT'' then Some (normalizeDNSTXT v)
         else if recordType = ''SOA'' then normalizeSOA v
         else if recordType = ''CAA'' then normalizeCAA v
         else None)"

text \<open>The loop, and the sort after it.\<close>

fun normalize_loop :: "string \<Rightarrow> string set \<Rightarrow> string list \<Rightarrow> string list option" where
  "normalize_loop recordType seen [] = Some []"
| "normalize_loop recordType seen (v # vs) =
     (case normalizeDNSRecordValue recordType v of
        None \<Rightarrow> None
      | Some item \<Rightarrow>
          if item \<in> seen then normalize_loop recordType seen vs
          else (case normalize_loop recordType (insert item seen) vs of
                  None \<Rightarrow> None
                | Some normalized \<Rightarrow> Some (item # normalized)))"

definition normalizeDNSRecordValues :: "string list \<Rightarrow> string \<Rightarrow> string list option" where
  "normalizeDNSRecordValues vs recordType = map_option sort (normalize_loop recordType {} vs)"

section \<open>The system's resolver\<close>

datatype rr_data =
    RR_A "32 word" | RR_AAAA "128 word" | RR_CNAME string | RR_NS string | RR_MX nat string | RR_TXT "string list"
  | RR_SOA string string nat nat nat nat nat | RR_CAA nat string string | RR_other

record rr =
  rr_Rrtype :: nat
  rr_data :: rr_data

record dns_response =
  dr_Truncated :: bool
  dr_Rcode :: nat
  dr_Answer :: "rr list"

datatype dns_error = UnsupportedType | NoConfiguration | ExchangeError | EmptyResponse | ResponseCode nat | RecordNotFound

datatype transport = UDP | TCP

record query =
  q_net :: transport
  q_server :: string
  q_name :: string
  q_type :: nat

text \<open>The package and the machine: an exchange yields an error or a response, which may be nil.\<close>

record dns_lib =
  dl_StringToType :: "string \<Rightarrow> nat option"
  dl_Fqdn :: "string \<Rightarrow> string"
  dl_config :: "(string list \<times> string) option"
  dl_exchange :: "query \<Rightarrow> (dns_response option) option"

definition rr_value :: "rr_data \<Rightarrow> string option" where
  "rr_value d =
     (case d of
        RR_A a \<Rightarrow> Some (dotted a)
      | RR_AAAA a \<Rightarrow> Some (IP_String a)
      | RR_CNAME t \<Rightarrow> Some t
      | RR_NS ns \<Rightarrow> Some ns
      | RR_MX preference mx \<Rightarrow> Some (nat_dec preference @ '' '' @ mx)
      | RR_TXT txt \<Rightarrow> Some (concat txt)
      | RR_SOA ns mbox serial refresh retry expire minttl \<Rightarrow>
          Some (join_spaces [ns, mbox, nat_dec serial, nat_dec refresh, nat_dec retry, nat_dec expire, nat_dec minttl])
      | RR_CAA flag tag v \<Rightarrow> Some (join_spaces [nat_dec flag, tag, v])
      | RR_other \<Rightarrow> None)"

definition answer_values :: "nat \<Rightarrow> rr list \<Rightarrow> string list" where
  "answer_values qtype answers =
     List.map_filter (\<lambda>a. if rr_Rrtype a \<noteq> qtype then None else rr_value (rr_data a)) answers"

text \<open>The queries sent and the result.\<close>

definition Resolve :: "dns_lib \<Rightarrow> string \<Rightarrow> string \<Rightarrow> query list \<times> (dns_error + string list)" where
  "Resolve lib target recordType =
     (case dl_StringToType lib (to_upper (trim_space recordType)) of
        None \<Rightarrow> ([], Inl UnsupportedType)
      | Some qtype \<Rightarrow>
          (case dl_config lib of
             None \<Rightarrow> ([], Inl NoConfiguration)
           | Some (servers, port) \<Rightarrow>
               if servers = [] then ([], Inl NoConfiguration)
               else
                 let udp = \<lparr>q_net = UDP, q_server = JoinHostPort (hd servers) port, q_name = dl_Fqdn lib (trim_space target),
                            q_type = qtype\<rparr>;
                     tcp = udp\<lparr>q_net := TCP\<rparr>
                 in case dl_exchange lib udp of
                      None \<Rightarrow> ([udp], Inl ExchangeError)
                    | Some first \<Rightarrow>
                        (case (if (case first of None \<Rightarrow> False | Some r \<Rightarrow> dr_Truncated r)
                               then ([udp, tcp], dl_exchange lib tcp) else ([udp], Some first)) of
                           (queries, None) \<Rightarrow> (queries, Inl ExchangeError)
                         | (queries, Some None) \<Rightarrow> (queries, Inl EmptyResponse)
                         | (queries, Some (Some response)) \<Rightarrow>
                             if dr_Rcode response \<noteq> 0 then (queries, Inl (ResponseCode (dr_Rcode response)))
                             else let vs = answer_values qtype (dr_Answer response)
                                  in if vs = [] then (queries, Inl RecordNotFound) else (queries, Inr vs))))"

section \<open>The check\<close>

text \<open>The resolver, the clock at the start and the time that has passed when it is measured.\<close>

record dns_env =
  dn_start :: instant
  dn_elapsed :: duration
  dn_resolve :: "string \<Rightarrow> string \<Rightarrow> duration \<Rightarrow> dns_error + string list"

definition empty_observation :: "mon_type \<Rightarrow> instant \<Rightarrow> raw_observation" where
  "empty_observation t start =
     \<lparr>o_Type = t, o_ObservedAt = start, o_HTTPStatusCode = None, o_ResponseTime = None, o_TransportError = None,
      o_Connected = None, o_KeywordMatched = None, o_DNSRecordType = [], o_DNSExpectedValues = [],
      o_DNSObservedValues = [], o_DNSMatched = None, o_Metadata = []\<rparr>"

definition fixedDNSTimeoutSeconds :: int where "fixedDNSTimeoutSeconds = 5"

definition Observe :: "dns_env \<Rightarrow> monitoring \<Rightarrow> mon_status \<times> rat option \<times> raw_observation" where
  "Observe ev m =
     (let observation = (empty_observation (m_Type m) (dn_start ev))
            \<lparr>o_DNSRecordType := trim_space (m_DNSRecordType m), o_DNSExpectedValues := m_DNSExpectedValues m\<rparr>;
          failed = (\<lambda>obs reason. (StatusDown, None, obs\<lparr>o_TransportError := Some reason\<rparr>));
          target = trim_space (m_Target m); recordType = trim_space (m_DNSRecordType m)
      in if target = [] \<or> recordType = [] \<or> m_DNSExpectedValues m = [] then failed observation ''invalid_configuration''
         else case normalizeDNSRecordValues (m_DNSExpectedValues m) recordType of
                None \<Rightarrow> failed observation ''invalid_expected_values''
              | Some expected \<Rightarrow>
                  (let observation = observation\<lparr>o_DNSExpectedValues := expected\<rparr>;
                       timeout = (if m_Timeout m > 0 then seconds (m_Timeout m) else seconds fixedDNSTimeoutSeconds)
                   in case dn_resolve ev target recordType timeout of
                        Inl err \<Rightarrow> failed observation ''dns_lookup_failed''
                      | Inr actualRaw \<Rightarrow>
                          (case normalizeDNSRecordValues actualRaw recordType of
                             None \<Rightarrow> failed observation ''invalid_observed_values''
                           | Some actual \<Rightarrow>
                               (let matched = (actual = expected);
                                    elapsed = roundMilliseconds (dn_elapsed ev)
                                in (if matched then StatusUp else StatusDown, Some elapsed,
                                    observation\<lparr>o_DNSObservedValues := actual, o_DNSMatched := Some matched,
                                                o_ResponseTime := Some elapsed\<rparr>)))))"

section \<open>Comparing values\<close>

lemma normalize_loop_spec:
  "normalize_loop recordType seen vs =
     (if None \<in> normalizeDNSRecordValue recordType ` set vs then None
      else Some (keep_first (\<lambda>x. x) seen (map (\<lambda>v. the (normalizeDNSRecordValue recordType v)) vs)))"
  by (induction vs arbitrary: seen) (auto split: option.split)

lemma normalize_values_spec:
  "normalizeDNSRecordValues vs recordType =
     (if None \<in> normalizeDNSRecordValue recordType ` set vs then None
      else Some (sorted_list_of_set ((\<lambda>v. the (normalizeDNSRecordValue recordType v)) ` set vs)))"
proof -
  let ?xs = "map (\<lambda>v. the (normalizeDNSRecordValue recordType v)) vs"
  have "distinct (keep_first (\<lambda>x. x) {} ?xs)" using keep_first_distinct [of "\<lambda>x. x" "{}" ?xs] by simp
  moreover have "set (keep_first (\<lambda>x. x) {} ?xs) = set ?xs" using keep_first_keys [of "\<lambda>x. x" "{}" ?xs] by simp
  ultimately have "sort (keep_first (\<lambda>x. x) {} ?xs) = sorted_list_of_set (set ?xs)"
    by (metis distinct_sort finite_set set_sort sorted_sort sorted_list_of_set.idem_if_sorted_distinct)
  then show ?thesis by (simp add: normalizeDNSRecordValues_def normalize_loop_spec)
qed

lemma normalize_values_eq:
  assumes "None \<notin> normalizeDNSRecordValue recordType ` (set as \<union> set bs)"
  shows "\<exists>xs ys. normalizeDNSRecordValues as recordType = Some xs \<and> normalizeDNSRecordValues bs recordType = Some ys \<and>
    (xs = ys \<longleftrightarrow> normalizeDNSRecordValue recordType ` set as = normalizeDNSRecordValue recordType ` set bs)"
proof -
  let ?n = "normalizeDNSRecordValue recordType"
  let ?A = "(\<lambda>v. the (?n v)) ` set as" and ?B = "(\<lambda>v. the (?n v)) ` set bs"
  have no: "None \<notin> ?n ` set as" "None \<notin> ?n ` set bs" using assms by (simp_all add: image_Un)
  have e: "?n ` set xs = Some ` (\<lambda>v. the (?n v)) ` set xs" if "None \<notin> ?n ` set xs" for xs
    using that by (force simp: image_image)
  have "sorted_list_of_set ?A = sorted_list_of_set ?B \<longleftrightarrow> ?A = ?B"
  proof
    assume "sorted_list_of_set ?A = sorted_list_of_set ?B"
    then have "set (sorted_list_of_set ?A) = set (sorted_list_of_set ?B)" by (rule arg_cong)
    then show "?A = ?B" by (simp only: set_sorted_list_of_set finite_imageI List.finite_set)
  qed (rule arg_cong)
  also have "\<dots> \<longleftrightarrow> ?n ` set as = ?n ` set bs"
    unfolding e [OF no(1)] e [OF no(2)] by (simp add: inj_image_eq_iff)
  finally have "sorted_list_of_set ?A = sorted_list_of_set ?B \<longleftrightarrow> ?n ` set as = ?n ` set bs" .
  moreover have "normalizeDNSRecordValues as recordType = Some (sorted_list_of_set ?A)"
    "normalizeDNSRecordValues bs recordType = Some (sorted_list_of_set ?B)"
    by (simp_all only: normalize_values_spec no if_False)
  ultimately show ?thesis by blast
qed

definition dns_timeout :: "monitoring \<Rightarrow> duration" where
  "dns_timeout m = (if m_Timeout m > 0 then seconds (m_Timeout m) else seconds fixedDNSTimeoutSeconds)"

text \<open>
  C22. A DNS check is up exactly when the configuration is complete, the resolver answered,
  every expected and every answered value is valid for the record type, and the two are equal
  as sets of normalised values: order and repetition do not matter, nor, for values that are host names,
  do case and a final dot, and one missing or one extra record is enough for down. The evidence says matched exactly
  when the status is up.
\<close>

lemma dns_up_iff_same_records:
  "let recordType = trim_space (m_DNSRecordType m); expected = m_DNSExpectedValues m; norm = normalizeDNSRecordValue recordType
   in (fst (Observe ev m) = StatusUp \<longleftrightarrow>
        trim_space (m_Target m) \<noteq> [] \<and> recordType \<noteq> [] \<and> expected \<noteq> [] \<and>
        (\<exists>actual. dn_resolve ev (trim_space (m_Target m)) recordType (dns_timeout m) = Inr actual \<and>
           None \<notin> norm ` (set expected \<union> set actual) \<and> norm ` set expected = norm ` set actual)) \<and>
      (fst (Observe ev m) = StatusUp \<longleftrightarrow> o_DNSMatched (snd (snd (Observe ev m))) = Some True)"
proof -
  let ?rt = "trim_space (m_DNSRecordType m)" and ?t = "trim_space (m_Target m)"
  have ud: "StatusDown \<noteq> StatusUp" by (simp add: StatusDown_def StatusUp_def)
  show ?thesis
  proof (cases "?t = [] \<or> ?rt = [] \<or> m_DNSExpectedValues m = []")
    case True
    then show ?thesis using ud by (auto simp: Observe_def Let_def empty_observation_def)
  next
    case conf: False
    show ?thesis
    proof (cases "dn_resolve ev ?t ?rt (dns_timeout m)")
      case (Inl err)
      then show ?thesis using ud conf
        by (auto simp: Observe_def Let_def dns_timeout_def empty_observation_def split: option.split)
    next
      case (Inr actual)
      show ?thesis
      proof (cases "None \<in> normalizeDNSRecordValue ?rt ` (set (m_DNSExpectedValues m) \<union> set actual)")
        case True
        then have "normalizeDNSRecordValues (m_DNSExpectedValues m) ?rt = None \<or> normalizeDNSRecordValues actual ?rt = None"
          by (auto simp: normalize_values_spec)
        then show ?thesis using ud conf Inr True
          by (auto simp: Observe_def Let_def dns_timeout_def empty_observation_def split: option.split)
      next
        case False
        from normalize_values_eq [OF False] obtain es as where n:
          "normalizeDNSRecordValues (m_DNSExpectedValues m) ?rt = Some es"
          "normalizeDNSRecordValues actual ?rt = Some as"
          and eq: "es = as \<longleftrightarrow>
            normalizeDNSRecordValue ?rt ` set (m_DNSExpectedValues m) = normalizeDNSRecordValue ?rt ` set actual"
          by blast
        have o: "Observe ev m = (if as = es then StatusUp else StatusDown, Some (roundMilliseconds (dn_elapsed ev)),
            snd (snd (Observe ev m))) \<and> o_DNSMatched (snd (snd (Observe ev m))) = Some (as = es)"
          using conf Inr n by (simp add: Observe_def Let_def dns_timeout_def)
        then have "fst (Observe ev m) = StatusUp \<longleftrightarrow> as = es" using ud by (metis fst_conv)
        with o eq conf Inr False show ?thesis by (auto simp: Let_def)
      qed
    qed
  qed
qed

text \<open>
  C23. What the resolver yields are answers to the question asked: values of the requested
  type only, at least one, from the last response received, which reported success; TCP is
  asked only after a truncated UDP response, with the same question.
\<close>

lemma resolver_answers_question:
  assumes "Resolve lib target recordType = (queries, Inr vs)"
  shows "\<exists>qtype response. dl_StringToType lib (to_upper (trim_space recordType)) = Some qtype \<and>
    queries \<noteq> [] \<and> dl_exchange lib (last queries) = Some (Some response) \<and> dr_Rcode response = 0 \<and> vs \<noteq> [] \<and>
    set vs = {v. \<exists>a \<in> set (dr_Answer response). rr_Rrtype a = qtype \<and> rr_value (rr_data a) = Some v} \<and>
    q_type ` set queries = {qtype} \<and> q_name ` set queries = {dl_Fqdn lib (trim_space target)} \<and>
    (map q_net queries = [UDP] \<or>
     map q_net queries = [UDP, TCP] \<and> (\<exists>r. dl_exchange lib (hd queries) = Some (Some r) \<and> dr_Truncated r))"
proof -
  have vals: "set (answer_values qtype as) = {v. \<exists>a \<in> set as. rr_Rrtype a = qtype \<and> rr_value (rr_data a) = Some v}" for qtype as
    by (induction as) (auto simp: answer_values_def map_filter_def split: option.splits)
  from assms show ?thesis
    by (auto simp: Resolve_def Let_def vals split: option.splits prod.splits if_splits)
qed

lemma resolver_answers_question_witness:
  "let r = \<lparr>dr_Truncated = False, dr_Rcode = 0, dr_Answer = [\<lparr>rr_Rrtype = 5, rr_data = RR_CNAME ''x.''\<rparr>,
             \<lparr>rr_Rrtype = 16, rr_data = RR_TXT [''a'', ''b'']\<rparr>]\<rparr>;
       lib = \<lparr>dl_StringToType = (\<lambda>_. Some 16), dl_Fqdn = (\<lambda>s. s @ ''.''), dl_config = Some ([''9.9.9.9''], ''53''),
              dl_exchange = (\<lambda>_. Some (Some r))\<rparr>
   in \<exists>queries vs. Resolve lib ''d'' ''txt'' = (queries, Inr vs) \<and> set vs = {''ab''}"
proof -
  let ?r = "\<lparr>dr_Truncated = False, dr_Rcode = 0, dr_Answer = [\<lparr>rr_Rrtype = 5, rr_data = RR_CNAME ''x.''\<rparr>,
             \<lparr>rr_Rrtype = 16, rr_data = RR_TXT [''a'', ''b'']\<rparr>]\<rparr>"
  let ?lib = "\<lparr>dl_StringToType = (\<lambda>_. Some 16), dl_Fqdn = (\<lambda>s. s @ ''.''), dl_config = Some ([''9.9.9.9''], ''53''),
              dl_exchange = (\<lambda>_. Some (Some ?r))\<rparr>"
  obtain queries vs where r: "Resolve ?lib ''d'' ''txt'' = (queries, Inr vs)"
    by (simp add: Resolve_def Let_def answer_values_def map_filter_def rr_value_def)
  from resolver_answers_question [OF r] have "set vs = {''ab''}"
    by (auto simp: rr_value_def)
  with r show ?thesis by (simp add: Let_def)
qed

section \<open>Addresses compare by value\<close>

lemma nat_dec_hd: "0 < n \<Longrightarrow> hd (nat_dec n) \<noteq> CHR ''0''"
proof (induction n rule: nat_dec.induct)
  case (1 n)
  show ?case
  proof (cases "n < 10")
    case True
    then show ?thesis using 1 dec_digit_code [of n] by (auto simp: nat_dec.simps [of n])
  next
    case False
    with 1 show ?thesis by (simp add: nat_dec.simps [of n])
  qed
qed

lemma v4_octet_nat_dec: "n < 256 \<Longrightarrow> v4_octet (nat_dec n) = Some n"
  using nat_dec_hd [of n] by (cases "n = 0") (auto simp: v4_octet_def nat_dec.simps [of 0] digit_val_dec_digit)

lemma nat_dec_plain: "CHR ''.'' \<notin> set (nat_dec n)" "CHR '':'' \<notin> set (nat_dec n)" "CHR ''%'' \<notin> set (nat_dec n)"
  using nat_dec_digits [of "CHR ''.''" n] nat_dec_digits [of "CHR '':''" n] nat_dec_digits [of "CHR ''%''" n] by auto

lemma unat_octets: "ip4 (n div 16777216) (n div 65536 mod 256) (n div 256 mod 256) (n mod 256) = n"
proof -
  have d: "n div 65536 = n div 256 div 256" "n div 16777216 = n div 256 div 256 div 256"
    by (simp_all add: div_mult2_eq [symmetric])
  show ?thesis unfolding ip4_def d by (simp only: div_mult_mod_eq)
qed

lemma find_first: "\<forall>x \<in> set xs. \<not> P x \<Longrightarrow> P y \<Longrightarrow> find P (xs @ y # ys) = Some y"
  by (induction xs) auto

lemma ParseAddr_dotted: "ParseAddr (dotted a) = Some (V4 a)"
proof -
  let ?n = "unat a"
  let ?ps = "[nat_dec (?n div 16777216), nat_dec (?n div 65536 mod 256), nat_dec (?n div 256 mod 256), nat_dec (?n mod 256)]"
  have top: "?n < 4294967296" using unsigned_less [of a] by simp
  have "split_byte CHR ''.'' (dotted a) = ?ps"
    unfolding dotted_def by (rule split_join) (auto simp: nat_dec_plain)
  then have v: "parse_v4 (dotted a) = Some ?n"
    using top by (simp add: parse_v4_def v4_octet_nat_dec unat_octets)
  obtain c cs where c: "nat_dec (?n div 16777216) = c # cs" by (cases "nat_dec (?n div 16777216)") auto
  have "find (\<lambda>c. c = CHR ''.'' \<or> c = CHR '':'' \<or> c = CHR ''%'') (nat_dec k @ CHR ''.'' # xs) = Some CHR ''.''" for k xs
    using nat_dec_plain [of k] by (intro find_first) auto
  then have "find (\<lambda>c. c = CHR ''.'' \<or> c = CHR '':'' \<or> c = CHR ''%'') (dotted a) = Some CHR ''.''"
    by (simp add: dotted_def)
  then show ?thesis using v by (simp add: ParseAddr_def)
qed

lemma To4_mapped: "To4 (281470681743360 + ucast (a :: 32 word)) = Some a"
proof -
  let ?ip = "281470681743360 + ucast a :: 128 word"
  have a: "unat a < 4294967296" using unsigned_less [of a] by simp
  have "unat (ucast a :: 128 word) = unat a"
    using a unfolding unsigned_ucast_eq by (simp add: take_bit_eq_mod)
  then have u: "unat ?ip = 281470681743360 + unat a"
    using a by (subst unat_add_lem [THEN iffD1]) simp_all
  have "unat (drop_bit 32 ?ip) = 0xffff"
    using a unfolding unat_drop_bit_eq u by (simp add: drop_bit_eq_div)
  then have "drop_bit 32 ?ip = 0xffff" by (simp add: word_unat_eq_iff)
  moreover have "unat (ucast ?ip :: 32 word) = unat a"
  proof -
    have "(65535 * 4294967296 + unat a) mod 4294967296 = unat a" using a by (simp only: mod_mult_self3 mod_less)
    then show ?thesis unfolding unsigned_ucast_eq u by (simp add: take_bit_eq_mod)
  qed
  then have "(ucast ?ip :: 32 word) = a" by (simp add: word_unat_eq_iff)
  ultimately show ?thesis by (simp add: To4_def)
qed

lemma dotted_printable: "\<forall>c \<in> set (dotted a). printable c"
  using nat_dec_printable by (auto simp: dotted_def) (simp_all add: printable_def)

text \<open>
  An address record is compared as an address: the text the resolver gives for an A record
  is its own normal form, and reading that form back gives the address, so that different
  addresses never compare equal, whatever notation the expected value used.
\<close>

lemma A_records_roundtrip:
  "normalizeDNSRecordValue ''A'' (the (rr_value (RR_A a))) = Some (dotted a) \<and> ParseAddr (dotted a) = Some (V4 a) \<and>
   (dotted a = dotted b \<longleftrightarrow> a = b)"
proof (intro conjI)
  show "ParseAddr (dotted a) = Some (V4 a)" by (rule ParseAddr_dotted)
  have t: "to_upper (trim_space ''A'') = ''A''" by code_simp
  have p: "ParseIP (trim_space (dotted a)) = Some (281470681743360 + ucast a)"
    by (simp add: ParseIP_def ParseAddr_dotted trim_space_printable [OF dotted_printable])
  show "normalizeDNSRecordValue ''A'' (the (rr_value (RR_A a))) = Some (dotted a)"
    by (simp only: normalizeDNSRecordValue_def rr_value_def rr_data.case t p To4_mapped Let_def simp_thms if_True option.case option.sel)
  show "dotted a = dotted b \<longleftrightarrow> a = b"
    by (metis ParseAddr_dotted addr.inject(1) option.inject)
qed

end
