(* ===== verification/Http_Check.thy ===== *)
theory Http_Check
  imports Egress_Target Monitor_Types Dns_Record
begin

text \<open>
  The HTTP request of the runner, \<open>internal/adapters/runner/runner.go\<close>: headers, body, the
  variants of the target, the retries and the redirect policy.

  \<open>net/http\<close>, \<open>net/url\<close>, \<open>encoding/json\<close> and \<open>fmt\<close> are arguments. What the
  network does may change from one request to the next: it is asked with the number of attempts
  and of the requests of the attempt made before. The requests made are part of the result: the one
  each attempt starts with, and those the client sends when it follows a redirect.
\<close>

definition fixedHTTPRetryTimes :: nat where "fixedHTTPRetryTimes = 1"
definition fixedHTTPMaxRedirects :: nat where "fixedHTTPMaxRedirects = 5"
definition fixedHTTPTimeoutSeconds :: int where "fixedHTTPTimeoutSeconds = 30"
definition fixedHTTPMaxResponseBytes :: nat where "fixedHTTPMaxResponseBytes = 2097152"
definition fixedHTTPMaxRequestBodyBytes :: nat where "fixedHTTPMaxRequestBodyBytes = 1048576"
definition fixedHTTPMaxRequestHeaders :: nat where "fixedHTTPMaxRequestHeaders = 64"
definition fixedHTTPMaxRequestHeaderBytes :: nat where "fixedHTTPMaxRequestHeaderBytes = 32768"

lemmas http_limits = fixedHTTPRetryTimes_def fixedHTTPMaxRedirects_def fixedHTTPTimeoutSeconds_def fixedHTTPMaxResponseBytes_def
  fixedHTTPMaxRequestBodyBytes_def fixedHTTPMaxRequestHeaders_def fixedHTTPMaxRequestHeaderBytes_def

section \<open>Headers and body\<close>

text \<open>\<open>json.Unmarshal\<close> into a map and into any, \<open>json.Marshal\<close> and the verb \<open>%v\<close>.\<close>

record format_lib =
  fl_unmarshalMap :: "string \<Rightarrow> (string \<times> go_any) list option"
  fl_unmarshal :: "string \<Rightarrow> go_any option"
  fl_marshal :: "go_any \<Rightarrow> string option"
  fl_sprint :: "go_any \<Rightarrow> string"

definition normalizeHeaders :: "format_lib \<Rightarrow> go_any \<Rightarrow> (string, string) gomap" where
  "normalizeHeaders lib rawHeaders =
     (case rawHeaders of
        AnyString v \<Rightarrow>
          if trim_space v = [] then []
          else (case fl_unmarshalMap lib v of
                  None \<Rightarrow> []
                | Some parsed \<Rightarrow> fold (\<lambda>(key, raw). map_write key (fl_sprint lib raw)) parsed [])
      | AnyMap v \<Rightarrow> fold (\<lambda>(key, raw). map_write key (fl_sprint lib raw)) v []
      | AnyStringMap v \<Rightarrow> fold (\<lambda>(key, raw). map_write key raw) v []
      | _ \<Rightarrow> [])"

definition normalizeBody :: "format_lib \<Rightarrow> go_any \<Rightarrow> string" where
  "normalizeBody lib rawBody =
     (case rawBody of
        AnyNil \<Rightarrow> ''[]''
      | AnyString v \<Rightarrow>
          (let trimmed = trim_space v
           in if trimmed = [] then ''[]''
              else case fl_unmarshal lib trimmed of
                     None \<Rightarrow> ''[]''
                   | Some parsed \<Rightarrow> (case fl_marshal lib parsed of None \<Rightarrow> ''[]'' | Some payload \<Rightarrow> payload))
      | v \<Rightarrow> (case fl_marshal lib v of None \<Rightarrow> ''[]'' | Some payload \<Rightarrow> payload))"

definition headerBytes :: "(string, string) gomap \<Rightarrow> nat" where
  "headerBytes headers = sum_list (map (\<lambda>(name, v). length name + length v) headers)"

section \<open>Variants of the target\<close>

text \<open>
  The parts of a URL the variants change or read, beside those of the egress check. \<open>Port()\<close>
  and \<open>Hostname()\<close> are read of the target only; \<open>u_rest\<close> is everything else.
\<close>

record http_url = parsed_url +
  u_Port :: string
  u_Path :: string
  u_rest :: string

definition alternateWWWHostname :: "string \<Rightarrow> string" where
  "alternateWWWHostname hostname =
     (if hostname = [] \<or> ParseIP hostname \<noteq> None \<or> \<not> str_contains (trim_suffix hostname ''.'') ''.'' then []
      else if length hostname > length ''www.'' \<and> equal_fold (take (length ''www.'') hostname) ''www.''
      then drop (length ''www.'') hostname
      else ''www.'' @ hostname)"

definition variantHostnames :: "http_url \<Rightarrow> string list" where
  "variantHostnames targetURL =
     (let alternate = alternateWWWHostname (u_Hostname targetURL)
      in u_Hostname targetURL # (if alternate \<noteq> [] then [alternate] else []))"

definition variantPaths :: "http_url \<Rightarrow> string list" where
  "variantPaths targetURL =
     u_Path targetURL # (if u_Path targetURL = [] then [''/''] else if u_Path targetURL = ''/'' then [[]] else [])"

definition variant :: "http_url \<Rightarrow> string \<Rightarrow> string \<Rightarrow> http_url" where
  "variant targetURL path hostname =
     (let v = (if hostname \<noteq> u_Hostname targetURL
               then targetURL\<lparr>u_Host := (if u_Port targetURL \<noteq> [] then JoinHostPort hostname (u_Port targetURL) else hostname)\<rparr>
               else targetURL)
      in v\<lparr>u_Path := path\<rparr>)"

definition httpTargetVariants :: "(http_url \<Rightarrow> string) \<Rightarrow> http_url \<Rightarrow> http_url list" where
  "httpTargetVariants url_String targetURL =
     keep_first url_String {}
       (concat (map (\<lambda>path. map (variant targetURL path) (variantHostnames targetURL)) (variantPaths targetURL)))"

section \<open>One request\<close>

record http_request =
  hr_Method :: string
  hr_URL :: string
  hr_Headers :: "(string, string) gomap"
  hr_Body :: string
  hr_BasicAuth :: "(string \<times> string) option"
  hr_Timeout :: duration

text \<open>
  What one request is answered: a status and the body (None if reading it fails), or a redirect,
  for which \<open>net/http\<close> has built the next request, with the host name of its URL.
\<close>

datatype hop = NoAnswer | Answer int "string option" | Redirect http_request string

text \<open>
  The network: whether a request can be built for a URL, what request number \<open>k\<close> of attempt
  \<open>n\<close> is answered, and whether the context is done in the delay after attempt \<open>n\<close>. The
  client adds the egress policy of its redirect check.
\<close>

record http_net =
  hn_validURL :: "string \<Rightarrow> bool"
  hn_send :: "nat \<Rightarrow> nat \<Rightarrow> http_request \<Rightarrow> hop"
  hn_canceled :: "nat \<Rightarrow> bool"

record http_client = http_net +
  hc_lookup :: resolver
  hc_allowPrivate :: bool

text \<open>The redirect policy of the client: the requests made so far and the next host.\<close>

definition checkRedirect :: "resolver \<Rightarrow> bool \<Rightarrow> nat \<Rightarrow> string \<Rightarrow> bool" where
  "checkRedirect lookup allowPrivate via hostname \<longleftrightarrow>
     \<not> via \<ge> fixedHTTPMaxRedirects \<and> ValidateHost lookup allowPrivate hostname = None"

text \<open>
  \<open>Client.Do\<close>: redirects are followed until an answer, a failure or a refusal of the policy.
  The requests sent after the first, with their hosts, and the last answer.
\<close>

function client_do ::
    "http_client \<Rightarrow> nat \<Rightarrow> nat \<Rightarrow> http_request \<Rightarrow> (http_request \<times> string) list \<times> (int \<times> string option) option" where
  "client_do client n via request =
     (case hn_send client n via request of
        NoAnswer \<Rightarrow> ([], None)
      | Answer status body \<Rightarrow> ([], Some (status, body))
      | Redirect next_request hostname \<Rightarrow>
          if checkRedirect (hc_lookup client) (hc_allowPrivate client) (Suc via) hostname
          then (case client_do client n (Suc via) next_request of (hops, answer) \<Rightarrow> ((next_request, hostname) # hops, answer))
          else ([], None))"
  by pat_completeness auto
termination
  by (relation "measure (\<lambda>(client, n, via, request). fixedHTTPMaxRedirects - via)") (auto simp: checkRedirect_def)

declare client_do.simps [simp del]

record check_result =
  statusCode :: int
  cr_body :: string

datatype http_error = TargetError target_error | BodyTooLarge | HeadersTooLarge | BadRequest | RequestFailed | BodyUnreadable
  | ResponseTooLarge | ContextDone

definition readLimitedBody :: "string option \<Rightarrow> nat \<Rightarrow> http_error + string" where
  "readLimitedBody body maxBytes =
     (case body of
        None \<Rightarrow> Inl BodyUnreadable
      | Some content \<Rightarrow>
          (let payload = take (maxBytes + 1) content
           in if length payload > maxBytes then Inl ResponseTooLarge else Inr payload))"

definition performHTTPCheck ::
    "http_client \<Rightarrow> nat \<Rightarrow> http_request \<Rightarrow> (http_request \<times> string) list \<times> (http_error + check_result)" where
  "performHTTPCheck net n request =
     (if \<not> hn_validURL net (hr_URL request) then ([], Inl BadRequest)
      else case client_do net n 0 request of
             (hops, None) \<Rightarrow> (hops, Inl RequestFailed)
           | (hops, Some (status, body)) \<Rightarrow>
               (hops, case readLimitedBody body fixedHTTPMaxResponseBytes of
                        Inl err \<Rightarrow> Inl err
                      | Inr payload \<Rightarrow> Inr \<lparr>statusCode = status, cr_body = payload\<rparr>))"

section \<open>Attempts\<close>

text \<open>
  What the loops carry: the attempts made, with their outcomes, the requests sent for redirects,
  and the two variables. The log counts the attempts.
\<close>

record check_state =
  cs_log :: "(http_request \<times> (http_error + check_result)) list"
  cs_redirects :: "(http_request \<times> string) list"
  cs_first :: "check_result option"
  cs_lastErr :: "http_error option"

definition status_ok :: "int \<Rightarrow> bool" where
  "status_ok status \<longleftrightarrow> 200 \<le> status \<and> status < 400"

text \<open>
  The inner loop, with the number of attempts left: the loop ends the function (Inl, with what
  it returns) or is over.
\<close>

fun attempt_loop ::
    "http_client \<Rightarrow> nat \<Rightarrow> http_request \<Rightarrow> check_state
     \<Rightarrow> check_state \<times> (http_error + check_result) option" where
  "attempt_loop net 0 request st = (st, None)"
| "attempt_loop net (Suc left) request st =
     (let n = length (cs_log st); (hops, outcome) = performHTTPCheck net n request;
          st = st\<lparr>cs_log := cs_log st @ [(request, outcome)], cs_redirects := cs_redirects st @ hops\<rparr>
      in case outcome of
           Inl err \<Rightarrow>
             (let st = st\<lparr>cs_lastErr := Some err\<rparr>
              in if left > 0 then
                   (if hn_canceled net n then (st, Some (Inl ContextDone)) else attempt_loop net left request st)
                 else (st, None))
         | Inr result \<Rightarrow>
             (let st = (if cs_first st = None then st\<lparr>cs_first := Some result\<rparr> else st)
              in if status_ok (statusCode result) then (st, Some (Inr result)) else (st, None)))"

fun variant_loop ::
    "http_client \<Rightarrow> http_request list \<Rightarrow> check_state
     \<Rightarrow> check_state \<times> (http_error + check_result) option" where
  "variant_loop net [] st = (st, None)"
| "variant_loop net (request # requests) st =
     (case attempt_loop net (fixedHTTPRetryTimes + 1) request st of
        (st', Some returned) \<Rightarrow> (st', Some returned)
      | (st', None) \<Rightarrow> variant_loop net requests st')"

definition request_method :: "string \<Rightarrow> string" where
  "request_method httpMethod =
     (let method = to_lower (trim_space httpMethod)
      in if method = [] \<or> method \<notin> {''get'', ''post'', ''put'', ''patch'', ''delete''} then ''get'' else method)"

text \<open>What every variant's request has in common; the limits are checked in the order of the code.\<close>

definition prepare_request :: "format_lib \<Rightarrow> monitoring \<Rightarrow> http_error + http_request" where
  "prepare_request lib m =
     (let method = request_method (m_HTTPMethod m);
          headers = normalizeHeaders lib (m_HTTPHeaders m);
          body = normalizeBody lib (m_HTTPBody m)
      in if length body > fixedHTTPMaxRequestBodyBytes then Inl BodyTooLarge
         else if length headers > fixedHTTPMaxRequestHeaders \<or> headerBytes headers > fixedHTTPMaxRequestHeaderBytes
         then Inl HeadersTooLarge
         else
           let body = (if method = ''get'' \<or> method = ''delete'' then [] else body);
               headers = (if body \<noteq> [] \<and> map_read [] headers ''Content-Type'' = [] \<and> map_read [] headers ''content-type'' = []
                          then map_write ''Content-Type'' ''application/json'' headers else headers)
           in Inr \<lparr>hr_Method = to_upper method, hr_URL = [], hr_Headers = headers, hr_Body = body,
                   hr_BasicAuth = (if m_AuthUsername m \<noteq> [] \<and> m_AuthPassword m \<noteq> []
                                   then Some (m_AuthUsername m, m_AuthPassword m) else None),
                   hr_Timeout = (if m_Timeout m > 0 then seconds (m_Timeout m) else seconds fixedHTTPTimeoutSeconds)\<rparr>)"

record http_target_lib =
  ht_parse :: "string \<Rightarrow> http_url option"
  ht_lookup :: resolver
  ht_allowPrivate :: bool
  ht_String :: "http_url \<Rightarrow> string"

definition no_attempts :: check_state where
  "no_attempts = \<lparr>cs_log = [], cs_redirects = [], cs_first = None, cs_lastErr = None\<rparr>"

text \<open>The state at the end, and the status and body or the error. The last error is set when nothing else is.\<close>

definition performHTTPRequest ::
    "format_lib \<Rightarrow> http_target_lib \<Rightarrow> http_net \<Rightarrow> monitoring
     \<Rightarrow> check_state \<times> (http_error option + check_result)" where
  "performHTTPRequest lib tlib net m =
     (case HTTPURL (ht_parse tlib) (ht_lookup tlib) (ht_allowPrivate tlib) (m_Target m) of
        Inl err \<Rightarrow> (no_attempts, Inl (Some (TargetError err)))
      | Inr targetURL \<Rightarrow>
          (case prepare_request lib m of
             Inl err \<Rightarrow> (no_attempts, Inl (Some err))
           | Inr request \<Rightarrow>
               (case variant_loop (http_net.extend net \<lparr>hc_lookup = ht_lookup tlib, hc_allowPrivate = ht_allowPrivate tlib\<rparr>)
                       (map (\<lambda>u. request\<lparr>hr_URL := ht_String tlib u\<rparr>) (httpTargetVariants (ht_String tlib) targetURL)) no_attempts of
                  (st, Some (Inr result)) \<Rightarrow> (st, Inr result)
                | (st, Some (Inl err)) \<Rightarrow> (st, Inl (Some err))
                | (st, None) \<Rightarrow>
                    (case cs_first st of Some result \<Rightarrow> (st, Inr result) | None \<Rightarrow> (st, Inl (cs_lastErr st))))))"

section \<open>The result of the attempts\<close>

type_synonym http_log = "(http_request \<times> (http_error + check_result)) list"

definition answers :: "http_log \<Rightarrow> check_result list" where
  "answers tries = List.map_filter (\<lambda>(q, outcome). case outcome of Inl e \<Rightarrow> None | Inr r \<Rightarrow> Some r) tries"

definition errors :: "http_log \<Rightarrow> http_error list" where
  "errors tries = List.map_filter (\<lambda>(q, outcome). case outcome of Inl e \<Rightarrow> Some e | Inr r \<Rightarrow> None) tries"

lemma answers_snoc [simp]:
  "answers [] = []" "answers (tries @ [(q, Inl e)]) = answers tries" "answers (tries @ [(q, Inr r)]) = answers tries @ [r]"
  by (simp_all add: answers_def map_filter_def)

lemma errors_snoc [simp]:
  "errors [] = []" "errors (tries @ [(q, Inl e)]) = errors tries @ [e]" "errors (tries @ [(q, Inr r)]) = errors tries"
  by (simp_all add: errors_def map_filter_def)

text \<open>The variables summarise the tries as long as no attempt was a success.\<close>

definition tried :: "check_state \<Rightarrow> bool" where
  "tried st \<longleftrightarrow>
     (\<forall>r \<in> set (answers (cs_log st)). \<not> status_ok (statusCode r)) \<and>
     cs_first st = (if answers (cs_log st) = [] then None else Some (hd (answers (cs_log st)))) \<and>
     cs_lastErr st = (if errors (cs_log st) = [] then None else Some (last (errors (cs_log st))))"

text \<open>How a loop may end: still trying, with a success as the last attempt, or cancelled.\<close>

definition ended :: "http_client \<Rightarrow> check_state \<Rightarrow> (http_error + check_result) option \<Rightarrow> bool" where
  "ended net st out \<longleftrightarrow>
     (case out of
        None \<Rightarrow> tried st
      | Some (Inr r) \<Rightarrow>
          (\<exists>tries q. cs_log st = tries @ [(q, Inr r)] \<and> status_ok (statusCode r) \<and> (\<forall>r \<in> set (answers tries). \<not> status_ok (statusCode r)))
      | Some (Inl e) \<Rightarrow> e = ContextDone \<and> (\<forall>r \<in> set (answers (cs_log st)). \<not> status_ok (statusCode r)) \<and>
          cs_log st \<noteq> [] \<and> hn_canceled net (length (cs_log st) - 1))"

lemma attempt_loop_ended: "tried st \<Longrightarrow> attempt_loop net left request st = (st', out) \<Longrightarrow> ended net st' out"
proof (induction left arbitrary: st)
  case (Suc left)
  obtain hops outcome where perf: "performHTTPCheck net (length (cs_log st)) request = (hops, outcome)" by force
  show ?case
  proof (cases outcome)
    case (Inl err)
    let ?st = "st\<lparr>cs_log := cs_log st @ [(request, Inl err)], cs_redirects := cs_redirects st @ hops, cs_lastErr := Some err\<rparr>"
    have t: "tried ?st" using Suc.prems(1) by (simp add: tried_def)
    show ?thesis
    proof (cases "left > 0 \<and> \<not> hn_canceled net (length (cs_log st))")
      case True
      with Suc.prems(2) Inl perf have l: "attempt_loop net left request ?st = (st', out)" by (simp add: Let_def)
      show ?thesis by (rule Suc.IH [OF t l])
    next
      case False
      with Suc.prems(2) Inl perf have e: "st' = ?st \<and> (out = None \<or> out = Some (Inl ContextDone) \<and> hn_canceled net (length (cs_log st)))"
        by (simp add: Let_def split: if_split_asm)
      have "ended net ?st None" using t by (simp add: ended_def)
      moreover have "hn_canceled net (length (cs_log st)) \<Longrightarrow> ended net ?st (Some (Inl ContextDone))"
        using t unfolding tried_def by (simp add: ended_def)
      ultimately show ?thesis using e by blast
    qed
  next
    case (Inr r)
    let ?st = "st\<lparr>cs_log := cs_log st @ [(request, Inr r)], cs_redirects := cs_redirects st @ hops\<rparr>"
    let ?st' = "if cs_first st = None then ?st\<lparr>cs_first := Some r\<rparr> else ?st"
    from Suc.prems(2) Inr perf have e: "st' = ?st' \<and> out = (if status_ok (statusCode r) then Some (Inr r) else None)"
      by (auto simp: Let_def split: if_split_asm)
    have c: "cs_first ?st' = (if cs_first st = None then Some r else cs_first st)" "cs_log ?st' = cs_log st @ [(request, Inr r)]"
      "cs_lastErr ?st' = cs_lastErr st" by simp_all
    show ?thesis
    proof (cases "status_ok (statusCode r)")
      case True
      then show ?thesis using e c(2) Suc.prems(1) by (simp add: ended_def tried_def)
    next
      case False
      then have "tried ?st'" using Suc.prems(1) unfolding tried_def c by (auto simp: hd_append)
      with e False show ?thesis by (simp add: ended_def)
    qed
  qed
qed (simp add: ended_def)

lemma variant_loop_ended: "tried st \<Longrightarrow> variant_loop net requests st = (st', out) \<Longrightarrow> ended net st' out"
proof (induction net requests st rule: variant_loop.induct)
  case (2 net request requests st)
  obtain st1 o1 where a: "attempt_loop net (fixedHTTPRetryTimes + 1) request st = (st1, o1)" by force
  with 2 attempt_loop_ended [OF "2.prems"(1) a] show ?case by (cases o1) (auto simp: ended_def)
qed (simp add: ended_def)

lemma attempt_loop_log:
  "attempt_loop net left request st = (st', out) \<Longrightarrow>
     \<exists>tries. cs_log st' = cs_log st @ tries \<and> length tries \<le> left \<and> fst ` set tries \<subseteq> {request} \<and> (left > 0 \<longrightarrow> tries \<noteq> [])"
proof (induction left arbitrary: st)
  case (Suc left)
  obtain hops outcome where perf: "performHTTPCheck net (length (cs_log st)) request = (hops, outcome)" by force
  show ?case
  proof (cases outcome)
    case (Inl err)
    show ?thesis
    proof (cases "left > 0 \<and> \<not> hn_canceled net (length (cs_log st))")
      case True
      with Suc Inl perf obtain tries where "cs_log st' = (cs_log st @ [(request, Inl err)]) @ tries" "length tries \<le> left"
        "fst ` set tries \<subseteq> {request}"
        by (force simp: Let_def)
      then show ?thesis by (intro exI [of _ "(request, Inl err) # tries"]) auto
    next
      case False
      then show ?thesis using Suc.prems Inl perf by (auto simp: Let_def split: if_splits)
    qed
  next
    case (Inr r)
    then show ?thesis using Suc.prems perf by (auto simp: Let_def split: if_splits)
  qed
qed simp

lemma variant_loop_log:
  "variant_loop net requests st = (st', out) \<Longrightarrow>
     \<exists>tries. cs_log st' = cs_log st @ tries \<and> length tries \<le> 2 * length requests \<and> fst ` set tries \<subseteq> set requests \<and>
       (requests \<noteq> [] \<longrightarrow> tries \<noteq> [])"
proof (induction net requests st rule: variant_loop.induct)
  case (2 net request requests st)
  obtain st1 o1 where a: "attempt_loop net (fixedHTTPRetryTimes + 1) request st = (st1, o1)" by force
  from attempt_loop_log [OF a] obtain tries1 where l1: "cs_log st1 = cs_log st @ tries1" "length tries1 \<le> 2"
    "fst ` set tries1 \<subseteq> {request}" "tries1 \<noteq> []" by (auto simp: fixedHTTPRetryTimes_def)
  show ?case
  proof (cases o1)
    case None
    with 2 a obtain tries2 where "cs_log st' = cs_log st1 @ tries2" "length tries2 \<le> 2 * length requests" "fst ` set tries2 \<subseteq> set requests"
      by force
    with l1 show ?thesis by (intro exI [of _ "tries1 @ tries2"]) auto
  next
    case (Some r)
    with 2 a l1 show ?thesis by (intro exI [of _ tries1]) auto
  qed
qed simp

lemma variants_bounds: "1 \<le> length (httpTargetVariants str u) \<and> length (httpTargetVariants str u) \<le> 4"
proof -
  let ?vs = "concat (map (\<lambda>path. map (variant u path) (variantHostnames u)) (variantPaths u))"
  have "length ?vs \<le> 4" by (simp add: variantHostnames_def variantPaths_def Let_def)
  moreover have "?vs \<noteq> []" by (simp add: variantHostnames_def variantPaths_def Let_def)
  then have "httpTargetVariants str u \<noteq> []" unfolding httpTargetVariants_def by (cases ?vs) auto
  ultimately show ?thesis
    using keep_first_length [of str "{}" ?vs] by (simp add: httpTargetVariants_def Suc_leI)
qed

text \<open>
  C15. The verdict of an HTTP check follows from its attempts: it is the first answer with a
  status from 200 to 399, which ends the check; without one it is the first answer of any
  status; without any answer it is the last error; and a check whose context is done in the
  delay before a repetition ends with that error. There is at least one attempt and there are at
  most eight.
\<close>

lemma http_first_success_wins:
  assumes "performHTTPRequest lib tlib net m = (st, out)" "cs_log st \<noteq> []"
  shows "length (cs_log st) \<le> 8 \<and>
    (case out of
       Inr r \<Rightarrow>
         (if status_ok (statusCode r)
          then \<exists>tries q. cs_log st = tries @ [(q, Inr r)] \<and> (\<forall>r \<in> set (answers tries). \<not> status_ok (statusCode r))
          else (\<forall>r \<in> set (answers (cs_log st)). \<not> status_ok (statusCode r)) \<and> answers (cs_log st) \<noteq> [] \<and> r = hd (answers (cs_log st)))
     | Inl e \<Rightarrow>
         (\<forall>r \<in> set (answers (cs_log st)). \<not> status_ok (statusCode r)) \<and>
         (e = Some ContextDone \<and> hn_canceled net (length (cs_log st) - 1) \<or>
          answers (cs_log st) = [] \<and> errors (cs_log st) \<noteq> [] \<and> e = Some (last (errors (cs_log st)))))"
proof -
  from assms obtain u request where u: "HTTPURL (ht_parse tlib) (ht_lookup tlib) (ht_allowPrivate tlib) (m_Target m) = Inr u"
    and request: "prepare_request lib m = Inr request"
    by (auto simp: performHTTPRequest_def no_attempts_def split: sum.splits)
  let ?requests = "map (\<lambda>u. request\<lparr>hr_URL := ht_String tlib u\<rparr>) (httpTargetVariants (ht_String tlib) u)"
  let ?client = "http_net.extend net \<lparr>hc_lookup = ht_lookup tlib, hc_allowPrivate = ht_allowPrivate tlib\<rparr>"
  have canceled: "hn_canceled ?client = hn_canceled net" by (simp add: http_net.defs)
  obtain st1 o1 where v: "variant_loop ?client ?requests no_attempts = (st1, o1)" by force
  have "ended ?client st1 o1" by (rule variant_loop_ended [OF _ v]) (simp add: tried_def no_attempts_def)
  moreover have st: "st = st1"
    using assms(1) u request v by (auto simp: performHTTPRequest_def split: option.splits sum.splits)
  moreover have "length (cs_log st1) \<le> 8"
    using variant_loop_log [OF v] variants_bounds [of "ht_String tlib" u] by (auto simp: no_attempts_def)
  moreover have "errors (cs_log st1) \<noteq> [] \<or> answers (cs_log st1) \<noteq> []"
    using assms(2) st by (cases "cs_log st1" rule: rev_cases) (auto split: sum.splits, metis answers_snoc(3) append_is_Nil_conv errors_snoc(2) not_Cons_self2 obj_sumE)
  ultimately show ?thesis
    using assms(1) u request v
    by (cases o1) (auto simp: performHTTPRequest_def ended_def canceled tried_def split: sum.splits option.splits if_splits)
qed

definition example_url :: http_url where
  "example_url = \<lparr>u_Scheme = ''http'', u_Host = ''a.b'', u_Hostname = ''a.b'', u_HasUser = False, u_Port = [], u_Path = [], u_rest = []\<rparr>"

definition example_target :: http_target_lib where
  "example_target = \<lparr>ht_parse = (\<lambda>_. Some example_url), ht_lookup = (\<lambda>_. None), ht_allowPrivate = True,
     ht_String = (\<lambda>u. u_Host u @ u_Path u)\<rparr>"

definition example_format :: format_lib where
  "example_format = \<lparr>fl_unmarshalMap = (\<lambda>_. None), fl_unmarshal = (\<lambda>_. None), fl_marshal = (\<lambda>_. None), fl_sprint = (\<lambda>_. [])\<rparr>"

text \<open>The first address never answers, its www counterpart is not found, the address with a slash redirects to another.\<close>

definition example_net :: http_net where
  "example_net = \<lparr>hn_validURL = (\<lambda>_. True),
     hn_send = (\<lambda>n k q. if hr_URL q = ''a.b'' then NoAnswer
       else if hr_URL q = ''a.b/'' then (if k = 0 then Redirect (q\<lparr>hr_URL := ''c.d''\<rparr>) ''c.d'' else NoAnswer)
       else if hr_URL q = ''c.d'' then Answer 204 (Some []) else Answer 404 (Some ''x'')),
     hn_canceled = (\<lambda>_. False)\<rparr>"

definition example_monitoring :: monitoring where
  "example_monitoring = zero_monitoring\<lparr>m_Type := TypeHTTP, m_Target := ''a.b'', m_HTTPMethod := ''Post'', m_HTTPBody := AnyString ''x''\<rparr>"

lemmas example_defs = example_url_def example_target_def example_format_def example_net_def example_monitoring_def zero_monitoring_def

lemma example_texts:
  "trim_space ''a.b'' = ''a.b''" "trim_space ''x'' = ''x''" "trim_bytes {CHR ''['', CHR '']''} ''a.b'' = ''a.b''"
  "trim_space ''c.d'' = ''c.d''" "trim_bytes {CHR ''['', CHR '']''} ''c.d'' = ''c.d''"
  "request_method ''Post'' = ''post''" "to_upper ''post'' = ''POST''" "alternateWWWHostname ''a.b'' = ''www.a.b''"
  by code_simp+

lemma example_prepared:
  "prepare_request example_format example_monitoring =
     Inr \<lparr>hr_Method = ''POST'', hr_URL = [], hr_Headers = [(''Content-Type'', ''application/json'')], hr_Body = ''[]'',
          hr_BasicAuth = None, hr_Timeout = seconds 30\<rparr>"
  by (simp add: prepare_request_def example_defs example_texts normalizeHeaders_def normalizeBody_def headerBytes_def http_limits
      map_write_def Let_def)

lemma example_variants:
  "map (ht_String example_target) (httpTargetVariants (ht_String example_target) example_url) = [''a.b'', ''www.a.b'', ''a.b/'', ''www.a.b/'']"
  by (simp add: httpTargetVariants_def variantHostnames_def variantPaths_def variant_def example_defs example_texts Let_def)

lemma example_accepted: "HTTPURL (ht_parse example_target) (ht_lookup example_target) (ht_allowPrivate example_target) (m_Target example_monitoring) = Inr example_url"
  by (simp add: HTTPURL_def ValidateHost_def example_defs example_texts Let_def)

lemma example_run:
  "\<exists>st. performHTTPRequest example_format example_target example_net example_monitoring = (st, Inr \<lparr>statusCode = 204, cr_body = []\<rparr>) \<and>
     length (cs_log st) = 4 \<and> hr_URL (fst (cs_log st ! 2)) = ''www.a.b'' \<and> map snd (cs_redirects st) = [''c.d'']"
proof -
  have vs: "map (\<lambda>u. r\<lparr>hr_URL := ht_String example_target u\<rparr>) (httpTargetVariants (ht_String example_target) example_url) =
      map (\<lambda>s. r\<lparr>hr_URL := s\<rparr>) [''a.b'', ''www.a.b'', ''a.b/'', ''www.a.b/'']" for r :: http_request
    unfolding example_variants [symmetric] by simp
  show ?thesis
    unfolding performHTTPRequest_def example_accepted example_prepared sum.case vs
    by (simp add: example_net_def example_target_def http_net.defs client_do.simps checkRedirect_def ValidateHost_def example_texts performHTTPCheck_def readLimitedBody_def no_attempts_def http_limits status_ok_def Let_def numeral_2_eq_2)
qed

lemma http_first_success_wins_witness:
  "\<exists>st tries q r. performHTTPRequest example_format example_target example_net example_monitoring = (st, Inr r) \<and>
     length (cs_log st) = 4 \<and> cs_log st = tries @ [(q, Inr r)] \<and> statusCode r = 204"
proof -
  from example_run obtain st where st: "performHTTPRequest example_format example_target example_net example_monitoring =
      (st, Inr \<lparr>statusCode = 204, cr_body = []\<rparr>)" "length (cs_log st) = 4" by blast
  from st(2) have "cs_log st \<noteq> []" by auto
  from http_first_success_wins [OF st(1) this] st show ?thesis by (auto simp: status_ok_def)
qed

section \<open>What is sent\<close>

lemma map_read_absent: "k \<notin> map_keys m \<Longrightarrow> map_read z m k = z"
  by (simp add: map_read_def map_keys_def map_of_eq_None_iff [THEN iffD2])

lemma length_map_write_new: "k \<notin> map_keys m \<Longrightarrow> length (map_write k v m) = Suc (length m)"
  unfolding map_write_def map_keys_def by (induction m) auto

lemma request_methods: "request_method s \<in> {''get'', ''post'', ''put'', ''patch'', ''delete''}"
  by (simp add: request_method_def Let_def)

lemma upper_methods:
  "to_upper ''get'' = ''GET''" "to_upper ''post'' = ''POST''" "to_upper ''put'' = ''PUT''" "to_upper ''patch'' = ''PATCH''"
  "to_upper ''delete'' = ''DELETE''"
  by code_simp+

text \<open>The limits are those of the headers a monitoring has; a default content type is added afterwards.\<close>

definition headers_within :: "(string, string) gomap \<Rightarrow> http_request \<Rightarrow> bool" where
  "headers_within headers q \<longleftrightarrow> length headers \<le> 64 \<and> headerBytes headers \<le> 32768 \<and>
     (hr_Headers q = headers \<or>
      hr_Body q \<noteq> [] \<and> map_read [] headers ''Content-Type'' = [] \<and> map_read [] headers ''content-type'' = [] \<and>
      hr_Headers q = map_write ''Content-Type'' ''application/json'' headers)"

lemma prepared_request:
  assumes "prepare_request lib m = Inr q"
  shows "hr_Method q \<in> {''GET'', ''POST'', ''PUT'', ''PATCH'', ''DELETE''} \<and> length (hr_Body q) \<le> 1048576 \<and>
    headers_within (normalizeHeaders lib (m_HTTPHeaders m)) q \<and>
    (hr_Body q = [] \<or> hr_Method q \<in> {''POST'', ''PUT'', ''PATCH''} \<and>
       (map_read [] (hr_Headers q) ''Content-Type'' \<noteq> [] \<or> map_read [] (hr_Headers q) ''content-type'' \<noteq> []))"
proof -
  let ?h = "normalizeHeaders lib (m_HTTPHeaders m)" and ?b = "normalizeBody lib (m_HTTPBody m)"
  let ?verb = "request_method (m_HTTPMethod m)"
  let ?body = "if ?verb = ''get'' \<or> ?verb = ''delete'' then [] else ?b"
  let ?headers = "if ?body \<noteq> [] \<and> map_read [] ?h ''Content-Type'' = [] \<and> map_read [] ?h ''content-type'' = []
                  then map_write ''Content-Type'' ''application/json'' ?h else ?h"
  from assms have q: "hr_Method q = to_upper ?verb" "hr_Body q = ?body" "hr_Headers q = ?headers"
    and lim: "length ?b \<le> 1048576" "length ?h \<le> 64" "headerBytes ?h \<le> 32768"
    by (auto simp: prepare_request_def Let_def http_limits split: if_split_asm)
  have "headers_within ?h q" using lim(2,3) by (simp add: headers_within_def q)
  moreover have "hr_Method q \<in> {''GET'', ''POST'', ''PUT'', ''PATCH'', ''DELETE''}"
    using request_methods [of "m_HTTPMethod m"] by (auto simp: q(1) upper_methods)
  moreover have "?body = [] \<or> hr_Method q \<in> {''POST'', ''PUT'', ''PATCH''} \<and>
      (map_read [] ?headers ''Content-Type'' \<noteq> [] \<or> map_read [] ?headers ''content-type'' \<noteq> [])"
    using request_methods [of "m_HTTPMethod m"] by (auto simp: q(1) upper_methods)
  ultimately show ?thesis using lim by (simp add: q)
qed

text \<open>So a monitoring with 64 headers and a body, none of them a content type, sends 65.\<close>

lemma default_content_type_above_limit:
  assumes "length headers = 64" "headerBytes headers \<le> 32768" "''Content-Type'' \<notin> map_keys headers" "''content-type'' \<notin> map_keys headers"
    and "normalizeHeaders lib (m_HTTPHeaders m) = headers" "request_method (m_HTTPMethod m) = ''post''"
    and "normalizeBody lib (m_HTTPBody m) = ''[]''"
  shows "\<exists>q. prepare_request lib m = Inr q \<and> length (hr_Headers q) = 65"
proof -
  have "map_read [] headers ''Content-Type'' = []" "map_read [] headers ''content-type'' = []"
    using assms(3,4) by (simp_all add: map_read_absent)
  with assms show ?thesis
    by (simp add: prepare_request_def Let_def http_limits length_map_write_new)
qed

section \<open>Redirects\<close>

text \<open>An attempt follows at most four redirects: the fifth request is its last. Their hosts pass the egress policy.\<close>

lemma client_do_hops:
  "client_do client n via request = (hops, answer) \<Longrightarrow>
     length hops \<le> 4 - via \<and> (\<forall>(q, h) \<in> set hops. ValidateHost (hc_lookup client) (hc_allowPrivate client) h = None)"
proof (induction client n via request arbitrary: hops answer rule: client_do.induct)
  case (1 client n via request)
  show ?case
  proof (cases "hn_send client n via request")
    case (Redirect q h)
    show ?thesis
    proof (cases "checkRedirect (hc_lookup client) (hc_allowPrivate client) (Suc via) h")
      case True
      obtain hops' answer' where r: "client_do client n (Suc via) q = (hops', answer')" by force
      from "1.IH" [OF Redirect True r] True have "length hops' \<le> 4 - Suc via" "Suc via < 5"
        "\<forall>(q, h) \<in> set hops'. ValidateHost (hc_lookup client) (hc_allowPrivate client) h = None"
        "ValidateHost (hc_lookup client) (hc_allowPrivate client) h = None"
        by (simp_all add: checkRedirect_def http_limits)
      moreover have "hops = (q, h) # hops'" using "1.prems" Redirect True r by (simp add: client_do.simps [of client n via])
      ultimately show ?thesis by auto
    next
      case False
      with "1.prems" Redirect show ?thesis by (simp add: client_do.simps [of client n via])
    qed
  qed (use "1.prems" in \<open>simp_all add: client_do.simps [of client n via]\<close>)
qed

definition redirects_ok :: "http_client \<Rightarrow> check_state \<Rightarrow> bool" where
  "redirects_ok client st \<longleftrightarrow> length (cs_redirects st) \<le> 4 * length (cs_log st) \<and>
     (\<forall>(q, h) \<in> set (cs_redirects st). ValidateHost (hc_lookup client) (hc_allowPrivate client) h = None)"

lemma redirects_ok_frame [simp]:
  "redirects_ok client (st\<lparr>cs_first := f\<rparr>) = redirects_ok client st" "redirects_ok client (st\<lparr>cs_lastErr := e\<rparr>) = redirects_ok client st"
  by (simp_all add: redirects_ok_def)

lemma performHTTPCheck_hops:
  "performHTTPCheck client n request = (hops, outcome) \<Longrightarrow>
     length hops \<le> 4 \<and> (\<forall>(q, h) \<in> set hops. ValidateHost (hc_lookup client) (hc_allowPrivate client) h = None)"
  using client_do_hops [of client n 0 request]
  by (auto simp: performHTTPCheck_def split: if_splits prod.splits option.splits)

lemma attempt_loop_redirects:
  "redirects_ok net st \<Longrightarrow> attempt_loop net left request st = (st', out) \<Longrightarrow> redirects_ok net st'"
proof (induction left arbitrary: st)
  case (Suc left)
  obtain hops outcome where perf: "performHTTPCheck net (length (cs_log st)) request = (hops, outcome)" by force
  let ?st = "st\<lparr>cs_log := cs_log st @ [(request, outcome)], cs_redirects := cs_redirects st @ hops\<rparr>"
  have ok: "redirects_ok net ?st"
    using Suc.prems(1) performHTTPCheck_hops [OF perf] by (auto simp: redirects_ok_def)
  then have "redirects_ok net (?st\<lparr>cs_lastErr := e\<rparr>)" for e by simp
  note IH = Suc.IH [OF this]
  show ?case
    using Suc.prems(2) IH ok perf by (cases outcome) (auto simp: Let_def split: if_splits)
qed simp

lemma variant_loop_redirects:
  "redirects_ok net st \<Longrightarrow> variant_loop net requests st = (st', out) \<Longrightarrow> redirects_ok net st'"
proof (induction net requests st rule: variant_loop.induct)
  case (2 net request requests st)
  obtain st1 o1 where a: "attempt_loop net (fixedHTTPRetryTimes + 1) request st = (st1, o1)" by force
  with 2 attempt_loop_redirects [OF "2.prems"(1) a] show ?case by (cases o1) auto
qed simp

section \<open>All requests\<close>

lemma variant_on_target:
  "v \<in> set (httpTargetVariants str u) \<Longrightarrow>
     u_Scheme v = u_Scheme u \<and> u_rest v = u_rest u \<and>
     (u_Host v = u_Host u \<or>
      (let alternate = alternateWWWHostname (u_Hostname u)
       in alternate \<noteq> [] \<and> u_Host v = (if u_Port u \<noteq> [] then JoinHostPort alternate (u_Port u) else alternate)))"
proof -
  assume "v \<in> set (httpTargetVariants str u)"
  then obtain path hostname where "v = variant u path hostname" "hostname \<in> set (variantHostnames u)"
    using keep_first_subset [of str "{}"] by (fastforce simp: httpTargetVariants_def)
  then show ?thesis by (auto simp: variant_def variantHostnames_def Let_def split: if_splits)
qed

text \<open>
  C16. Whatever a monitoring asks for, every attempt of a check starts with a request to the
  accepted target itself or its www counterpart, with the scheme, query and port of the target; its
  method is one of five; it has a body only if the method takes one, then with a content type,
  and of at most 1 MiB; its headers are those of the monitoring, at most 64 and 32 KiB, to which
  only a default content type may be added beyond the limits. The requests that follow redirects
  may leave the target: there are at most four in an attempt, and each is to a host that passed the
  egress policy.
\<close>

lemma http_requests_stay_on_target:
  assumes "performHTTPRequest lib tlib net m = (st, out)" "(q, outcome) \<in> set (cs_log st)"
  shows "(\<exists>u v. HTTPURL (ht_parse tlib) (ht_lookup tlib) (ht_allowPrivate tlib) (m_Target m) = Inr u \<and>
    hr_URL q = ht_String tlib v \<and> u_Scheme v = u_Scheme u \<and> u_rest v = u_rest u \<and>
    (u_Host v = u_Host u \<or>
      (let alternate = alternateWWWHostname (u_Hostname u)
       in alternate \<noteq> [] \<and> u_Host v = (if u_Port u \<noteq> [] then JoinHostPort alternate (u_Port u) else alternate)))) \<and>
    hr_Method q \<in> {''GET'', ''POST'', ''PUT'', ''PATCH'', ''DELETE''} \<and> length (hr_Body q) \<le> 1048576 \<and>
    headers_within (normalizeHeaders lib (m_HTTPHeaders m)) q \<and>
    (hr_Body q = [] \<or> hr_Method q \<in> {''POST'', ''PUT'', ''PATCH''} \<and>
       (map_read [] (hr_Headers q) ''Content-Type'' \<noteq> [] \<or> map_read [] (hr_Headers q) ''content-type'' \<noteq> [])) \<and>
    length (cs_redirects st) \<le> 4 * length (cs_log st) \<and>
    (\<forall>(r, h) \<in> set (cs_redirects st). ValidateHost (ht_lookup tlib) (ht_allowPrivate tlib) h = None)"
proof -
  from assms obtain u r where u: "HTTPURL (ht_parse tlib) (ht_lookup tlib) (ht_allowPrivate tlib) (m_Target m) = Inr u"
    and r: "prepare_request lib m = Inr r"
    by (auto simp: performHTTPRequest_def no_attempts_def split: sum.splits)
  let ?requests = "map (\<lambda>u. r\<lparr>hr_URL := ht_String tlib u\<rparr>) (httpTargetVariants (ht_String tlib) u)"
  let ?client = "http_net.extend net \<lparr>hc_lookup = ht_lookup tlib, hc_allowPrivate = ht_allowPrivate tlib\<rparr>"
  obtain st1 o1 where v: "variant_loop ?client ?requests no_attempts = (st1, o1)" by force
  have st: "st = st1"
    using assms(1) u r v by (auto simp: performHTTPRequest_def split: option.splits sum.splits)
  have "redirects_ok ?client st"
    unfolding st by (rule variant_loop_redirects [OF _ v]) (simp add: redirects_ok_def no_attempts_def)
  then have hops: "length (cs_redirects st) \<le> 4 * length (cs_log st)"
    "\<forall>(r, h) \<in> set (cs_redirects st). ValidateHost (ht_lookup tlib) (ht_allowPrivate tlib) h = None"
    by (simp_all add: redirects_ok_def http_net.defs)
  from st variant_loop_log [OF v] assms(2) have "q \<in> set ?requests" by (force simp: no_attempts_def)
  then obtain w where w: "w \<in> set (httpTargetVariants (ht_String tlib) u)" "q = r\<lparr>hr_URL := ht_String tlib w\<rparr>" by auto
  have q: "hr_URL q = ht_String tlib w" "hr_Method q = hr_Method r" "hr_Body q = hr_Body r" "hr_Headers q = hr_Headers r"
    using w(2) by simp_all
  have "headers_within h q = headers_within h r" for h by (simp add: headers_within_def q)
  with prepared_request [OF r] hops show ?thesis
    unfolding q using u variant_on_target [OF w(1)] by blast
qed

lemma http_requests_stay_on_target_witness:
  "\<exists>st q outcome v. performHTTPRequest example_format example_target example_net example_monitoring =
       (st, Inr \<lparr>statusCode = 204, cr_body = []\<rparr>) \<and>
     (q, outcome) \<in> set (cs_log st) \<and> hr_URL q = ''www.a.b'' \<and> hr_URL q = ht_String example_target v \<and> u_Scheme v = ''http''"
proof -
  obtain st q outcome where st:
    "performHTTPRequest example_format example_target example_net example_monitoring = (st, Inr \<lparr>statusCode = 204, cr_body = []\<rparr>)"
    and q: "(q, outcome) \<in> set (cs_log st)" "hr_URL q = ''www.a.b''"
  proof -
    from example_run obtain st where st:
      "performHTTPRequest example_format example_target example_net example_monitoring = (st, Inr \<lparr>statusCode = 204, cr_body = []\<rparr>)"
      "length (cs_log st) = 4" "hr_URL (fst (cs_log st ! 2)) = ''www.a.b''" by blast
    then have "(fst (cs_log st ! 2), snd (cs_log st ! 2)) \<in> set (cs_log st)" by simp
    with st that show thesis by blast
  qed
  from http_requests_stay_on_target [OF st q(1)] obtain u v where
    "HTTPURL (ht_parse example_target) (ht_lookup example_target) (ht_allowPrivate example_target) (m_Target example_monitoring) = Inr u"
    "hr_URL q = ht_String example_target v" "u_Scheme v = u_Scheme u" by blast
  with example_accepted have "u_Scheme v = ''http''" by (simp add: example_url_def)
  with st q \<open>hr_URL q = ht_String example_target v\<close> show ?thesis by blast
qed

end
