(* ===== verification/Domain_Lookup.thy ===== *)
theory Domain_Lookup
  imports Go_Time Go_Text Go_Net Monitor_Types
begin

text \<open>
  \<open>internal/adapters/domainlookup/domainlookup.go\<close>: is a domain registered, until when and by
  whom. RDAP is asked first, WHOIS when RDAP does not settle it, for the name and its parents.

  What the network says while one candidate is checked is an argument, a \<open>candidate_net\<close>: the
  reply to the RDAP request, whose body may be cut off, and the text a WHOIS server sends. Decoding an RDAP body is an
  argument too (\<open>encoding/json\<close>), and so is the machine's local time zone.
\<close>

section \<open>Names\<close>

definition maxDomainLength :: nat where "maxDomainLength = 253"
definition maxDomainLabels :: nat where "maxDomainLabels = 127"
definition maxDomainLabelLength :: nat where "maxDomainLabelLength = 63"

definition NormalizeTarget :: "string \<Rightarrow> string" where
  "NormalizeTarget target = trim_byte CHR ''.'' (trim_space (to_lower target))"

definition label_char :: "char \<Rightarrow> bool" where
  "label_char c \<longleftrightarrow> (let n = (of_char c :: nat) in 97 \<le> n \<and> n \<le> 122 \<or> 48 \<le> n \<and> n \<le> 57 \<or> c = CHR ''-'')"

definition validLabel :: "string \<Rightarrow> bool" where
  "validLabel label \<longleftrightarrow>
     \<not> (label = [] \<or> length label > maxDomainLabelLength \<or> has_prefix label ''-'' \<or> has_suffix label ''-'') \<and>
     list_all label_char label"

definition validDomainName :: "string \<Rightarrow> bool" where
  "validDomainName domain \<longleftrightarrow>
     \<not> (domain = [] \<or> length domain > maxDomainLength \<or> str_contains domain ''/'') \<and>
     (let labels = split_byte CHR ''.'' domain
      in \<not> (length labels = 0 \<or> length labels > maxDomainLabels) \<and> list_all validLabel labels)"

definition tld :: "string \<Rightarrow> string" where
  "tld domain = (let parts = split_byte CHR ''.'' domain in if length parts < 2 then [] else last parts)"

definition lookupCandidates :: "string \<Rightarrow> string list" where
  "lookupCandidates domain =
     (let parts = split_byte CHR ''.'' domain
      in if length parts \<le> 2 then [domain]
         else map (\<lambda>i. join_byte CHR ''.'' (drop i parts)) [0..<length parts - 1])"

section \<open>Dates\<close>

definition iso_day :: "chunk list" where
  "iso_day = [LongYear, Lit CHR ''-'', ZeroMonth, Lit CHR ''-'', ZeroDay]"

definition clock :: "chunk list" where
  "clock = [Hour, Lit CHR '':'', ZeroMinute, Lit CHR '':'', ZeroSecond]"

definition blank :: "chunk list" where
  "blank = [Lit CHR '' '']"

definition date_layouts :: "chunk list list" where
  "date_layouts =
     [iso_day @ [Lit CHR ''T''] @ clock @ [FracSecond9, ISO8601ColonTZ],
      iso_day @ [Lit CHR ''T''] @ clock @ [ISO8601ColonTZ],
      iso_day @ [Lit CHR ''T''] @ clock @ [NumTZ],
      iso_day @ [Lit CHR ''T''] @ clock,
      iso_day @ blank @ clock @ blank @ [TZ],
      iso_day @ blank @ clock @ blank @ [NumTZ],
      iso_day @ blank @ clock,
      iso_day,
      [ZeroDay, Lit CHR ''-'', Month, Lit CHR ''-'', LongYear],
      [ZeroDay, Lit CHR ''-'', Month, Lit CHR ''-'', LongYear] @ blank @ clock @ blank @ [TZ],
      [LongYear, Lit CHR ''.'', ZeroMonth, Lit CHR ''.'', ZeroDay],
      [ZeroDay, Lit CHR ''.'', ZeroMonth, Lit CHR ''.'', LongYear],
      [LongMonth] @ blank @ [Day] @ blank @ [LongYear],
      [Day] @ blank @ [LongMonth] @ blank @ [LongYear]]"

fun first_some :: "('a \<Rightarrow> 'b option) \<Rightarrow> 'a list \<Rightarrow> 'b option" where
  "first_some f [] = None"
| "first_some f (x # xs) = (case f x of None \<Rightarrow> first_some f xs | Some y \<Rightarrow> Some y)"

definition parseDate :: "local_zone \<Rightarrow> string \<Rightarrow> instant option" where
  "parseDate zone v =
     (let v = trim_space v in if v = [] then None else first_some (\<lambda>layout. time_Parse zone layout v) date_layouts)"

text \<open>The text before the first blank followed by an opening parenthesis.\<close>

fun before_comment :: "string \<Rightarrow> string option" where
  "before_comment [] = None"
| "before_comment (c # cs) =
     (if c = CHR '' '' \<and> cs \<noteq> [] \<and> hd cs = CHR ''('' then Some [] else map_option (\<lambda>b. c # b) (before_comment cs))"

definition cleanDateValue :: "string \<Rightarrow> string" where
  "cleanDateValue v =
     (let v = trim_suffix (trim_space v) ''.''
      in case before_comment v of None \<Rightarrow> v | Some before \<Rightarrow> trim_space before)"

section \<open>WHOIS texts\<close>

text \<open>The white space of Go's regular expressions, and a word matched without regard to case.\<close>

definition re_space :: "char \<Rightarrow> bool" where
  "re_space c \<longleftrightarrow> c \<in> {CHR 0x09, CHR 0x0A, CHR 0x0C, CHR 0x0D, CHR 0x20}"

definition re_strip :: "string \<Rightarrow> string" where
  "re_strip s = rev (dropWhile re_space (rev s))"

text \<open>The bytes of the text that match a lower-case ASCII word, if its start does.\<close>

fun match_fold :: "string \<Rightarrow> string \<Rightarrow> string option" where
  "match_fold [] s = Some s"
| "match_fold (w # ws) s =
     (if s = [] then None
      else if lower_byte (hd s) = w then match_fold ws (tl s)
      else if w = CHR ''s'' \<and> prefix [CHR 0xC5, CHR 0xBF] s then match_fold ws (drop 2 s)
      else if w = CHR ''k'' \<and> prefix [CHR 0xE2, CHR 0x84, CHR 0xAA] s then match_fold ws (drop 3 s)
      else None)"

text \<open>
  \<open>^\s*(name|...)\s*:\s*(.+?)\s*$\<close>: the second group, of the first name with which the pattern
  matches.
\<close>

definition field_value :: "string list \<Rightarrow> string \<Rightarrow> string option" where
  "field_value names line =
     first_some (\<lambda>name.
       case match_fold name (dropWhile re_space line) of
         None \<Rightarrow> None
       | Some after_name \<Rightarrow>
           (case dropWhile re_space after_name of
              [] \<Rightarrow> None
            | c # after_colon \<Rightarrow>
                if c \<noteq> CHR '':'' then None
                else let start = dropWhile re_space after_colon;
                         group = (if start \<noteq> [] then re_strip start else if after_colon = [] then [] else [last after_colon])
                     in if group = [] \<or> CHR 0x0A \<in> set group then None else Some group)) names"

definition expirationFieldPattern :: "string list" where
  "expirationFieldPattern =
     [''registry expiry date'', ''registrar registration expiration date'', ''expiration date'', ''paid-till'', ''expiry date'']"

definition registrarFieldPattern :: "string list" where
  "registrarFieldPattern = [''registrar'', ''sponsoring registrar'']"

text \<open>\<open>^\s*refer:\s*(\S+)\s*$\<close> on the whole text: the pattern has no multi-line flag.\<close>

definition whoisReferral :: "string \<Rightarrow> string option" where
  "whoisReferral raw =
     (case match_fold ''refer:'' (dropWhile re_space raw) of
        None \<Rightarrow> None
      | Some after \<Rightarrow>
          (let start = dropWhile re_space after; word = takeWhile (\<lambda>c. \<not> re_space c) start
           in if word = [] \<or> \<not> list_all re_space (drop (length word) start) then None else Some word))"

text \<open>
  \<open>bufio.Scanner\<close>: the lines without their ends; a line of 64 KiB or more ends the scan.
\<close>

definition drop_cr :: "string \<Rightarrow> string" where
  "drop_cr s = (if s \<noteq> [] \<and> last s = CHR 0x0D then butlast s else s)"

definition scan_lines :: "string \<Rightarrow> string list" where
  "scan_lines raw =
     (let parts = split_byte CHR 0x0A raw; lines = (if last parts = [] then butlast parts else parts)
      in map drop_cr (takeWhile (\<lambda>l. length l < 65536) lines))"

definition earlier :: "instant option \<Rightarrow> instant \<Rightarrow> instant option" where
  "earlier best t = (case best of None \<Rightarrow> Some t | Some b \<Rightarrow> if time_before t b then Some t else Some b)"

text \<open>One round of the loop: the dates and registrar so far, and a line.\<close>

definition whoisLine :: "local_zone \<Rightarrow> string \<Rightarrow> instant option \<times> string option \<Rightarrow> instant option \<times> string option" where
  "whoisLine zone text found =
     (let line = trim_space text; (expiresAt, registrar) = found
      in case field_value expirationFieldPattern line of
           Some v \<Rightarrow>
             (case parseDate zone (cleanDateValue v) of
                None \<Rightarrow> (expiresAt, registrar)
              | Some parsed \<Rightarrow> (earlier expiresAt parsed, registrar))
         | None \<Rightarrow>
             if registrar \<noteq> None then (expiresAt, registrar)
             else (case field_value registrarFieldPattern line of
                     None \<Rightarrow> (expiresAt, registrar)
                   | Some v \<Rightarrow> if trim_space v = [] then (expiresAt, registrar) else (expiresAt, Some (trim_space v))))"

definition ParseWHOIS :: "local_zone \<Rightarrow> string \<Rightarrow> instant option \<times> string option" where
  "ParseWHOIS zone raw = fold (whoisLine zone) (scan_lines raw) (None, None)"

definition unavailableMarkers :: "string list" where
  "unavailableMarkers =
     [''no match for'', ''not found'', ''no data found'', ''no entries found'', ''status: free'', ''domain not found'']"

definition looksUnavailable :: "string \<Rightarrow> bool" where
  "looksUnavailable raw = list_ex (str_contains (to_lower raw)) unavailableMarkers"

section \<open>RDAP answers\<close>

record rdap_event =
  ev_Action :: string
  ev_Date :: string

record rdap_entity =
  en_Roles :: "string list"
  en_VCardArray :: "go_any list"

record rdap_response =
  rdap_Events :: "rdap_event list"
  rdap_Entities :: "rdap_entity list"

definition parseRDAPExpiration :: "local_zone \<Rightarrow> rdap_event list \<Rightarrow> instant option" where
  "parseRDAPExpiration zone events =
     first_some (\<lambda>event.
       let action = to_lower (trim_space (ev_Action event))
       in if action \<noteq> ''expiration'' \<and> action \<noteq> ''expiry'' \<and> action \<noteq> ''registration expiration'' then None
          else parseDate zone (ev_Date event)) events"

definition hasRole :: "string list \<Rightarrow> string \<Rightarrow> bool" where
  "hasRole roles role = list_ex (\<lambda>item. equal_fold (trim_space item) role) roles"

text \<open>A property of the card counts when it is a list of at least four whose first is the name.\<close>

definition vcardFN :: "go_any \<Rightarrow> string option" where
  "vcardFN p =
     (case p of
        AnySlice xs \<Rightarrow>
          if length xs < 4 then None
          else (case (xs ! 0, xs ! 3) of
                  (AnyString name, AnyString v) \<Rightarrow>
                    if \<not> equal_fold name ''fn'' \<or> trim_space v = [] then None else Some (trim_space v)
                | _ \<Rightarrow> None)
      | _ \<Rightarrow> None)"

definition parseVCardFN :: "go_any list \<Rightarrow> string option" where
  "parseVCardFN vcard =
     (if length vcard < 2 then None
      else case vcard ! 1 of AnySlice properties \<Rightarrow> first_some vcardFN properties | _ \<Rightarrow> None)"

definition parseRDAPRegistrar :: "rdap_entity list \<Rightarrow> string option" where
  "parseRDAPRegistrar entities =
     first_some (\<lambda>entity. if \<not> hasRole (en_Roles entity) ''registrar'' then None else parseVCardFN (en_VCardArray entity)) entities"

section \<open>The lookup\<close>

text \<open>Errors: a temporary one may wrap another.\<close>

datatype lookup_error = Temporary "lookup_error option" | TransportError | RDAPStatus int | DecodeError | NetworkError

text \<open>\<open>errors.As\<close>: the wrapper is the only error of the package that wraps.\<close>

definition IsTemporary :: "lookup_error option \<Rightarrow> bool" where
  "IsTemporary err = (case err of Some (Temporary e) \<Rightarrow> True | _ \<Rightarrow> False)"

fun firstError :: "lookup_error option list \<Rightarrow> lookup_error option" where
  "firstError [] = None"
| "firstError (err # errs) = (if err \<noteq> None then err else firstError errs)"

record lookup_result =
  lr_Domain :: string
  lr_Registered :: bool
  lr_ExpiresAt :: "instant option"
  lr_Registrar :: "string option"
  lr_CheckedAt :: instant

definition unregistered :: "string \<Rightarrow> instant \<Rightarrow> lookup_result" where
  "unregistered domain checkedAt =
     \<lparr>lr_Domain = domain, lr_Registered = False, lr_ExpiresAt = None, lr_Registrar = None, lr_CheckedAt = checkedAt\<rparr>"

text \<open>
  The body of a reply: all of it, or what arrived before reading it failed. The JSON decoder
  reads as much as it needs; without a whole value in what arrived it fails in both cases, with the
  error of the reader or of the syntax, and the code passes either on as it is.
\<close>

datatype rdap_body = Complete string | Interrupted string

fun received :: "rdap_body \<Rightarrow> string" where
  "received (Complete bytes) = bytes"
| "received (Interrupted bytes) = bytes"

text \<open>The reply to a GET of a URL; the stream of a server to a query, by address. None is an error.\<close>

record candidate_net =
  cn_rdap :: "string \<Rightarrow> (int \<times> rdap_body) option"
  cn_whois :: "string \<Rightarrow> string \<Rightarrow> string option"

record lookup_lib =
  lk_decode :: "string \<Rightarrow> rdap_response option"
  lk_zone :: local_zone

definition defaultRDAPBaseURL :: string where "defaultRDAPBaseURL = ''https://rdap.org/domain/''"

text \<open>Replies and streams are read up to 2 MiB.\<close>

definition limit_2MiB :: "string \<Rightarrow> string" where
  "limit_2MiB s = take 2097152 s"

definition lookupRDAP ::
    "lookup_lib \<Rightarrow> candidate_net \<Rightarrow> string \<Rightarrow> instant \<Rightarrow> lookup_result \<times> lookup_error option" where
  "lookupRDAP lib net domain checkedAt =
     (let r = unregistered domain checkedAt
      in case cn_rdap net (defaultRDAPBaseURL @ domain) of
           None \<Rightarrow> (r, Some (Temporary (Some TransportError)))
         | Some (status, body) \<Rightarrow>
             if status = 404 then (r, None)
             else if status = 429 \<or> status \<ge> 500 then (r, Some (Temporary (Some (RDAPStatus status))))
             else if status \<ge> 400 then (r, Some (RDAPStatus status))
             else case lk_decode lib (limit_2MiB (received body)) of
                    None \<Rightarrow> (r, Some DecodeError)
                  | Some payload \<Rightarrow>
                      (\<lparr>lr_Domain = domain, lr_Registered = True,
                        lr_ExpiresAt = parseRDAPExpiration (lk_zone lib) (rdap_Events payload),
                        lr_Registrar = parseRDAPRegistrar (rdap_Entities payload), lr_CheckedAt = checkedAt\<rparr>, None))"

definition queryWHOIS :: "candidate_net \<Rightarrow> string \<Rightarrow> string \<Rightarrow> lookup_error + string" where
  "queryWHOIS net server query =
     (case cn_whois net (JoinHostPort server ''43'') (query @ [CHR 0x0D, CHR 0x0A]) of
        None \<Rightarrow> Inl NetworkError
      | Some stream \<Rightarrow> Inr (limit_2MiB stream))"

definition lookupWHOISServer :: "candidate_net \<Rightarrow> string \<Rightarrow> lookup_error + string" where
  "lookupWHOISServer net topLevel =
     (if topLevel = [] then Inr []
      else case queryWHOIS net ''whois.iana.org'' topLevel of
             Inl err \<Rightarrow> Inl (Temporary (Some err))
           | Inr raw \<Rightarrow> (case whoisReferral raw of None \<Rightarrow> Inr [] | Some server \<Rightarrow> Inr (trim_space server)))"

definition lookupWHOIS ::
    "lookup_lib \<Rightarrow> candidate_net \<Rightarrow> string \<Rightarrow> instant \<Rightarrow> lookup_result \<times> lookup_error option" where
  "lookupWHOIS lib net domain checkedAt =
     (let r = unregistered domain checkedAt
      in case lookupWHOISServer net (tld domain) of
           Inl err \<Rightarrow> (r, Some err)
         | Inr server \<Rightarrow>
             if server = [] then (r, None)
             else case queryWHOIS net server domain of
                    Inl err \<Rightarrow> (r, Some (Temporary (Some err)))
                  | Inr raw \<Rightarrow>
                      if looksUnavailable raw then (r, None)
                      else (case ParseWHOIS (lk_zone lib) raw of
                              (expiresAt, registrar) \<Rightarrow>
                                (\<lparr>lr_Domain = domain, lr_Registered = True, lr_ExpiresAt = expiresAt,
                                  lr_Registrar = registrar, lr_CheckedAt = checkedAt\<rparr>, None)))"

text \<open>What a candidate's result is, given what RDAP and WHOIS yielded.\<close>

definition with_registrar :: "lookup_result \<Rightarrow> lookup_result \<Rightarrow> lookup_result" where
  "with_registrar whoisResult rdapResult =
     (if lr_Registrar whoisResult = None then whoisResult\<lparr>lr_Registrar := lr_Registrar rdapResult\<rparr> else whoisResult)"

definition lookupCandidate ::
    "lookup_lib \<Rightarrow> candidate_net \<Rightarrow> string \<Rightarrow> instant \<Rightarrow> lookup_result \<times> lookup_error option" where
  "lookupCandidate lib net domain checkedAt =
     (let r = unregistered domain checkedAt; (rdapResult, rdapErr) = lookupRDAP lib net domain checkedAt
      in if rdapErr = None \<and> (\<not> lr_Registered rdapResult \<or> lr_ExpiresAt rdapResult \<noteq> None) then (rdapResult, None)
         else
           let (whoisResult, whoisErr) = lookupWHOIS lib net domain checkedAt
           in if whoisErr = None then
                (if lr_Registered whoisResult then (with_registrar whoisResult rdapResult, None)
                 else if rdapErr = None \<and> lr_Registered rdapResult then (rdapResult, None)
                 else if IsTemporary rdapErr then (r, Some (Temporary rdapErr))
                 else (with_registrar whoisResult rdapResult, None))
              else if rdapErr = None \<and> lr_Registered rdapResult then (rdapResult, None)
              else if IsTemporary rdapErr \<or> IsTemporary whoisErr then (r, Some (Temporary (firstError [rdapErr, whoisErr])))
              else (r, None))"

fun candidates_loop ::
    "(string \<Rightarrow> lookup_result \<times> lookup_error option) \<Rightarrow> lookup_error option \<Rightarrow> string list
     \<Rightarrow> lookup_result + lookup_error option" where
  "candidates_loop check temporaryErr [] = Inr temporaryErr"
| "candidates_loop check temporaryErr (candidate # candidates) =
     (case check candidate of
        (candidateResult, Some err) \<Rightarrow>
          candidates_loop check (if IsTemporary (Some err) \<and> temporaryErr = None then Some err else temporaryErr) candidates
      | (candidateResult, None) \<Rightarrow>
          if lr_Registered candidateResult then Inl candidateResult else candidates_loop check temporaryErr candidates)"

definition Lookup ::
    "lookup_lib \<Rightarrow> (string \<Rightarrow> candidate_net) \<Rightarrow> instant \<Rightarrow> string \<Rightarrow> lookup_result \<times> lookup_error option" where
  "Lookup lib net now target =
     (let domain = NormalizeTarget target; result = unregistered domain now
      in if \<not> validDomainName domain then (result, None)
         else case candidates_loop (\<lambda>candidate. lookupCandidate lib (net candidate) candidate now) None (lookupCandidates domain) of
                Inl candidateResult \<Rightarrow> (candidateResult, None)
              | Inr None \<Rightarrow> (result, None)
              | Inr (Some err) \<Rightarrow> (result, Some (Temporary (Some err))))"

section \<open>The order of the candidates\<close>

lemma lookupCandidate_errors: "snd (lookupCandidate lib net c now) = Some e \<Longrightarrow> IsTemporary (Some e)"
  by (auto simp: lookupCandidate_def Let_def IsTemporary_def split: prod.splits if_splits)

lemma candidates_loop_spec:
  assumes "\<And>c e. snd (check c) = Some e \<Longrightarrow> IsTemporary (Some e)"
  shows "candidates_loop check err cs =
    (case find (\<lambda>c. snd (check c) = None \<and> lr_Registered (fst (check c))) cs of
       Some c \<Rightarrow> Inl (fst (check c))
     | None \<Rightarrow> Inr (if err = None then first_some (\<lambda>c. snd (check c)) cs else err))"
proof (induction cs arbitrary: err)
  case (Cons c cs)
  obtain r e where c: "check c = (r, e)" by force
  with assms [of c] Cons show ?case by (cases e) (auto split: option.split)
qed simp

lemma loop_of_candidates:
  "candidates_loop (\<lambda>c. lookupCandidate lib (net c) c now) None cs =
     (case find (\<lambda>c. snd (lookupCandidate lib (net c) c now) = None \<and> lr_Registered (fst (lookupCandidate lib (net c) c now))) cs of
        Some c \<Rightarrow> Inl (fst (lookupCandidate lib (net c) c now))
      | None \<Rightarrow> Inr (first_some (\<lambda>c. snd (lookupCandidate lib (net c) c now)) cs))"
  by (subst candidates_loop_spec) (auto intro: lookupCandidate_errors)

lemma find_Some_sound: "find P xs = Some x \<Longrightarrow> P x \<and> x \<in> set xs"
  by (auto simp: find_Some_iff)

text \<open>
  C21. A lookup is the first success, in order: the result of the first candidate that is
  registered without an error, whatever the candidates before it failed with; if there is none,
  the name is reported as unregistered, with a temporary error exactly when some candidate had
  one, wrapping the first. A name that is no valid domain is unregistered, and the network is
  not asked.
\<close>

lemma Lookup_is_reference:
  "let domain = NormalizeTarget target; check = \<lambda>c. lookupCandidate lib (net c) c now
   in Lookup lib net now target =
        (if \<not> validDomainName domain then (unregistered domain now, None)
         else case find (\<lambda>c. snd (check c) = None \<and> lr_Registered (fst (check c))) (lookupCandidates domain) of
                Some c \<Rightarrow> (fst (check c), None)
              | None \<Rightarrow> (unregistered domain now,
                         map_option (\<lambda>e. Temporary (Some e)) (first_some (\<lambda>c. snd (check c)) (lookupCandidates domain))))"
  by (auto simp: Lookup_def Let_def loop_of_candidates split: option.splits)

section \<open>What an unregistered domain rests on\<close>

lemma first_some_None: "first_some f xs = None \<longleftrightarrow> (\<forall>x \<in> set xs. f x = None)"
  by (induction xs) (auto split: option.splits)

lemma candidate_unregistered:
  assumes "snd (lookupCandidate lib net c now) = None" "\<not> lr_Registered (fst (lookupCandidate lib net c now))"
  shows "\<exists>status body. cn_rdap net (defaultRDAPBaseURL @ c) = Some (status, body) \<and>
    (status = 404 \<or>
     (400 \<le> status \<and> status < 500 \<and> status \<noteq> 429 \<or> status < 400 \<and> lk_decode lib (limit_2MiB (received body)) = None) \<and>
     snd (lookupWHOIS lib net c now) = None \<and> \<not> lr_Registered (fst (lookupWHOIS lib net c now)))"
proof -
  obtain wr we where w: "lookupWHOIS lib net c now = (wr, we)" by force
  have wt: "we = Some e \<Longrightarrow> IsTemporary (Some e)" for e
    using w by (auto simp: lookupWHOIS_def lookupWHOISServer_def Let_def IsTemporary_def
        split: sum.splits if_splits option.splits prod.splits)
  show ?thesis
    using assms wt w
    by (cases we) (auto simp: lookupCandidate_def lookupRDAP_def Let_def unregistered_def with_registrar_def IsTemporary_def
        split: option.splits prod.splits if_splits)
qed

text \<open>
  C20. A domain is reported as unregistered without an error only on evidence: for the name
  and each parent that was tried, RDAP answered with a status, and either it does not know the
  name (404), or it refused the question (another 4xx than 429) or its document could not be decoded, and then WHOIS
  did not fail either and did not know the name. An RDAP request without an answer, a
  rate limit, a server error and a WHOIS failure never lead to it. A document that cannot be decoded may be one
  that was cut off: reading the body is not among the failures the code takes for temporary.
\<close>

lemma unregistered_needs_evidence:
  assumes "Lookup lib net now target = (r, None)" "\<not> lr_Registered r" "validDomainName (NormalizeTarget target)"
    and "c \<in> set (lookupCandidates (NormalizeTarget target))"
  shows "\<exists>status body. cn_rdap (net c) (defaultRDAPBaseURL @ c) = Some (status, body) \<and>
    (status = 404 \<or>
     (400 \<le> status \<and> status < 500 \<and> status \<noteq> 429 \<or> status < 400 \<and> lk_decode lib (limit_2MiB (received body)) = None) \<and>
     snd (lookupWHOIS lib (net c) c now) = None \<and> \<not> lr_Registered (fst (lookupWHOIS lib (net c) c now)))"
proof (rule candidate_unregistered)
  let ?check = "\<lambda>c. lookupCandidate lib (net c) c now"
  let ?good = "\<lambda>c. snd (?check c) = None \<and> lr_Registered (fst (?check c))"
  have f: "find ?good (lookupCandidates (NormalizeTarget target)) = None"
  proof (rule ccontr)
    assume "find ?good (lookupCandidates (NormalizeTarget target)) \<noteq> None"
    then obtain d where d: "find ?good (lookupCandidates (NormalizeTarget target)) = Some d" by blast
    with assms(1,3) have "r = fst (?check d)" by (simp add: Lookup_def Let_def loop_of_candidates)
    with find_Some_sound [OF d] assms(2) show False by simp
  qed
  have e: "first_some (\<lambda>c. snd (?check c)) (lookupCandidates (NormalizeTarget target)) = None"
    using assms(1,3) f by (simp add: Lookup_def Let_def loop_of_candidates split: option.splits)
  show ok: "snd (?check c) = None" using e assms(4) by (simp add: first_some_None)
  show "\<not> lr_Registered (fst (?check c))" using f ok assms(4) by (auto simp: find_None_iff)
qed

lemma unregistered_needs_evidence_witness:
  "let net = \<lambda>c. \<lparr>cn_rdap = (\<lambda>_. Some (404, Complete [])), cn_whois = (\<lambda>_ _. None)\<rparr>;
       lib = \<lparr>lk_decode = (\<lambda>_. None), lk_zone = (\<lambda>_ _. None)\<rparr>
   in fst (the (cn_rdap (net ''b.example'') (defaultRDAPBaseURL @ ''b.example''))) = 404 \<and>
      Lookup lib net 7 ''A.b.example'' = (unregistered ''a.b.example'' 7, None)"
proof -
  let ?net = "\<lambda>c :: string. \<lparr>cn_rdap = (\<lambda>_. Some (404, Complete [])), cn_whois = (\<lambda>_ _. None)\<rparr> :: candidate_net"
  let ?lib = "\<lparr>lk_decode = (\<lambda>_. None), lk_zone = (\<lambda>_ _. None)\<rparr> :: lookup_lib"
  have n: "NormalizeTarget ''A.b.example'' = ''a.b.example''" by code_simp
  have v: "validDomainName ''a.b.example''" by code_simp
  have c: "lookupCandidates ''a.b.example'' = [''a.b.example'', ''b.example'']" by code_simp
  have k: "lookupCandidate ?lib (?net d) d 7 = (unregistered d 7, None)" for d
    by (simp add: lookupCandidate_def lookupRDAP_def unregistered_def Let_def)
  have l: "Lookup ?lib ?net 7 ''A.b.example'' = (unregistered ''a.b.example'' 7, None)"
    by (simp only: Lookup_def Let_def n v c k candidates_loop.simps prod.case option.case) (simp add: unregistered_def)
  have "\<not> lr_Registered (unregistered ''a.b.example'' 7)" by (simp add: unregistered_def)
  from unregistered_needs_evidence [OF l this, of "''b.example''"] show ?thesis
    using l by (simp add: n v c Let_def)
qed

text \<open>
  A registration document cut off by a lost connection or a timeout: the lookup ends without an
  error and reports the domain as unregistered, when WHOIS does not know it.
\<close>

lemma interrupted_document_reads_as_unregistered:
  assumes "cn_rdap net (defaultRDAPBaseURL @ c) = Some (200, Interrupted part)" "lk_decode lib (limit_2MiB part) = None"
    "lookupWHOIS lib net c now = (unregistered c now, None)"
  shows "lookupCandidate lib net c now = (unregistered c now, None)"
  using assms by (simp add: lookupCandidate_def lookupRDAP_def Let_def unregistered_def with_registrar_def IsTemporary_def)

section \<open>The candidates\<close>

lemma length_join_drop: "i < length parts \<Longrightarrow> length (join_byte sep (drop i parts)) \<le> length (join_byte sep parts)"
proof (induction i arbitrary: parts)
  case (Suc i)
  then have "parts \<noteq> []" "tl parts \<noteq> []" by (cases parts; auto)+
  then obtain p ps where p: "parts = p # ps" "ps \<noteq> []" by (cases parts) auto
  then show ?case using Suc by (simp add: join_byte_Cons) (metis le_SucI le_add2 le_trans)
qed simp

lemma suffix_join_drop: "i < length parts \<Longrightarrow> suffix (join_byte sep (drop i parts)) (join_byte sep parts)"
proof (induction i arbitrary: parts)
  case (Suc i)
  then have "parts \<noteq> []" "tl parts \<noteq> []" by (cases parts; auto)+
  then obtain p ps where p: "parts = p # ps" "ps \<noteq> []" by (cases parts) auto
  with Suc have "suffix (join_byte sep (drop i ps)) (join_byte sep ps)" by simp
  then show ?case using p by (simp add: join_byte_Cons suffix_append suffix_Cons)
qed simp

lemma valid_drop:
  assumes "validDomainName d" "i < length (split_byte CHR ''.'' d)"
  shows "validDomainName (join_byte CHR ''.'' (drop i (split_byte CHR ''.'' d)))"
    and "split_byte CHR ''.'' (join_byte CHR ''.'' (drop i (split_byte CHR ''.'' d))) = drop i (split_byte CHR ''.'' d)"
proof -
  let ?ps = "split_byte CHR ''.'' d"
  let ?j = "join_byte CHR ''.'' (drop i ?ps)"
  show sp: "split_byte CHR ''.'' ?j = drop i ?ps"
    using assms(2) by (intro split_join) (auto dest: in_set_dropD split_byte_no_sep)
  have suf: "suffix ?j d" using suffix_join_drop [of i ?ps] assms(2) by (metis join_split)
  have "?j \<noteq> []"
  proof
    assume "?j = []"
    then have "[] \<in> set ?ps" using sp assms(2) by (metis split_byte.simps(1) in_set_dropD list.set_intros(1))
    with assms(1) show False by (auto simp: validDomainName_def validLabel_def list_all_iff Let_def)
  qed
  moreover have "length ?j \<le> length d" using suf by (rule suffix_length_le)
  moreover have "\<not> str_contains ?j ''/''"
    using suf assms(1) unfolding str_contains_iff validDomainName_def by (auto dest: suffix_imp_sublist sublist_order.order_trans)
  ultimately show "validDomainName ?j"
    using assms unfolding validDomainName_def sp Let_def by (auto simp: list_all_iff dest: in_set_dropD)
qed

text \<open>
  The names a lookup asks for are the valid name itself, first, and its parents down to
  two labels: each is a valid domain name, a suffix of the target and asked for once, and there
  are at most 126.
\<close>

lemma candidates_are_parents:
  assumes "validDomainName domain"
  shows "hd (lookupCandidates domain) = domain \<and> distinct (lookupCandidates domain) \<and> length (lookupCandidates domain) \<le> 126 \<and>
    (\<forall>c \<in> set (lookupCandidates domain). validDomainName c \<and> suffix c domain \<and> tld c = tld domain \<and>
       (c = domain \<or> 2 \<le> length (split_byte CHR ''.'' c)))"
proof -
  let ?ps = "split_byte CHR ''.'' domain"
  let ?c = "\<lambda>i. join_byte CHR ''.'' (drop i ?ps)"
  have n: "length ?ps \<le> 127" using assms by (simp add: validDomainName_def Let_def maxDomainLabels_def)
  show ?thesis
  proof (cases "length ?ps \<le> 2")
    case True
    then have "lookupCandidates domain = [domain]" by (simp add: lookupCandidates_def Let_def)
    with assms show ?thesis by simp
  next
    case False
    then have l: "lookupCandidates domain = map ?c [0..<length ?ps - 1]" by (simp add: lookupCandidates_def Let_def)
    have sp: "split_byte CHR ''.'' (?c i) = drop i ?ps" if "i < length ?ps" for i by (rule valid_drop(2) [OF assms that])
    have "inj_on ?c {0..<length ?ps - 1}"
    proof (rule inj_onI)
      fix i j assume ij: "i \<in> {0..<length ?ps - 1}" "j \<in> {0..<length ?ps - 1}" "?c i = ?c j"
      then have lt: "i < length ?ps" "j < length ?ps" by simp_all
      have "drop i ?ps = split_byte CHR ''.'' (?c i)" by (rule sp [OF lt(1), symmetric])
      also have "\<dots> = split_byte CHR ''.'' (?c j)" by (rule arg_cong [OF ij(3)])
      also have "\<dots> = drop j ?ps" by (rule sp [OF lt(2)])
      finally have "drop i ?ps = drop j ?ps" .
      then have "length ?ps - i = length ?ps - j" by (metis length_drop)
      with lt show "i = j" by simp
    qed
    then have "distinct (lookupCandidates domain)" by (simp add: l distinct_map)
    moreover have "hd (lookupCandidates domain) = domain"
    proof -
      have "lookupCandidates domain ! 0 = domain" "lookupCandidates domain \<noteq> []" using False by (simp_all add: l)
      then show ?thesis by (metis hd_conv_nth)
    qed
    moreover have "validDomainName (?c i) \<and> suffix (?c i) domain \<and> tld (?c i) = tld domain \<and> 2 \<le> length (split_byte CHR ''.'' (?c i))"
      if "i < length ?ps - 1" for i
    proof -
      have i: "i < length ?ps" using that by simp
      have "suffix (?c i) domain" using suffix_join_drop [OF i, of "CHR ''.''"] by simp
      moreover have "\<not> length ?ps < 2" "\<not> length (drop i ?ps) < 2" using that by auto
      then have "tld (?c i) = tld domain" unfolding tld_def Let_def sp [OF i] using i by (simp only: if_False last_drop)
      ultimately show ?thesis using valid_drop(1) [OF assms i] sp [OF i] that by simp
    qed
    ultimately show ?thesis using n by (auto simp: l)
  qed
qed

lemma candidates_are_parents_witness:
  "let cs = lookupCandidates ''a.b.example'' in hd cs = ''a.b.example'' \<and> length cs = 2 \<and> validDomainName (cs ! 1)"
proof -
  have v: "validDomainName ''a.b.example''" by code_simp
  have c: "lookupCandidates ''a.b.example'' = [''a.b.example'', ''b.example'']" by code_simp
  from candidates_are_parents [OF v] show ?thesis unfolding c Let_def by simp
qed

section \<open>Dates\<close>

lemma first_some_append: "first_some f (xs @ ys) = (case first_some f xs of None \<Rightarrow> first_some f ys | Some y \<Rightarrow> Some y)"
  by (induction xs) (auto split: option.split)

lemma read_layout_stuck: "read_chunk ch f [] p = None \<Longrightarrow> (layout \<noteq> [] \<and> hd layout = FracSecond9) = f \<Longrightarrow>
    read_layout (ch # layout) [] p = None"
  by simp

lemma iso_day_then:
  assumes "calendar_ok y mo d h mi s"
  shows "read_layout (iso_day @ layout) (iso_date y mo d) no_parts =
    read_layout layout [] (no_parts\<lparr>tp_year := int y, tp_month := int mo, tp_day := int d\<rparr>)"
proof -
  from assms have "d < 100" by (auto simp: calendar_ok_def days_in_def split: if_splits)
  moreover from this have "read_chunk ZeroDay f (two_digits d) p = Some ([], p\<lparr>tp_day := int d\<rparr>)" for f p
    using read_digits(4) [of d f "[]" p] by simp
  ultimately show ?thesis
    using assms by (simp add: iso_day_def iso_date_def read_digits calendar_ok_def no_parts_def)
qed

text \<open>
  C25. Registries' dates are read as what they say: for every calendar day up to the year
  9999, the RFC 3339 form of an instant in UTC and the bare day are both accepted, and give that
  instant and the midnight of that day, whatever the machine's time zone. An RDAP document whose
  first expiration event has such a date expires then.
\<close>

lemma dates_read_back:
  assumes "calendar_ok y mo d h mi s"
    and "\<forall>e \<in> set before. to_lower (trim_space (ev_Action e)) \<notin> {''expiration'', ''expiry'', ''registration expiration''}"
    and "to_lower (trim_space (ev_Action e)) \<in> {''expiration'', ''expiry'', ''registration expiration''}"
    and "ev_Date e = rfc3339 y mo d h mi s"
  shows "parseDate zone (rfc3339 y mo d h mi s) = Some (calendar_instant y mo d h mi s) \<and>
    parseDate zone (iso_date y mo d) = Some (calendar_instant y mo d 0 0 0) \<and>
    parseRDAPExpiration zone (before @ e # later) = Some (calendar_instant y mo d h mi s)"
proof -
  have hd_l: "date_layouts = rfc3339_layout # tl date_layouts"
    by (simp add: date_layouts_def rfc3339_layout_def iso_day_def clock_def)
  have ne: "rfc3339 y mo d h mi s \<noteq> []" by (simp add: rfc3339_def)
  have rfc: "parseDate zone (rfc3339 y mo d h mi s) = Some (calendar_instant y mo d h mi s)"
    unfolding parseDate_def Let_def trim_space_printable [OF printed_dates_printable(1) [OF assms(1)]]
    using ne time_Parse_rfc3339 [OF assms(1), of zone] by (subst hd_l) simp
  let ?p = "no_parts\<lparr>tp_year := int y, tp_month := int mo, tp_day := int d\<rparr>"
  have fail: "time_Parse zone (iso_day @ l) (iso_date y mo d) = None" if "read_layout l [] ?p = None" for l
    using that by (simp add: time_Parse_def iso_day_then [OF assms(1)])
  have "read_layout (Lit CHR ''T'' # l) [] p = None" "read_layout (blank @ clock @ l) [] p = None" for l p
    by (simp_all add: read_chunk_def skip_literal_def blank_def clock_def getnum_in_def getnum_def is_digit_at_def)
  note no = this [THEN fail] this(2) [where l = "[]", simplified, THEN fail]
  have "time_Parse zone iso_day (iso_date y mo d) = Some (calendar_instant y mo d 0 0 0)"
    using iso_day_then [OF assms(1), of "[]"] assms(1)
    by (simp add: time_Parse_def Let_def no_parts_def calendar_ok_def date_utc_def calendar_instant_def)
  then have day: "parseDate zone (iso_date y mo d) = Some (calendar_instant y mo d 0 0 0)"
    using no trim_space_printable [OF printed_dates_printable(2) [OF assms(1)]]
    by (simp add: parseDate_def Let_def date_layouts_def iso_date_def)
  have "first_some (\<lambda>event. let action = to_lower (trim_space (ev_Action event))
        in if action \<noteq> ''expiration'' \<and> action \<noteq> ''expiry'' \<and> action \<noteq> ''registration expiration'' then None
           else parseDate zone (ev_Date event)) before = None"
    using assms(2) by (auto simp: first_some_None Let_def)
  then have "parseRDAPExpiration zone (before @ e # later) = Some (calendar_instant y mo d h mi s)"
    using assms(3,4) rfc by (auto simp: parseRDAPExpiration_def first_some_append Let_def)
  with rfc day show ?thesis by blast
qed

lemma dates_read_back_witness:
  "parseRDAPExpiration (\<lambda>_ _. None) [\<lparr>ev_Action = ''registration'', ev_Date = ''2001-01-01''\<rparr>,
       \<lparr>ev_Action = ''expiration'', ev_Date = ''2028-02-29T12:30:00Z''\<rparr>] = Some (calendar_instant 2028 2 29 12 30 0)"
proof -
  have ok: "calendar_ok 2028 2 29 12 30 0" by code_simp
  have a: "to_lower (trim_space ''registration'') = ''registration''" "to_lower (trim_space ''expiration'') = ''expiration''"
    by code_simp+
  have d: "rfc3339 2028 2 29 12 30 0 = ''2028-02-29T12:30:00Z''" by code_simp
  show ?thesis
    using dates_read_back [OF ok, of "[\<lparr>ev_Action = ''registration'', ev_Date = ''2001-01-01''\<rparr>]"
        "\<lparr>ev_Action = ''expiration'', ev_Date = ''2028-02-29T12:30:00Z''\<rparr>" "\<lambda>_ _. None" "[]"]
    by (simp add: a d)
qed

section \<open>Reading a WHOIS text\<close>

text \<open>The dates of a text, and its registrar lines that are not dates.\<close>

definition line_dates :: "local_zone \<Rightarrow> string \<Rightarrow> instant option" where
  "line_dates zone text =
     (case field_value expirationFieldPattern (trim_space text) of
        None \<Rightarrow> None
      | Some v \<Rightarrow> parseDate zone (cleanDateValue v))"

definition line_registrar :: "string \<Rightarrow> string option" where
  "line_registrar text =
     (if field_value expirationFieldPattern (trim_space text) \<noteq> None then None
      else case field_value registrarFieldPattern (trim_space text) of
             None \<Rightarrow> None
           | Some v \<Rightarrow> if trim_space v = [] then None else Some (trim_space v))"

lemma whoisLine_split:
  "whoisLine zone text (e, r) =
     (case line_dates zone text of None \<Rightarrow> e | Some t \<Rightarrow> earlier e t, if r = None then line_registrar text else r)"
  by (auto simp: whoisLine_def line_dates_def line_registrar_def Let_def split: option.splits)

definition least :: "instant option \<Rightarrow> instant set \<Rightarrow> instant option" where
  "least e ts = (let all = set_option e \<union> ts in if all = {} then None else Some (Min all))"

lemma least_earlier: "finite ts \<Longrightarrow> least (earlier e t) ts = least e (insert t ts)"
proof (cases e)
  case (Some b)
  assume "finite ts"
  moreover have "earlier e t = Some (min b t)" by (simp add: Some earlier_def time_before_def min_def)
  ultimately show ?thesis using Some by (cases "ts = {}") (simp_all add: least_def Let_def min.assoc)
qed (simp add: least_def earlier_def)

lemma fold_whoisLine:
  "fold (whoisLine zone) lines (e, r) =
     (least e {t. \<exists>l \<in> set lines. line_dates zone l = Some t}, if r = None then first_some line_registrar lines else r)"
proof (induction lines arbitrary: e r)
  case Nil
  then show ?case by (cases e) (simp_all add: least_def)
next
  case (Cons l ls)
  let ?ts = "{t. \<exists>l \<in> set ls. line_dates zone l = Some t}"
  have fin: "finite ?ts"
  proof (rule finite_subset)
    show "?ts \<subseteq> (\<lambda>l. the (line_dates zone l)) ` set ls" by force
  qed simp
  have cons: "{t. \<exists>k \<in> set (l # ls). line_dates zone k = Some t} = set_option (line_dates zone l) \<union> ?ts" by auto
  show ?case unfolding cons
    using Cons.IH least_earlier [OF fin] by (cases "line_dates zone l") (auto simp: whoisLine_split split: option.split)
qed

text \<open>
  C24. A WHOIS text expires at the earliest date that any of its expiration lines gives, in any
  of the accepted notations, lines that cannot be read as a date notwithstanding; its registrar
  is the first registrar line with a value. The scan ends at a line of 64 KiB.
\<close>

lemma whois_takes_earliest_date:
  "let lines = scan_lines raw; dates = {t. \<exists>l \<in> set lines. line_dates zone l = Some t}
   in ParseWHOIS zone raw = (if dates = {} then None else Some (Min dates), first_some line_registrar lines)"
  by (simp add: ParseWHOIS_def fold_whoisLine least_def Let_def)

section \<open>The referral\<close>

lemma match_fold_head: "match_fold ''refer:'' s = Some rst \<Longrightarrow> s \<noteq> [] \<and> lower_byte (hd s) = CHR ''r''"
  by (auto split: if_splits)

text \<open>
  C40. The pattern for the referral spans the whole answer, so that an answer with anything
  beside the referral names no server: one that starts with a comment, as the answers of the
  root server do, means that no WHOIS server is asked and the name counts as unknown to WHOIS.
  Whether the domain is registered then rests on RDAP alone.
\<close>

lemma commented_referral_disables_whois:
  assumes "cn_whois net (JoinHostPort ''whois.iana.org'' ''43'') (tld domain @ [CHR 0x0D, CHR 0x0A]) = Some (CHR ''%'' # answer)"
  shows "lookupWHOIS lib net domain now = (unregistered domain now, None) \<and>
    (\<forall>r. lookupCandidate lib net domain now = (r, None) \<longrightarrow> lr_Registered r \<longrightarrow>
       lookupRDAP lib net domain now = (r, None))"
proof -
  have nr: "\<not> re_space CHR ''%''" "lower_byte CHR ''%'' \<noteq> CHR ''r''" by (simp_all add: re_space_def) code_simp
  have "whoisReferral (CHR ''%'' # xs) = None" for xs
    using nr match_fold_head [of "CHR ''%'' # xs"]
    by (cases "match_fold ''refer:'' (CHR ''%'' # xs)") (auto simp: whoisReferral_def)
  then have w: "lookupWHOIS lib net domain now = (unregistered domain now, None)"
    using assms by (simp add: lookupWHOIS_def lookupWHOISServer_def queryWHOIS_def limit_2MiB_def Let_def)
  then show ?thesis
    by (auto simp: lookupCandidate_def Let_def unregistered_def with_registrar_def split: prod.splits if_splits)
qed

lemma commented_referral_disables_whois_witness:
  "let net = \<lparr>cn_rdap = (\<lambda>_. Some (403, Complete [])), cn_whois = (\<lambda>server _. if server = ''whois.iana.org:43''
         then Some (''% IANA WHOIS server'' @ [CHR 0x0A] @ ''refer: whois.verisign-grs.com'' @ [CHR 0x0A])
         else Some ''Registry Expiry Date: 2030-01-01'')\<rparr>
   in lookupWHOIS \<lparr>lk_decode = (\<lambda>_. None), lk_zone = (\<lambda>_ _. None)\<rparr> net ''a.com'' 7 = (unregistered ''a.com'' 7, None)"
proof -
  have j: "JoinHostPort ''whois.iana.org'' ''43'' = ''whois.iana.org:43''" by code_simp
  let ?net = "\<lparr>cn_rdap = (\<lambda>_. Some (403, Complete [])), cn_whois = (\<lambda>server _. if server = ''whois.iana.org:43''
         then Some (''% IANA WHOIS server'' @ [CHR 0x0A] @ ''refer: whois.verisign-grs.com'' @ [CHR 0x0A])
         else Some ''Registry Expiry Date: 2030-01-01'')\<rparr> :: candidate_net"
  have "cn_whois ?net (JoinHostPort ''whois.iana.org'' ''43'') (tld ''a.com'' @ [CHR 0x0D, CHR 0x0A]) =
      Some (CHR ''%'' # '' IANA WHOIS server'' @ [CHR 0x0A] @ ''refer: whois.verisign-grs.com'' @ [CHR 0x0A])"
    by (simp add: j)
  from commented_referral_disables_whois [OF this] show ?thesis by (simp add: Let_def)
qed

end
