(* ===== verification/Runner_Checks.thy ===== *)
theory Runner_Checks
  imports Http_Check Domain_Lookup Executor_Registry Dns_Record
begin

text \<open>
  The checks behind the executors, \<open>internal/adapters/runner/runner.go\<close> and
  \<open>executor_registry.go\<close>: HTTP, keyword, ping, TCP port, TLS certificate and domain
  expiration, and their assembly into the registry's executors.

  The clock at the start of a check and the time that has passed when it is measured are
  arguments; so are the ping command, the connection attempts and the TLS handshake.
\<close>

section \<open>HTTP and keyword\<close>

text \<open>The status, the body and the error, as the code returns them.\<close>

definition httpCheck :: "http_error option + check_result \<Rightarrow> int \<times> string \<times> http_error option" where
  "httpCheck out = (case out of Inl err \<Rightarrow> (0, [], err) | Inr r \<Rightarrow> (statusCode r, cr_body r, None))"

definition observeHTTPMonitoring ::
    "instant \<Rightarrow> duration \<Rightarrow> int \<times> string \<times> http_error option \<Rightarrow> monitoring
     \<Rightarrow> mon_status \<times> rat option \<times> int option \<times> raw_observation" where
  "observeHTTPMonitoring start elapsed checked m =
     (let observation = empty_observation (m_Type m) start; (status, body, err) = checked
      in if err \<noteq> None then (StatusDown, None, None, observation\<lparr>o_TransportError := Some ''http_transport_error''\<rparr>)
         else
           let responseTime = roundMilliseconds elapsed;
               observation = observation\<lparr>o_HTTPStatusCode := Some status, o_ResponseTime := Some responseTime\<rparr>
           in if status \<ge> 200 \<and> status < 400 then (StatusUp, Some responseTime, Some status, observation)
              else (StatusDown, None, Some status, observation))"

definition observeKeywordMonitoring ::
    "instant \<Rightarrow> duration \<Rightarrow> int \<times> string \<times> http_error option \<Rightarrow> monitoring
     \<Rightarrow> mon_status \<times> rat option \<times> int option \<times> raw_observation" where
  "observeKeywordMonitoring start elapsed checked m =
     (let observation = empty_observation (m_Type m) start; (status, body, err) = checked
      in if err \<noteq> None then
           (StatusDown, None, None,
            observation\<lparr>o_TransportError := Some ''http_transport_error'', o_KeywordMatched := Some False\<rparr>)
         else
           let responseTime = roundMilliseconds elapsed;
               matched = str_contains body (m_Keyword m);
               observation = observation\<lparr>o_HTTPStatusCode := Some status, o_ResponseTime := Some responseTime,
                                         o_KeywordMatched := Some matched\<rparr>
           in if matched then (StatusUp, Some responseTime, Some status, observation)
              else (StatusDown, None, Some status, observation))"

section \<open>Ping\<close>

definition fixedPingTimeoutSeconds :: int where "fixedPingTimeoutSeconds = 5"

definition buildPingCommand :: "string \<Rightarrow> int \<Rightarrow> string \<times> string list" where
  "buildPingCommand host timeoutSeconds =
     (let timeoutSeconds = (if timeoutSeconds \<le> 0 then fixedPingTimeoutSeconds else timeoutSeconds);
          family = (case ParseIP host of None \<Rightarrow> [] | Some ip \<Rightarrow> if To4 ip = None then [''-6''] else [''-4''])
      in (''ping'', [''-c'', ''1'', ''-W'', int_dec timeoutSeconds] @ family @ [host]))"

text \<open>
  \<open>time[=<]([0-9]+(?:\.[0-9]+)?)\s*ms\<close> at the start of a text: the whole and the fractional
  digits of the group. The repetitions are greedy, and no shorter match of one exists.
\<close>

definition is_digit :: "char \<Rightarrow> bool" where
  "is_digit c \<longleftrightarrow> digit_val c \<noteq> None"

definition latency_here :: "string \<Rightarrow> (string \<times> string) option" where
  "latency_here s =
     (if \<not> prefix ''time='' s \<and> \<not> prefix ''time<'' s then None
      else
        let whole = takeWhile is_digit (drop 5 s);
            after_whole = dropWhile is_digit (drop 5 s);
            fraction = (if prefix ''.'' after_whole then takeWhile is_digit (tl after_whole) else []);
            after = (if fraction = [] then after_whole else drop (1 + length fraction) after_whole)
        in if whole \<noteq> [] \<and> prefix ''ms'' (dropWhile re_space after) then Some (whole, fraction) else None)"

fun latency_match :: "string \<Rightarrow> (string \<times> string) option" where
  "latency_match [] = None"
| "latency_match (c # cs) = (case latency_here (c # cs) of None \<Rightarrow> latency_match cs | Some g \<Rightarrow> Some g)"

text \<open>
  \<open>strconv.ParseFloat\<close> of such a group, which fails when it is out of range. (The product
  below would be infinite for a latency of more than \<open>10^305\<close> milliseconds; here it stays finite.)
\<close>

definition decimal_value :: "string \<Rightarrow> string \<Rightarrow> rat" where
  "decimal_value whole fraction =
     (case digits_val 0 (whole @ fraction) of None \<Rightarrow> 0 | Some n \<Rightarrow> of_nat n / 10 ^ length fraction)"

definition parsePingLatency :: "string \<Rightarrow> rat option" where
  "parsePingLatency output =
     (case latency_match (to_lower output) of
        None \<Rightarrow> None
      | Some (whole, fraction) \<Rightarrow>
          (let v = decimal_value whole fraction
           in if v \<ge> float_overflow then None
              else Some (to_float (math_round (to_float (to_float v * 1000)) / 1000))))"

text \<open>The command run, its combined output and whether it failed; and the commands run so far.\<close>

type_synonym ping_runner = "string \<Rightarrow> string list \<Rightarrow> string \<times> bool"

definition observePingMonitoring ::
    "url_parser \<Rightarrow> resolver \<Rightarrow> bool \<Rightarrow> ping_runner \<Rightarrow> instant \<Rightarrow> duration \<Rightarrow> monitoring
     \<Rightarrow> (string \<times> string list) list \<times> mon_status \<times> rat option \<times> raw_observation" where
  "observePingMonitoring parse lookup allowPrivate run start elapsed m =
     (let observation = (empty_observation (m_Type m) start)\<lparr>o_Connected := Some False\<rparr>
      in case Host parse (m_Target m) of
           Inl err \<Rightarrow> ([], StatusDown, None, observation\<lparr>o_TransportError := Some ''invalid_target''\<rparr>)
         | Inr host \<Rightarrow>
             (case ValidateHost lookup allowPrivate host of
                Some err \<Rightarrow> ([], StatusDown, None, observation\<lparr>o_TransportError := Some ''target_rejected''\<rparr>)
              | None \<Rightarrow>
                  (let timeoutSeconds = (if m_Timeout m > 0 then m_Timeout m else fixedPingTimeoutSeconds);
                       (command, args) = buildPingCommand host timeoutSeconds;
                       (output, failed) = run command args;
                       responseTime = parsePingLatency output
                   in if failed then
                        ([(command, args)], StatusDown, None, observation\<lparr>o_TransportError := Some ''ping_failed''\<rparr>)
                      else
                        let responseTime = (case responseTime of None \<Rightarrow> Some (roundMilliseconds elapsed) | t \<Rightarrow> t)
                        in ([(command, args)], StatusUp, responseTime,
                            observation\<lparr>o_Connected := Some True, o_ResponseTime := responseTime\<rparr>))))"

section \<open>TCP ports\<close>

definition observePortMonitoring ::
    "url_parser \<Rightarrow> resolver \<Rightarrow> bool \<Rightarrow> (dial \<Rightarrow> bool) \<Rightarrow> instant \<Rightarrow> duration \<Rightarrow> monitoring
     \<Rightarrow> mon_status \<times> rat option \<times> raw_observation" where
  "observePortMonitoring parse lookup allowPrivate connects start elapsed m =
     (let observation = (empty_observation (m_Type m) start)
            \<lparr>o_Connected := Some False, o_Metadata := [(''port'', int_dec (m_Port m))]\<rparr>;
          failed = (\<lambda>reason. (StatusDown, None, observation\<lparr>o_TransportError := Some reason\<rparr>))
      in if m_Port m \<le> 0 then failed ''invalid_port''
         else case TCPAddress parse (m_Target m) (m_Port m) of
                Inl err \<Rightarrow> failed ''invalid_target''
              | Inr address \<Rightarrow>
                  (if (case SafeDialContext lookup allowPrivate address of Inl err \<Rightarrow> True | Inr d \<Rightarrow> \<not> connects d)
                   then failed ''connection_failed''
                   else let responseTime = roundMilliseconds elapsed
                        in (StatusUp, Some responseTime,
                            observation\<lparr>o_Connected := Some True, o_ResponseTime := Some responseTime\<rparr>)))"

section \<open>Certificates\<close>

record certificate =
  ct_NotBefore :: instant
  ct_NotAfter :: instant
  ct_CommonName :: string
  ct_IssuerString :: string
  ct_VerifyHostname :: "string \<Rightarrow> bool"

text \<open>The handshake over a connection for a server name: None if connecting or the handshake fails.\<close>

definition crawl_certificate ::
    "url_parser \<Rightarrow> resolver \<Rightarrow> bool \<Rightarrow> (dial \<Rightarrow> string \<Rightarrow> certificate list option) \<Rightarrow> instant \<Rightarrow> monitoring \<Rightarrow> ssl_payload" where
  "crawl_certificate parse lookup allowPrivate handshake now m =
     (let payload = \<lparr>sp_MonitoringID = m_ID m, sp_IdempotencyKey = [], sp_IsValid = False, sp_ExpiresAt = None,
                     sp_Issuer = None, sp_IssuedAt = None\<rparr>
      in case SSLAddressAndServerName parse (m_Target m) of
           Inl err \<Rightarrow> payload
         | Inr (address, serverName) \<Rightarrow>
             (case SafeDialContext lookup allowPrivate address of
                Inl err \<Rightarrow> payload
              | Inr d \<Rightarrow>
                  (case handshake d serverName of
                     None \<Rightarrow> payload
                   | Some [] \<Rightarrow> payload
                   | Some (certificate # chain) \<Rightarrow>
                       if time_before now (ct_NotBefore certificate) \<or> time_after now (ct_NotAfter certificate) then payload
                       else if \<not> ct_VerifyHostname certificate serverName then payload
                       else
                         let issuer = (if ct_CommonName certificate = [] then ct_IssuerString certificate else ct_CommonName certificate)
                         in payload\<lparr>sp_IsValid := True, sp_ExpiresAt := Some (ct_NotAfter certificate),
                                    sp_IssuedAt := Some (ct_NotBefore certificate),
                                    sp_Issuer := (if issuer \<noteq> [] then Some issuer else None)\<rparr>)))"

section \<open>Domains\<close>

definition thirty_days :: duration where
  "thirty_days = 30 * 24 * 60 * go_minute"

definition crawl_domain ::
    "lookup_result \<times> lookup_error option \<Rightarrow> instant \<Rightarrow> monitoring \<Rightarrow> mon_status \<times> domain_payload \<times> bool" where
  "crawl_domain looked_up now m =
     (let (result, err) = looked_up
      in if err \<noteq> None then
           (if IsTemporary err
            then (StatusUnknown, \<lparr>dp_MonitoringID = [], dp_IdempotencyKey = [], dp_IsValid = False, dp_ExpiresAt = None,
                                  dp_Registrar = None, dp_CheckedAt = 0\<rparr>, False)
            else (StatusDown, \<lparr>dp_MonitoringID = m_ID m, dp_IdempotencyKey = [], dp_IsValid = False, dp_ExpiresAt = None,
                               dp_Registrar = None, dp_CheckedAt = now\<rparr>, True))
         else
           let checkedAt = (if time_is_zero (lr_CheckedAt result) then now else lr_CheckedAt result);
               isValid = (lr_Registered result \<and>
                 (case lr_ExpiresAt result of None \<Rightarrow> False | Some t \<Rightarrow> time_after t (time_add checkedAt thirty_days)))
           in (if isValid then StatusUp else StatusDown,
               \<lparr>dp_MonitoringID = m_ID m, dp_IdempotencyKey = [], dp_IsValid = isValid, dp_ExpiresAt = lr_ExpiresAt result,
                dp_Registrar = lr_Registrar result, dp_CheckedAt = checkedAt\<rparr>, True))"

section \<open>The service\<close>

text \<open>The service with everything outside it, as it is while one monitoring is checked.\<close>

record check_world =
  cw_allowPrivate :: bool
  cw_start :: instant
  cw_elapsed :: duration
  cw_now :: instant
  cw_parse :: url_parser
  cw_lookup :: resolver
  cw_http :: "http_target_lib \<times> format_lib \<times> http_net"
  cw_ping :: ping_runner
  cw_connects :: "dial \<Rightarrow> bool"
  cw_resolve :: "string \<Rightarrow> string \<Rightarrow> duration \<Rightarrow> dns_error + string list"
  cw_handshake :: "dial \<Rightarrow> string \<Rightarrow> certificate list option"
  cw_domain :: "lookup_lib \<times> (string \<Rightarrow> candidate_net)"

definition http_of :: "check_world \<Rightarrow> monitoring \<Rightarrow> int \<times> string \<times> http_error option" where
  "http_of w m =
     (case cw_http w of (tlib, lib, net) \<Rightarrow>
        httpCheck (snd (performHTTPRequest lib (tlib\<lparr>ht_allowPrivate := cw_allowPrivate w\<rparr>) net m)))"

definition executeHTTPCheck :: "check_world \<Rightarrow> monitoring \<Rightarrow> execution" where
  "executeHTTPCheck w m =
     (case observeHTTPMonitoring (cw_start w) (cw_elapsed w) (http_of w m) m of
        (status, responseTime, httpStatusCode, observation) \<Rightarrow>
          responseExecutionWithObservation (m_ID m) status responseTime httpStatusCode (Some observation))"

definition executeKeywordCheck :: "check_world \<Rightarrow> monitoring \<Rightarrow> execution" where
  "executeKeywordCheck w m =
     (case observeKeywordMonitoring (cw_start w) (cw_elapsed w) (http_of w m) m of
        (status, responseTime, httpStatusCode, observation) \<Rightarrow>
          responseExecutionWithObservation (m_ID m) status responseTime httpStatusCode (Some observation))"

definition executePingCheck :: "check_world \<Rightarrow> monitoring \<Rightarrow> execution" where
  "executePingCheck w m =
     (case observePingMonitoring (cw_parse w) (cw_lookup w) (cw_allowPrivate w) (cw_ping w) (cw_start w) (cw_elapsed w) m of
        (commands, status, responseTime, observation) \<Rightarrow>
          responseExecutionWithObservation (m_ID m) status responseTime None (Some observation))"

definition executePortCheck :: "check_world \<Rightarrow> monitoring \<Rightarrow> execution" where
  "executePortCheck w m =
     (case observePortMonitoring (cw_parse w) (cw_lookup w) (cw_allowPrivate w) (cw_connects w) (cw_start w) (cw_elapsed w) m of
        (status, responseTime, observation) \<Rightarrow>
          responseExecutionWithObservation (m_ID m) status responseTime None (Some observation))"

definition executeDNSRecordCheck :: "check_world \<Rightarrow> monitoring \<Rightarrow> execution" where
  "executeDNSRecordCheck w m =
     (case Observe \<lparr>dn_start = cw_start w, dn_elapsed = cw_elapsed w, dn_resolve = cw_resolve w\<rparr> m of
        (status, responseTime, observation) \<Rightarrow>
          responseExecutionWithObservation (m_ID m) status responseTime None (Some observation))"

definition service_checks :: "(monitoring \<Rightarrow> check_world) \<Rightarrow> checks" where
  "service_checks world =
     \<lparr>executeHTTP = (\<lambda>m. executeHTTPCheck (world m) m), executePing = (\<lambda>m. executePingCheck (world m) m),
      executeKeyword = (\<lambda>m. executeKeywordCheck (world m) m), executePort = (\<lambda>m. executePortCheck (world m) m),
      executeDNSRecord = (\<lambda>m. executeDNSRecordCheck (world m) m),
      crawlMonitoringSSL = (\<lambda>m. let w = world m
        in crawl_certificate (cw_parse w) (cw_lookup w) (cw_allowPrivate w) (cw_handshake w) (cw_now w) m),
      crawlDomainExpiration = (\<lambda>m. let w = world m
        in crawl_domain (Lookup (fst (cw_domain w)) (snd (cw_domain w)) (cw_start w) (m_Target m)) (cw_now w) m)\<rparr>"

section \<open>Published responses\<close>

lemma parsePingLatency_nonneg: "parsePingLatency output = Some t \<Longrightarrow> 0 \<le> t"
proof -
  have "0 \<le> decimal_value whole fraction" for whole fraction by (simp add: decimal_value_def split: option.split)
  then show "parsePingLatency output = Some t \<Longrightarrow> 0 \<le> t"
    unfolding parsePingLatency_def Let_def
    by (auto split: option.splits prod.splits if_splits
        intro!: to_float_nonneg divide_nonneg_nonneg math_round_nonneg mult_nonneg_nonneg)
qed

text \<open>What every response check yields: a verdict, a time with every up, and evidence that agrees.\<close>

definition response_ok :: "monitoring \<Rightarrow> mon_status \<Rightarrow> rat option \<Rightarrow> raw_observation \<Rightarrow> bool" where
  "response_ok m status responseTime observation \<longleftrightarrow>
     (status = StatusUp \<or> status = StatusDown) \<and> o_Type observation = m_Type m \<and>
     (responseTime = None \<or> responseTime = o_ResponseTime observation) \<and>
     (\<forall>t. responseTime = Some t \<longrightarrow> 0 \<le> t) \<and>
     (status = StatusUp \<longrightarrow> responseTime \<noteq> None \<and> o_TransportError observation = None)"

lemma observeHTTP_ok:
  "0 \<le> elapsed \<Longrightarrow> observeHTTPMonitoring start elapsed checked m = (status, t, code, obs) \<Longrightarrow> response_ok m status t obs"
  by (auto simp: observeHTTPMonitoring_def response_ok_def Let_def empty_observation_def roundMilliseconds_nonneg mon_status_defs
      split: prod.splits if_splits)

lemma observeKeyword_ok:
  "0 \<le> elapsed \<Longrightarrow> observeKeywordMonitoring start elapsed checked m = (status, t, code, obs) \<Longrightarrow> response_ok m status t obs"
  by (auto simp: observeKeywordMonitoring_def response_ok_def Let_def empty_observation_def roundMilliseconds_nonneg mon_status_defs
      split: prod.splits if_splits)

lemma observePort_ok:
  "0 \<le> elapsed \<Longrightarrow> observePortMonitoring parse lookup ap connects start elapsed m = (status, t, obs) \<Longrightarrow> response_ok m status t obs"
  by (auto simp: observePortMonitoring_def response_ok_def Let_def empty_observation_def roundMilliseconds_nonneg mon_status_defs
      split: sum.splits if_splits)

lemma observePing_ok:
  "0 \<le> elapsed \<Longrightarrow> observePingMonitoring parse lookup ap run start elapsed m = (cmds, status, t, obs) \<Longrightarrow> response_ok m status t obs"
  by (auto simp: observePingMonitoring_def response_ok_def Let_def empty_observation_def roundMilliseconds_nonneg mon_status_defs
      parsePingLatency_nonneg dest: sym [of "Some _"] split: sum.splits if_splits option.splits prod.splits)

lemma observeDNS_ok: "0 \<le> dn_elapsed ev \<Longrightarrow> Observe ev m = (status, t, obs) \<Longrightarrow> response_ok m status t obs"
  by (auto simp: Observe_def response_ok_def Let_def empty_observation_def roundMilliseconds_nonneg mon_status_defs
      split: sum.splits if_splits option.splits)

definition well_formed_result :: "monitoring \<Rightarrow> execution \<Rightarrow> bool" where
  "well_formed_result m e \<longleftrightarrow>
     (\<exists>status t code obs. e = responseExecutionWithObservation (m_ID m) status t code (Some obs) \<and> response_ok m status t obs)"

lemma well_formed_resultI:
  "response_ok m status t obs \<Longrightarrow> well_formed_result m (responseExecutionWithObservation (m_ID m) status t code (Some obs))"
  unfolding well_formed_result_def by blast

lemma executed_well_formed:
  assumes el: "0 \<le> cw_elapsed w"
  shows "well_formed_result m (executeHTTPCheck w m)" "well_formed_result m (executeKeywordCheck w m)"
    "well_formed_result m (executePingCheck w m)" "well_formed_result m (executePortCheck w m)"
    "well_formed_result m (executeDNSRecordCheck w m)"
proof -
  show "well_formed_result m (executeHTTPCheck w m)"
    unfolding executeHTTPCheck_def by (auto split: prod.split intro!: well_formed_resultI observeHTTP_ok [OF el])
  show "well_formed_result m (executeKeywordCheck w m)"
    unfolding executeKeywordCheck_def by (auto split: prod.split intro!: well_formed_resultI observeKeyword_ok [OF el])
  show "well_formed_result m (executePingCheck w m)"
    unfolding executePingCheck_def by (auto split: prod.split intro!: well_formed_resultI observePing_ok [OF el])
  show "well_formed_result m (executePortCheck w m)"
    unfolding executePortCheck_def by (auto split: prod.split intro!: well_formed_resultI observePort_ok [OF el])
  show "well_formed_result m (executeDNSRecordCheck w m)"
    unfolding executeDNSRecordCheck_def
    by (auto split: prod.split intro!: well_formed_resultI observeDNS_ok [where ev = "\<lparr>dn_start = cw_start w, dn_elapsed = cw_elapsed w, dn_resolve = cw_resolve w\<rparr>"] simp: el)
qed

definition response_types :: "mon_type set" where
  "response_types = {TypeHTTP, TypePing, TypeKeyword, TypePort, TypeDNSRecord}"

text \<open>
  C17. Every response check is carried out and yields a response for its own monitoring with a
  verdict, up or down, and its evidence: up always comes with a response time, which is never
  negative, and without a transport error; a published response time is the one in the evidence.
  It never yields an SSL or domain result.
\<close>

lemma response_checks_well_formed:
  assumes "m_Type m \<in> response_types" "\<forall>m. 0 \<le> cw_elapsed (world m)"
  shows "\<exists>e r obs. Execute (newExecutorRegistry (service_checks world)) PhaseResponse m = (e, True) \<and>
    e_Response e = Some r \<and> e_SSL e = None \<and> e_Domain e = None \<and> rp_MonitoringID r = m_ID m \<and>
    rp_Observation r = Some obs \<and> response_ok m (rp_Status r) (rp_ResponseTime r) obs"
proof -
  let ?m = "m\<lparr>m_Timeout := boundedMonitoringTimeout (m_Timeout m)\<rparr>"
  let ?w = "world ?m"
  have el: "0 \<le> cw_elapsed ?w" using assms(2) by blast
  obtain x where x: "find_executor (newExecutorRegistry (service_checks world)) PhaseResponse (m_Type m) = Some x"
    and "well_formed_result ?m (x_execute x ?m)"
    using assms(1) executed_well_formed [OF el, of ?m]
    by (auto simp: response_types_def newExecutorRegistry_def supports_type_def service_checks_def mon_type_defs phase_defs)
  then obtain status t code obs where e: "x_execute x ?m = responseExecutionWithObservation (m_ID m) status t code (Some obs)"
    and ok: "response_ok ?m status t obs" by (auto simp: well_formed_result_def)
  have "response_ok m status t obs" using ok by (simp add: response_ok_def)
  then show ?thesis using x e
    by (auto simp: Execute_def Let_def responseExecutionWithObservation_def)
qed

section \<open>Ping\<close>

text \<open>
  C33. A ping check runs at most one command: one echo request to the host of the target, which
  has passed the egress policy, with a timeout in seconds; the command gets the host by name, not
  by one of the vetted addresses. The check is up exactly when the command was run and succeeded.
\<close>

lemma ping_runs_vetted_host:
  "case observePingMonitoring parse lookup allowPrivate run start elapsed m of
     (commands, status, t, obs) \<Rightarrow>
       (case (case Host parse (m_Target m) of Inl err \<Rightarrow> None
              | Inr host \<Rightarrow> if ValidateHost lookup allowPrivate host = None then Some host else None) of
          None \<Rightarrow> commands = [] \<and> status = StatusDown
        | Some host \<Rightarrow>
            (\<exists>family \<in> {[], [''-4''], [''-6'']}.
               (let args = [''-c'', ''1'', ''-W'', int_dec (if m_Timeout m > 0 then m_Timeout m else 5)] @ family @ [host]
                in commands = [(''ping'', args)] \<and> (status = StatusUp \<longleftrightarrow> \<not> snd (run ''ping'' args)) \<and>
                   (family = [] \<longleftrightarrow> ParseIP host = None))))"
proof (cases "Host parse (m_Target m)")
  case (Inl err)
  then show ?thesis by (simp add: observePingMonitoring_def Let_def)
next
  case (Inr host)
  show ?thesis
  proof (cases "ValidateHost lookup allowPrivate host")
    case None
    let ?family = "case ParseIP host of None \<Rightarrow> [] | Some ip \<Rightarrow> if To4 ip = None then [''-6''] else [''-4'']"
    let ?args = "[''-c'', ''1'', ''-W'', int_dec (if m_Timeout m > 0 then m_Timeout m else 5)] @ ?family @ [host]"
    have b: "buildPingCommand host (if m_Timeout m > 0 then m_Timeout m else fixedPingTimeoutSeconds) = (''ping'', ?args)"
      by (simp add: buildPingCommand_def fixedPingTimeoutSeconds_def Let_def)
    have f: "?family \<in> {[], [''-4''], [''-6'']}" "?family = [] \<longleftrightarrow> ParseIP host = None" by (auto split: option.split)
    obtain out failed where r: "run ''ping'' ?args = (out, failed)" by force
    have "case observePingMonitoring parse lookup allowPrivate run start elapsed m of (commands, status, t, obs) \<Rightarrow>
        commands = [(''ping'', ?args)] \<and> (status = StatusUp \<longleftrightarrow> \<not> failed)"
      unfolding observePingMonitoring_def Inr None sum.case option.case Let_def b prod.case r
      by (simp add: mon_status_defs)
    with f r show ?thesis unfolding Inr sum.case Let_def None if_True refl option.case
      by (auto split: prod.splits)
  next
    case (Some err)
    with Inr show ?thesis by (simp add: observePingMonitoring_def Let_def)
  qed
qed

text \<open>A world in which the example target of the HTTP checks answers and nothing else does.\<close>

definition example_world :: check_world where
  "example_world =
     \<lparr>cw_allowPrivate = True, cw_start = 5, cw_elapsed = 1000000, cw_now = 7, cw_parse = (\<lambda>_. None), cw_lookup = (\<lambda>_. None),
      cw_http = (example_target, example_format, example_net), cw_ping = (\<lambda>_ _. ([], True)), cw_connects = (\<lambda>_. False),
      cw_resolve = (\<lambda>_ _ _. Inl NoConfiguration), cw_handshake = (\<lambda>_ _. None),
      cw_domain = (\<lparr>lk_decode = (\<lambda>_. None), lk_zone = (\<lambda>_ _. None)\<rparr>, \<lambda>_. \<lparr>cn_rdap = (\<lambda>_. Some (404, Complete [])), cn_whois = (\<lambda>_ _. None)\<rparr>)\<rparr>"

lemma response_checks_well_formed_witness:
  "\<exists>e r obs. Execute (newExecutorRegistry (service_checks (\<lambda>_. example_world))) PhaseResponse example_monitoring = (e, True) \<and>
     e_Response e = Some r \<and> rp_Observation r = Some obs \<and> o_Type obs = ''http''"
proof -
  have t: "m_Type example_monitoring \<in> response_types" by (simp add: example_defs response_types_def)
  have el: "\<forall>m. 0 \<le> cw_elapsed ((\<lambda>_ :: monitoring. example_world) m)" by (simp add: example_world_def)
  from response_checks_well_formed [OF t el] obtain e r obs where
    "Execute (newExecutorRegistry (service_checks (\<lambda>_. example_world))) PhaseResponse example_monitoring = (e, True)"
    "e_Response e = Some r" "rp_Observation r = Some obs" "response_ok example_monitoring (rp_Status r) (rp_ResponseTime r) obs"
    by blast
  then show ?thesis by (auto simp: response_ok_def example_defs mon_type_defs)
qed

section \<open>Certificates\<close>

text \<open>
  When a certificate is accepted: the target gives an address and a server name, the egress policy
  lets the dialer connect, the handshake for that name presents the certificate first, the clock is
  within its validity and it covers the name.
\<close>

definition accepted_certificate ::
    "url_parser \<Rightarrow> resolver \<Rightarrow> bool \<Rightarrow> (dial \<Rightarrow> string \<Rightarrow> certificate list option) \<Rightarrow> instant \<Rightarrow> monitoring \<Rightarrow> dial
     \<Rightarrow> certificate \<Rightarrow> bool" where
  "accepted_certificate parse lookup allowPrivate handshake now m d c \<longleftrightarrow>
     (\<exists>address serverName chain. SSLAddressAndServerName parse (m_Target m) = Inr (address, serverName) \<and>
        SafeDialContext lookup allowPrivate address = Inr d \<and> handshake d serverName = Some (c # chain) \<and>
        ct_NotBefore c \<le> now \<and> now \<le> ct_NotAfter c \<and> ct_VerifyHostname c serverName)"

lemma dialed_is_safe: "SafeDialContext lookup False address = Inr d \<Longrightarrow> \<exists>addr port. d = DialAddr addr port \<and> \<not> isUnsafeAddress addr"
proof -
  assume "SafeDialContext lookup False address = Inr d"
  then obtain host port ips where "resolveHostIPs lookup False host = Inr ips" "d = DialAddr (hd ips) port"
    by (auto simp: SafeDialContext_def split: option.splits prod.splits sum.splits)
  with resolved_safe [OF this(1)] show ?thesis by auto
qed

lemma accepted_payload:
  "accepted_certificate parse lookup allowPrivate handshake now m d c \<Longrightarrow>
   crawl_certificate parse lookup allowPrivate handshake now m =
     \<lparr>sp_MonitoringID = m_ID m, sp_IdempotencyKey = [], sp_IsValid = True, sp_ExpiresAt = Some (ct_NotAfter c),
      sp_Issuer = (if ct_CommonName c \<noteq> [] then Some (ct_CommonName c)
                   else if ct_IssuerString c \<noteq> [] then Some (ct_IssuerString c) else None),
      sp_IssuedAt = Some (ct_NotBefore c)\<rparr>"
  by (auto simp: accepted_certificate_def crawl_certificate_def Let_def go_defs)

lemma rejected_payload:
  "\<nexists>d c. accepted_certificate parse lookup allowPrivate handshake now m d c \<Longrightarrow>
   crawl_certificate parse lookup allowPrivate handshake now m =
     \<lparr>sp_MonitoringID = m_ID m, sp_IdempotencyKey = [], sp_IsValid = False, sp_ExpiresAt = None, sp_Issuer = None, sp_IssuedAt = None\<rparr>"
  by (auto simp: accepted_certificate_def crawl_certificate_def Let_def go_defs split: sum.splits prod.splits option.splits list.splits)

text \<open>
  C18. A certificate check reports a valid certificate exactly when one is accepted, and then
  reports the dates and the issuer of that certificate: its common name, without one the text of
  the whole issuer, nothing if both are empty. When none is accepted the result is for the
  same monitoring, invalid, and without dates or issuer. Under the default policy the connection
  an accepted certificate was presented on is to an address that is not blocked.
\<close>

lemma ssl_valid_exactly:
  "let p = crawl_certificate parse lookup allowPrivate handshake now m;
       accepted = accepted_certificate parse lookup allowPrivate handshake now m
   in (sp_IsValid p \<longleftrightarrow> (\<exists>d c. accepted d c)) \<and> sp_MonitoringID p = m_ID m \<and>
      (\<forall>d c. accepted d c \<longrightarrow>
         sp_ExpiresAt p = Some (ct_NotAfter c) \<and> sp_IssuedAt p = Some (ct_NotBefore c) \<and>
         sp_Issuer p = (if ct_CommonName c \<noteq> [] then Some (ct_CommonName c)
                        else if ct_IssuerString c \<noteq> [] then Some (ct_IssuerString c) else None) \<and>
         (allowPrivate \<or> (\<exists>addr port. d = DialAddr addr port \<and> \<not> isUnsafeAddress addr))) \<and>
      ((\<nexists>d c. accepted d c) \<longrightarrow> sp_ExpiresAt p = None \<and> sp_IssuedAt p = None \<and> sp_Issuer p = None)"
proof (cases "\<exists>d c. accepted_certificate parse lookup allowPrivate handshake now m d c")
  case True
  let ?p = "crawl_certificate parse lookup allowPrivate handshake now m"
  let ?issuer = "\<lambda>c. if ct_CommonName c \<noteq> [] then Some (ct_CommonName c)
    else if ct_IssuerString c \<noteq> [] then Some (ct_IssuerString c) else None"
  have p: "sp_IsValid ?p \<and> sp_MonitoringID ?p = m_ID m \<and> sp_ExpiresAt ?p = Some (ct_NotAfter c) \<and>
      sp_IssuedAt ?p = Some (ct_NotBefore c) \<and> sp_Issuer ?p = ?issuer c \<and>
      (allowPrivate \<or> (\<exists>addr port. d = DialAddr addr port \<and> \<not> isUnsafeAddress addr))"
    if acc: "accepted_certificate parse lookup allowPrivate handshake now m d c" for d c
  proof -
    have "allowPrivate \<or> (\<exists>addr port. d = DialAddr addr port \<and> \<not> isUnsafeAddress addr)"
      using acc dialed_is_safe unfolding accepted_certificate_def by (cases allowPrivate) auto
    then show ?thesis unfolding accepted_payload [OF acc] by simp
  qed
  have valid: "sp_IsValid ?p" "sp_MonitoringID ?p = m_ID m" using True p by blast+
  show ?thesis unfolding Let_def
  proof (intro conjI allI impI)
    show "sp_IsValid ?p = (\<exists>d c. accepted_certificate parse lookup allowPrivate handshake now m d c)"
      using True valid by blast
  qed (use p True valid in blast)+
next
  case False
  with rejected_payload [OF False] show ?thesis by (simp add: Let_def)
qed

text \<open>A certificate whose issuer has no common name, in its last instant and after it.\<close>

definition sample_certificate :: certificate where
  "sample_certificate = \<lparr>ct_NotBefore = 5, ct_NotAfter = 9, ct_CommonName = [], ct_IssuerString = ''O=x'',
     ct_VerifyHostname = (\<lambda>h. h = ''a.b'')\<rparr>"

lemma ssl_valid_exactly_witness:
  "let check = \<lambda>now. crawl_certificate (\<lambda>_. None) (\<lambda>_. Some [V4 0x08080808]) False (\<lambda>d name. Some [sample_certificate]) now
         (zero_monitoring\<lparr>m_ID := ''m'', m_Target := ''a.b''\<rparr>)
   in sp_IsValid (check 9) \<and> sp_ExpiresAt (check 9) = Some 9 \<and> sp_Issuer (check 9) = Some ''O=x'' \<and>
      \<not> sp_IsValid (check 10) \<and> sp_Issuer (check 10) = None"
proof -
  let ?m = "zero_monitoring\<lparr>m_ID := ''m'', m_Target := ''a.b''\<rparr>" and ?lookup = "\<lambda>_. Some [V4 0x08080808]"
  let ?shake = "\<lambda>d name. Some [sample_certificate]" and ?d = "DialAddr (V4 0x08080808) ''443''"
  let ?accepted = "accepted_certificate (\<lambda>_. None) ?lookup False ?shake"
  have t: "SSLAddressAndServerName (\<lambda>_. None) ''a.b'' = Inr (''a.b:443'', ''a.b'')" by code_simp
  have "SplitHostPort ''a.b:443'' = Some (''a.b'', ''443'')" "ParseAddr ''a.b'' = None" "\<not> isUnsafeAddress (V4 0x08080808)"
    by code_simp+
  then have d: "SafeDialContext ?lookup False ''a.b:443'' = Inr ?d" by (simp add: SafeDialContext_def resolveHostIPs_def)
  have "?accepted 9 ?m ?d sample_certificate" "\<nexists>d c. ?accepted 10 ?m d c"
    using t d by (auto simp: accepted_certificate_def sample_certificate_def)
  with ssl_valid_exactly [of "\<lambda>_. None" ?lookup False ?shake 9 ?m] ssl_valid_exactly [of "\<lambda>_. None" ?lookup False ?shake 10 ?m]
  show ?thesis unfolding Let_def by (auto simp: sample_certificate_def)
qed

section \<open>Domains\<close>

text \<open>
  C19. What a domain check reports follows from the lookup: a temporary failure is the status
  unknown without a domain result, so that a registry that cannot be reached never expires a
  domain; otherwise there is a result for the monitoring, and it is valid, and the status up,
  exactly when the domain is registered and expires more than thirty days after the check.
\<close>

lemma domain_verdict:
  "let looked_up = Lookup lib net start (m_Target m); (status, payload, published) = crawl_domain looked_up now m;
       r = fst looked_up; checkedAt = (if lr_CheckedAt r = 0 then now else lr_CheckedAt r)
   in (published \<longleftrightarrow> snd looked_up = None) \<and> (\<not> published \<longleftrightarrow> status = StatusUnknown) \<and>
      (if published then dp_MonitoringID payload = m_ID m \<and> dp_IsValid payload = (status = StatusUp) \<and>
         dp_CheckedAt payload = checkedAt \<and> dp_ExpiresAt payload = lr_ExpiresAt r else \<not> dp_IsValid payload) \<and>
      (status = StatusUp \<longleftrightarrow> snd looked_up = None \<and> lr_Registered r \<and>
         (\<exists>t. lr_ExpiresAt r = Some t \<and> checkedAt + 2592000 * 1000000000 < t))"
proof -
  obtain r e where l: "Lookup lib net start (m_Target m) = (r, e)" by force
  have t: "IsTemporary e" if "e \<noteq> None"
    using l that by (auto simp: Lookup_def Let_def IsTemporary_def split: if_splits sum.splits option.splits)
  have d: "thirty_days = 2592000 * 1000000000" by (simp add: thirty_days_def go_defs)
  show ?thesis
  proof (cases e)
    case None
    then show ?thesis
      by (auto simp: l crawl_domain_def Let_def d mon_status_defs go_defs split: option.splits)
  next
    case (Some err)
    with t show ?thesis by (simp add: l crawl_domain_def Let_def mon_status_defs)
  qed
qed

section \<open>IPv6 literals\<close>

lemma bracketed_twice:
  assumes "CHR '':'' \<in> set h" "CHR '']'' \<notin> set h" "CHR '':'' \<notin> set port"
  shows "SplitHostPort (JoinHostPort (''['' @ h @ '']'') port) = None"
proof -
  have j: "JoinHostPort (''['' @ h @ '']'') port = (''[['' @ h @ '']]'') @ CHR '':'' # port"
    using assms(1) by (simp add: JoinHostPort_def)
  have "takeWhile (\<lambda>c. c \<noteq> CHR '']'') (''[['' @ h @ '']]:'' @ port) = ''[['' @ h"
    using assms(2) by (simp add: takeWhile_append)
  then show ?thesis
    unfolding j SplitHostPort_def split_last_colon_append [OF assms(3)] by (simp add: Let_def)
qed

text \<open>
  C39. A URL whose host is an IPv6 literal without a port can never be checked: the host keeps
  its brackets, gets a second pair with the port, and the dialer rejects the result. Its
  certificate is reported as invalid and a port as closed, whatever the network would answer.
\<close>

lemma ipv6_url_never_dialed:
  assumes "parse (trim_space (m_Target m)) = Some u" "u_Host u = ''['' @ h @ '']''" "str_contains (trim_space (m_Target m)) ''://''"
    and "trim_space (u_Host u) = u_Host u" "CHR '':'' \<in> set h" "CHR '']'' \<notin> set h" "CHR ''['' \<notin> set h"
  shows "\<not> sp_IsValid (crawl_certificate parse lookup allowPrivate handshake now m) \<and>
    fst (observePortMonitoring parse lookup allowPrivate connects start elapsed m) = StatusDown"
proof -
  obtain a b where ab: "h = a @ CHR '':'' # b" "CHR '':'' \<notin> set b"
    using assms(5) split_list_last by metis
  have "split_last_colon (''['' @ h @ '']'') = Some (CHR ''['' # a, b @ '']'')"
    using split_last_colon_append [of "b @ '']''" "CHR ''['' # a"] ab by simp
  moreover have "takeWhile (\<lambda>c. c \<noteq> CHR '']'') (''['' @ h @ '']'') = CHR ''['' # h"
    using assms(6) by (simp add: takeWhile_append)
  ultimately have "SplitHostPort (''['' @ h @ '']'') = None"
    unfolding SplitHostPort_def by (simp add: Let_def ab)
  then have e: "extractHostPort parse (m_Target m) \<in> {Inl TargetEmpty, Inl TargetTooLong, Inr (''['' @ h @ '']'', [])}"
    using assms(1-4) by (simp add: extractHostPort_def Let_def)
  have ports: "SafeDialContext lookup allowPrivate (JoinHostPort (''['' @ h @ '']'') port) = Inl BadAddress"
    if "CHR '':'' \<notin> set port" for port
    using bracketed_twice [OF assms(5,6) that] by (simp add: SafeDialContext_def)
  have "CHR '':'' \<notin> set (int_dec (m_Port m))" if "m_Port m > 0"
    using that nat_dec_digits [of "CHR '':''"] by (auto simp: int_dec_def)
  then have "fst (observePortMonitoring parse lookup allowPrivate connects start elapsed m) = StatusDown"
    using e ports by (auto simp: observePortMonitoring_def TCPAddress_def Let_def)
  moreover have "\<not> sp_IsValid (crawl_certificate parse lookup allowPrivate handshake now m)"
    using e ports [of "''443''"] by (auto simp: crawl_certificate_def SSLAddressAndServerName_def Let_def)
  ultimately show ?thesis by blast
qed

lemma ipv6_url_never_dialed_witness:
  "let parse = \<lambda>_. Some \<lparr>u_Scheme = ''https'', u_Host = ''[2001:db8::1]'', u_Hostname = ''2001:db8::1'', u_HasUser = False\<rparr>;
       m = zero_monitoring\<lparr>m_Target := ''https://[2001:db8::1]/'', m_Port := 443\<rparr>
   in \<not> sp_IsValid (crawl_certificate parse (\<lambda>_. None) True (\<lambda>_ _. Some
          [\<lparr>ct_NotBefore = 0, ct_NotAfter = 9, ct_CommonName = [], ct_IssuerString = [], ct_VerifyHostname = (\<lambda>_. True)\<rparr>]) 5 m) \<and>
      fst (observePortMonitoring parse (\<lambda>_. None) True (\<lambda>_. True) 5 1 m) = ''down''"
proof -
  let ?u = "\<lparr>u_Scheme = ''https'', u_Host = ''[2001:db8::1]'', u_Hostname = ''2001:db8::1'', u_HasUser = False\<rparr>"
  let ?m = "zero_monitoring\<lparr>m_Target := ''https://[2001:db8::1]/'', m_Port := 443\<rparr>"
  have t: "trim_space ''https://[2001:db8::1]/'' = ''https://[2001:db8::1]/''" "trim_space ''[2001:db8::1]'' = ''[2001:db8::1]''"
    by code_simp+
  have c: "str_contains ''https://[2001:db8::1]/'' ''://''" by code_simp
  show ?thesis
    using ipv6_url_never_dialed [of "\<lambda>_. Some ?u" ?m ?u "''2001:db8::1''"] t c by (simp add: mon_status_defs Let_def)
qed

end
