(* ===== verification/Health_Metrics.thy ===== *)
theory Health_Metrics
  imports Telemetry Go_Text Go_Float "HOL-Library.List_Lexorder" "HOL-Library.Char_ord"
begin

text \<open>
  \<open>internal/adapters/health/operations.go\<close>: the handlers of the health server and the text of
  the metrics.

  The request multiplexer gets a path that is in clean form already (it redirects any other to
  its clean form): it picks the handler registered for the path, or the one for \<open>/\<close>. Label
  texts outside ASCII are taken to be printable.
\<close>

section \<open>Formatting\<close>

definition newline :: string where "newline = [CHR 0x0A]"

text \<open>\<open>strconv.Quote\<close>, the verb \<open>%q\<close>.\<close>

definition quote_byte :: "char \<Rightarrow> string" where
  "quote_byte c =
     (let n = (of_char c :: nat)
      in if c = CHR 0x22 \<or> c = CHR 0x5C then [CHR 0x5C, c]
         else if 32 \<le> n \<and> n \<noteq> 127 then [c]
         else if n = 7 then [CHR 0x5C, CHR ''a''] else if n = 8 then [CHR 0x5C, CHR ''b'']
         else if n = 12 then [CHR 0x5C, CHR ''f''] else if n = 10 then [CHR 0x5C, CHR ''n'']
         else if n = 13 then [CHR 0x5C, CHR ''r''] else if n = 9 then [CHR 0x5C, CHR ''t'']
         else if n = 11 then [CHR 0x5C, CHR ''v'']
         else [CHR 0x5C, CHR ''x'', hex_digit (n div 16), hex_digit (n mod 16)])"

definition quote :: "string \<Rightarrow> string" where
  "quote s = CHR 0x22 # concat (map quote_byte s) @ [CHR 0x22]"

text \<open>\<open>Duration.Seconds\<close> and the verb \<open>%.6f\<close>, which rounds the exact value, ties to even.\<close>

definition Seconds :: "duration \<Rightarrow> rat" where
  "Seconds d =
     (let sec = quot_towards_zero d go_second; nsec = d - sec * go_second
      in to_float (to_float (of_int sec) + to_float (of_int nsec / 1000000000)))"

definition fixed6 :: "rat \<Rightarrow> string" where
  "fixed6 q =
     (let n = nat (round_half_even (\<bar>q\<bar> * 1000000)); frac = nat_dec (n mod 1000000)
      in (if q < 0 then ''-'' else []) @ nat_dec (n div 1000000) @ ''.'' @ replicate (6 - length frac) CHR ''0'' @ frac)"

definition uint_text :: "64 word \<Rightarrow> string" where
  "uint_text w = nat_dec (unat w)"

section \<open>The parts of the text\<close>

text \<open>A label: \<open>{name="value"}\<close>, with one or two names.\<close>

definition label_text :: "(string \<times> string) list \<Rightarrow> string" where
  "label_text labels = ''{'' @ join_byte CHR '','' (map (\<lambda>(name, v). name @ ''='' @ quote v) labels) @ ''}''"

definition sample :: "string \<Rightarrow> (string \<times> string) list \<Rightarrow> string \<Rightarrow> string" where
  "sample name labels v = name @ (if labels = [] then [] else label_text labels) @ '' '' @ v @ newline"

definition help_text :: "string \<Rightarrow> string \<Rightarrow> string \<Rightarrow> string" where
  "help_text name help kind = ''# HELP '' @ name @ '' '' @ help @ newline @ ''# TYPE '' @ name @ '' '' @ kind @ newline"

definition sortedKeys :: "(string, 'v) gomap \<Rightarrow> string list" where
  "sortedKeys m = sort (map fst m)"

definition writeLabeledCounter :: "string \<Rightarrow> string \<Rightarrow> counters \<Rightarrow> string" where
  "writeLabeledCounter name label m =
     concat (map (\<lambda>key. sample name [(label, key)] (uint_text (map_read 0 m key))) (sortedKeys m))"

text \<open>\<open>strings.SplitN(key, sep, 2)\<close> when it has two parts: at the first separator.\<close>

fun split_first :: "string \<Rightarrow> string \<Rightarrow> (string \<times> string) option" where
  "split_first sep [] = None"
| "split_first sep (c # cs) =
     (if prefix sep (c # cs) then Some ([], drop (length sep) (c # cs))
      else map_option (\<lambda>(a, b). (c # a, b)) (split_first sep cs))"

definition writeSplitCounter :: "string \<Rightarrow> counters \<Rightarrow> string \<Rightarrow> string \<Rightarrow> string" where
  "writeSplitCounter name m first second =
     concat (map (\<lambda>key. case split_first ''/'' key of
         None \<Rightarrow> []
       | Some (a, b) \<Rightarrow> sample name [(first, a), (second, b)] (uint_text (map_read 0 m key))) (sortedKeys m))"

definition writeTransitionCounter :: "string \<Rightarrow> counters \<Rightarrow> string" where
  "writeTransitionCounter name m =
     concat (map (\<lambda>key. case split_first ''->'' key of
         None \<Rightarrow> []
       | Some (a, b) \<Rightarrow> sample name [(''from'', a), (''to'', b)] (uint_text (map_read 0 m key))) (sortedKeys m))"

definition writeDurationMetrics :: "string \<Rightarrow> (string, duration_metric) gomap \<Rightarrow> string \<Rightarrow> string" where
  "writeDurationMetrics name m label =
     concat (map (\<lambda>key. let metric = map_read zero_duration_metric m key
       in sample (name @ ''_count'') [(label, key)] (uint_text (d_Count metric)) @
          sample (name @ ''_sum'') [(label, key)] (fixed6 (Seconds (d_Sum metric)))) (sortedKeys m))"

definition writeRequestMetrics :: "(string, request_metric) gomap \<Rightarrow> string" where
  "writeRequestMetrics m =
     help_text ''webguard_instance_core_request_duration_seconds'' ''Time spent making Core API requests by bounded operation.'' ''summary'' @
     concat (map (\<lambda>key. let metric = map_read zero_request_metric m key
       in sample ''webguard_instance_core_requests_total'' [(''operation'', key)] (uint_text (q_Count metric)) @
          sample ''webguard_instance_core_request_errors_total'' [(''operation'', key)] (uint_text (q_Errors metric)) @
          sample ''webguard_instance_core_request_duration_seconds_count'' [(''operation'', key)] (uint_text (q_Count metric)) @
          sample ''webguard_instance_core_request_duration_seconds_sum'' [(''operation'', key)] (fixed6 (Seconds (q_Duration metric)))) (sortedKeys m))"

definition summary_text :: "string \<Rightarrow> duration_metric \<Rightarrow> string" where
  "summary_text name metric =
     sample (name @ ''_count'') [] (uint_text (d_Count metric)) @ sample (name @ ''_sum'') [] (fixed6 (Seconds (d_Sum metric)))"

definition RenderMetrics :: "telemetry_snapshot \<Rightarrow> string" where
  "RenderMetrics s =
     help_text ''webguard_instance_runs_total'' ''Monitoring runs by terminal outcome.'' ''counter'' @
     writeLabeledCounter ''webguard_instance_runs_total'' ''outcome'' (t_runs s) @
     help_text ''webguard_instance_run_duration_seconds'' ''Total duration of completed monitoring runs.'' ''summary'' @
     summary_text ''webguard_instance_run_duration_seconds'' (t_runDuration s) @
     sample ''webguard_instance_jobs_active'' [] (int_dec (t_jobsActive s)) @
     sample ''webguard_instance_jobs_queued'' [] (int_dec (t_jobsQueued s)) @
     help_text ''webguard_instance_executor_outcomes_total'' ''Executor outcomes by bounded phase and outcome.'' ''counter'' @
     writeSplitCounter ''webguard_instance_executor_outcomes_total'' (t_executors s) ''phase'' ''outcome'' @
     help_text ''webguard_instance_job_duration_seconds'' ''Duration of individual monitoring checks by phase.'' ''summary'' @
     writeDurationMetrics ''webguard_instance_job_duration_seconds'' (t_jobDuration s) ''phase'' @
     help_text ''webguard_instance_job_transitions_total'' ''Monitoring job state transitions.'' ''counter'' @
     writeTransitionCounter ''webguard_instance_job_transitions_total'' (t_transitions s) @
     help_text ''webguard_instance_scheduler_runs_total'' ''Scheduled run outcomes.'' ''counter'' @
     writeLabeledCounter ''webguard_instance_scheduler_runs_total'' ''outcome'' (t_schedulerRuns s) @
     help_text ''webguard_instance_scheduler_delay_seconds'' ''Delay between the scheduled boundary and run start.'' ''summary'' @
     summary_text ''webguard_instance_scheduler_delay_seconds'' (t_schedulerDelay s) @
     help_text ''webguard_instance_scheduler_run_duration_seconds'' ''Duration of scheduled work.'' ''summary'' @
     summary_text ''webguard_instance_scheduler_run_duration_seconds'' (t_schedulerDuration s) @
     help_text ''webguard_instance_core_requests_total'' ''Core API requests by bounded operation.'' ''counter'' @
     writeRequestMetrics (t_core s) @
     help_text ''webguard_instance_lease_events_total'' ''Lease lifecycle events.'' ''counter'' @
     writeLabeledCounter ''webguard_instance_lease_events_total'' ''event'' (t_leases s) @
     help_text ''webguard_instance_lease_wait_seconds'' ''Time from job claim to worker start.'' ''summary'' @
     summary_text ''webguard_instance_lease_wait_seconds'' (t_leaseWait s) @
     help_text ''webguard_instance_process_goroutines'' ''Current number of process goroutines.'' ''gauge'' @
     sample ''webguard_instance_process_goroutines'' [] (int_dec (s_Goroutines s)) @
     help_text ''webguard_instance_process_heap_alloc_bytes'' ''Current allocated heap bytes.'' ''gauge'' @
     sample ''webguard_instance_process_heap_alloc_bytes'' [] (uint_text (s_HeapAllocBytes s)) @
     help_text ''webguard_instance_process_heap_inuse_bytes'' ''Current in-use heap bytes.'' ''gauge'' @
     sample ''webguard_instance_process_heap_inuse_bytes'' [] (uint_text (s_HeapInUseBytes s)) @
     help_text ''webguard_instance_process_sys_bytes'' ''Current Go runtime memory obtained from the operating system.'' ''gauge'' @
     sample ''webguard_instance_process_sys_bytes'' [] (uint_text (s_SysBytes s))"

section \<open>Handlers\<close>

record http_response =
  rs_Status :: int
  rs_ContentType :: "string option"
  rs_Body :: string

definition live :: "string \<Rightarrow> http_response" where
  "live request_method =
     (if request_method \<noteq> ''GET'' then \<lparr>rs_Status = 405, rs_ContentType = None, rs_Body = []\<rparr>
      else \<lparr>rs_Status = 200, rs_ContentType = None, rs_Body = ''ok''\<rparr>)"

text \<open>Readiness is a function called when a request comes, or absent.\<close>

definition ready :: "bool option \<Rightarrow> string \<Rightarrow> http_response" where
  "ready readiness request_method =
     (if request_method \<noteq> ''GET'' then \<lparr>rs_Status = 405, rs_ContentType = None, rs_Body = []\<rparr>
      else if readiness = Some False then \<lparr>rs_Status = 503, rs_ContentType = None, rs_Body = ''not ready''\<rparr>
      else \<lparr>rs_Status = 200, rs_ContentType = None, rs_Body = ''ok''\<rparr>)"

definition MetricsHandler :: "telemetry_snapshot \<Rightarrow> string \<Rightarrow> http_response" where
  "MetricsHandler snapshot request_method =
     (if request_method \<noteq> ''GET'' then \<lparr>rs_Status = 405, rs_ContentType = None, rs_Body = []\<rparr>
      else \<lparr>rs_Status = 200, rs_ContentType = Some ''text/plain; version=0.0.4; charset=utf-8'', rs_Body = RenderMetrics snapshot\<rparr>)"

definition NewHandler :: "bool option \<Rightarrow> telemetry_snapshot \<Rightarrow> string \<Rightarrow> string \<Rightarrow> http_response" where
  "NewHandler readiness snapshot request_method path =
     (if path = ''/readyz'' then ready readiness request_method
      else if path = ''/metrics'' then MetricsHandler snapshot request_method
      else live request_method)"

section \<open>Labels are read back\<close>

lemma quote_control:
  "quote_byte CHR 7 = [CHR 0x5C, CHR ''a'']" "quote_byte CHR 8 = [CHR 0x5C, CHR ''b'']" "quote_byte CHR 9 = [CHR 0x5C, CHR ''t'']"
  "quote_byte CHR 0x0A = [CHR 0x5C, CHR ''n'']" "quote_byte CHR 0x0B = [CHR 0x5C, CHR ''v'']"
  "quote_byte CHR 0x0C = [CHR 0x5C, CHR ''f'']" "quote_byte CHR 0x0D = [CHR 0x5C, CHR ''r'']"
  by code_simp+

lemma quoted_char:
  assumes "(of_char c :: nat) < 128"
  shows "unquote_char CHR 0x22 (quote_byte c @ rst) = Some ([c], rst) \<and> hd (quote_byte c @ rst) \<noteq> CHR 0x22 \<and>
    hd (quote_byte c @ rst) \<noteq> CHR 0x0A \<and> CHR 0x0A \<notin> set (quote_byte c) \<and> quote_byte c \<noteq> []"
proof -
  let ?n = "of_char c :: nat"
  have c: "char_of ?n = c" by simp
  have nl: "(of_char CHR 0x0A :: nat) = 10" by simp
  consider "c = CHR 0x22 \<or> c = CHR 0x5C" | "c \<noteq> CHR 0x22" "c \<noteq> CHR 0x5C" "32 \<le> ?n \<and> ?n \<noteq> 127"
    | "c \<noteq> CHR 0x22" "c \<noteq> CHR 0x5C" "\<not> (32 \<le> ?n \<and> ?n \<noteq> 127)" by blast
  then show ?thesis
  proof cases
    case 1
    then show ?thesis
      by (auto simp: quote_byte_def unquote_char_def unquote_escape_def simple_escapes_def digit_val_def Let_def)
  next
    case 2
    then have q: "quote_byte c = [c]" by (simp add: quote_byte_def Let_def)
    have "c \<noteq> CHR 0x0A" using 2 nl by auto
    with 2 assms q show ?thesis
      by (simp add: unquote_char_def)
  next
    case 3
    have "?n \<in> {7, 8, 9, 10, 11, 12, 13} \<or> ?n \<notin> {7, 8, 9, 10, 11, 12, 13}" by blast
    then show ?thesis
    proof
      assume n: "?n \<in> {7, 8, 9, 10, 11, 12, 13}"
      then have "char_of ?n \<in> char_of ` {7 :: nat, 8, 9, 10, 11, 12, 13}" by (rule imageI)
      also have "char_of ` {7 :: nat, 8, 9, 10, 11, 12, 13} = {CHR 7, CHR 8, CHR 9, CHR 0x0A, CHR 0x0B, CHR 0x0C, CHR 0x0D}"
        by (simp add: char_of_def bit_Suc_0_iff)
      finally have "c \<in> {CHR 7, CHR 8, CHR 9, CHR 0x0A, CHR 0x0B, CHR 0x0C, CHR 0x0D}" by (simp only: c)
      then show ?thesis
        by (elim insertE emptyE) (simp_all add: quote_control unquote_char_def unquote_escape_def simple_escapes_def)
    next
      assume n: "?n \<notin> {7, 8, 9, 10, 11, 12, 13}"
      have d: "?n div 16 < 16" "?n mod 16 < 16" using assms by auto
      have q: "quote_byte c = [CHR 0x5C, CHR ''x'', hex_digit (?n div 16), hex_digit (?n mod 16)]"
        using 3 n by (auto simp: quote_byte_def Let_def)
      have newline_value: "hex_value CHR 0x0A = None" by code_simp
      have h: "CHR 0x0A \<noteq> hex_digit k" if "k < 16" for k using hex_value_digit [OF that] newline_value by (metis option.distinct(1))
      have "16 * (?n div 16) + ?n mod 16 = ?n" by simp
      then show ?thesis
        using d h c unfolding q
        by (simp add: unquote_char_def unquote_escape_def simple_escapes_def hex_escape_def hex_value_digit)
    qed
  qed
qed

lemma quote_no_newline: "\<forall>c \<in> set s. (of_char c :: nat) < 128 \<Longrightarrow> CHR 0x0A \<notin> set (quote s)"
  using quoted_char by (fastforce simp: quote_def)

lemma unquote_loop_quoted:
  "\<forall>c \<in> set s. (of_char c :: nat) < 128 \<Longrightarrow>
     unquote_loop CHR 0x22 (concat (map quote_byte s) @ [CHR 0x22]) = Some (s, [CHR 0x22])"
proof (induction s)
  case Nil
  show ?case by (simp add: unquote_loop.simps [of _ "[CHR 0x22]"])
next
  case (Cons c s)
  let ?rst = "concat (map quote_byte s) @ [CHR 0x22]"
  have c: "(of_char c :: nat) < 128" using Cons.prems by simp
  show ?case
    using Cons quoted_char [OF c, of ?rst] by (simp del: hd_append2 add: unquote_loop.simps [of _ "quote_byte c @ ?rst"])
qed

lemma unquote_quote: "\<forall>c \<in> set s. (of_char c :: nat) < 128 \<Longrightarrow> unquote (quote s) = Some s"
  using unquote_loop_quoted [of s] by (simp add: unquote_def quote_def Let_def)

text \<open>
  What the metrics page shows of a counter map is complete and unambiguous: one line for
  each key, in the order of the keys, whose label, read as a quoted text, is the key and whose
  number, read as an unsigned 64-bit number, is the counter. No key can break out of its line:
  a line has no line break but its last byte.
\<close>

lemma counter_lines_readable:
  assumes "map_ok m" "\<forall>k \<in> map_keys m. \<forall>c \<in> set k. (of_char c :: nat) < 128"
  shows "\<exists>lines. writeLabeledCounter name label m = concat lines \<and>
    list_all2 (\<lambda>key line. \<exists>q v. line = name @ ''{'' @ label @ ''='' @ q @ ''} '' @ v @ [CHR 0x0A] \<and>
        unquote q = Some key \<and> parse_uint 64 v = Some (unat (map_read 0 m key)) \<and> CHR 0x0A \<notin> set q \<union> set v)
      (sorted_list_of_set (map_keys m)) lines"
proof -
  let ?line = "\<lambda>key. sample name [(label, key)] (uint_text (map_read 0 m key))"
  have keys: "sortedKeys m = sorted_list_of_set (map_keys m)"
  proof -
    have "distinct (map fst m)" using assms(1) by (simp add: map_ok_def)
    then have "sort (map fst m) = sorted_list_of_set (set (map fst m))"
      by (metis distinct_sort finite_set set_sort sorted_sort sorted_list_of_set.idem_if_sorted_distinct)
    then show ?thesis by (simp add: sortedKeys_def map_keys_def)
  qed
  have good: "\<exists>q v. ?line key = name @ ''{'' @ label @ ''='' @ q @ ''} '' @ v @ [CHR 0x0A] \<and>
        unquote q = Some key \<and> parse_uint 64 v = Some (unat (map_read 0 m key)) \<and> CHR 0x0A \<notin> set q \<union> set v"
    if "key \<in> map_keys m" for key
  proof (intro exI conjI)
    have a: "\<forall>c \<in> set key. (of_char c :: nat) < 128" using assms(2) that by blast
    show "?line key = name @ ''{'' @ label @ ''='' @ quote key @ ''} '' @ uint_text (map_read 0 m key) @ [CHR 0x0A]"
      by (simp add: sample_def label_text_def newline_def)
    show "unquote (quote key) = Some key" using a by (rule unquote_quote)
    show "parse_uint 64 (uint_text (map_read 0 m key)) = Some (unat (map_read 0 m key))"
      unfolding uint_text_def using unsigned_less [of "map_read 0 m key"] by (intro parse_uint_nat_dec) simp
    show "CHR 0x0A \<notin> set (quote key) \<union> set (uint_text (map_read 0 m key))"
      using quote_no_newline [OF a] nat_dec_digits [of "CHR 0x0A"] by (auto simp: uint_text_def)
  qed
  have "finite (map_keys m)" by (simp add: map_keys_def)
  then have "set (sortedKeys m) = map_keys m" by (simp add: keys)
  then have "list_all2 (\<lambda>key line. \<exists>q v. line = name @ ''{'' @ label @ ''='' @ q @ ''} '' @ v @ [CHR 0x0A] \<and>
        unquote q = Some key \<and> parse_uint 64 v = Some (unat (map_read 0 m key)) \<and> CHR 0x0A \<notin> set q \<union> set v)
      (sortedKeys m) (map ?line (sortedKeys m))"
    using good unfolding list_all2_map2 by (intro list.rel_refl_strong) blast
  then show ?thesis
    by (intro exI [of _ "map ?line (sortedKeys m)"]) (simp only: writeLabeledCounter_def keys)
qed

lemma counter_lines_readable_witness:
  "\<exists>lines. writeLabeledCounter ''n'' ''l'' [(''b'', 3), ([CHR 0x22, CHR 0x0A], 5)] = concat lines \<and> length lines = 2"
proof -
  let ?m = "[(''b'', 3), ([CHR 0x22, CHR 0x0A], 5)] :: counters"
  have ok: "map_ok ?m" by (simp add: map_ok_def)
  have keys: "map_keys ?m = {''b'', [CHR 0x22, CHR 0x0A]}" by (simp add: map_keys_def)
  have ascii: "\<forall>k \<in> map_keys ?m. \<forall>c \<in> set k. (of_char c :: nat) < 128" by (simp add: keys)
  from counter_lines_readable [OF ok ascii, of "''n''" "''l''"] obtain lines where
    l: "writeLabeledCounter ''n'' ''l'' ?m = concat lines" "length (sorted_list_of_set (map_keys ?m)) = length lines"
    by (blast dest: list_all2_lengthD)
  have "length lines = 2" using l(2) by (simp add: keys)
  with l(1) show ?thesis by blast
qed

end
