(* ===== verification/Worker_Main.thy ===== *)
theory Worker_Main
  imports Execution_Controller Health_Metrics Runner_Config
begin

text \<open>
  \<open>cmd/webguard-instance/main.go\<close> and \<open>internal/adapters/health/health.go\<close>: the
  commands, and the serving process with its goroutines: the scheduler, the health server and the
  one that shuts the process down on a signal.

  Goroutine 0 of the execution controller is the scheduler, goroutine 1 the shutdown. A
  transition of the process is one statement of one of them; the controller's own transitions
  are those of \<open>Execution_Controller\<close>. That the health server fails, and when signals come,
  is up to the environment.
\<close>

section \<open>Commands\<close>

datatype command_call = CallServe | CallMonitoring | PrintUsage string

text \<open>What \<open>run\<close> calls and the exit code, given what the call returns.\<close>

definition run_command :: "string list \<Rightarrow> int \<Rightarrow> bool \<Rightarrow> command_call \<times> int" where
  "run_command args serve_code monitoring_failed =
     (let command = (if length args > 0 then args ! 0 else ''serve'')
      in if command = ''serve'' then (CallServe, serve_code)
         else if command = ''monitoring'' then (CallMonitoring, if monitoring_failed then 1 else 0)
         else (PrintUsage command, 1))"

section \<open>The serving process\<close>

text \<open>How \<open>ListenAndServe\<close> ends, the error of \<open>StartWithHandler\<close>, and the exit code.\<close>

datatype listen_end = ErrServerClosed | ListenFailed

definition StartWithHandler :: "listen_end \<Rightarrow> listen_end option" where
  "StartWithHandler err = (if err = ErrServerClosed then None else Some err)"

definition serve_exit_code :: "listen_end \<Rightarrow> int" where
  "serve_exit_code err = (if StartWithHandler err \<noteq> None then 1 else 0)"

lemma exit_codes [simp]: "serve_exit_code ErrServerClosed = 0" "serve_exit_code ListenFailed = 1"
  by (simp_all add: serve_exit_code_def StartWithHandler_def)

datatype shutdown_pc = AwaitSignal | BeforeStopDispatch | BeforeWait | InWait | BeforeStopHealth | Finished

record process =
  pr_ctrl :: controller
  pr_signaled :: bool
  pr_dispatchStopped :: bool
  pr_healthStopped :: bool
  pr_schedulerDone :: bool
  pr_shutdown :: shutdown_pc
  pr_deadline :: bool
  pr_idle :: "bool option"
  pr_serverClosed :: bool
  pr_exit :: "int option"

datatype process_event = Signal | Ctrl event | StopDispatch | Deadline | StopHealth | ServerShutdown | SchedulerReturns | Exit int

definition start_process :: "int \<Rightarrow> telemetry \<Rightarrow> process" where
  "start_process maxConcurrency telemetry =
     \<lparr>pr_ctrl = NewExecutionControllerWithTelemetry maxConcurrency (Some telemetry) 2, pr_signaled = False,
      pr_dispatchStopped = False, pr_healthStopped = False, pr_schedulerDone = False, pr_shutdown = AwaitSignal,
      pr_deadline = False, pr_idle = None, pr_serverClosed = False, pr_exit = None\<rparr>"

text \<open>The steps a call of \<open>RunMonitoring\<close> takes on its own, after it was made.\<close>

fun own_step :: "event \<Rightarrow> bool" where
  "own_step Internal = True"
| "own_step (BeginRun i rid) = True"
| "own_step (EndRun i err) = True"
| "own_step (ReturnRun i r) = True"
| "own_step _ = False"

text \<open>
  The scheduler may still call when the dispatch context is done: with its timer due as well,
  the select takes either. \<open>WaitForIdle\<close> returns false only when the drain deadline, which starts
  with the wait, has passed. Stopping the health context wakes the goroutine of
  \<open>StartWithHandler\<close> that calls \<open>Shutdown\<close>; only that ends \<open>ListenAndServe\<close> with
  \<open>ErrServerClosed\<close>, and until then it may fail with another error.
\<close>

inductive process_step :: "process \<Rightarrow> process_event \<Rightarrow> process \<Rightarrow> bool" where
  signal: "pr_exit p = None \<Longrightarrow> process_step p Signal (p\<lparr>pr_signaled := True\<rparr>)"
| begin_drain: "pr_exit p = None \<Longrightarrow> pr_shutdown p = AwaitSignal \<Longrightarrow> pr_signaled p \<Longrightarrow> step (pr_ctrl p) CallBeginDrain c \<Longrightarrow>
    process_step p (Ctrl CallBeginDrain) (p\<lparr>pr_ctrl := c, pr_shutdown := BeforeStopDispatch\<rparr>)"
| stop_dispatch: "pr_exit p = None \<Longrightarrow> pr_shutdown p = BeforeStopDispatch \<Longrightarrow>
    process_step p StopDispatch (p\<lparr>pr_dispatchStopped := True, pr_shutdown := BeforeWait\<rparr>)"
| wait: "pr_exit p = None \<Longrightarrow> pr_shutdown p = BeforeWait \<Longrightarrow> step (pr_ctrl p) (CallWait 1) c \<Longrightarrow>
    process_step p (Ctrl (CallWait 1)) (p\<lparr>pr_ctrl := c, pr_shutdown := InWait\<rparr>)"
| deadline: "pr_exit p = None \<Longrightarrow> pr_shutdown p = InWait \<Longrightarrow> process_step p Deadline (p\<lparr>pr_deadline := True\<rparr>)"
| woken: "pr_exit p = None \<Longrightarrow> pr_shutdown p = InWait \<Longrightarrow> r \<or> pr_deadline p \<Longrightarrow> step (pr_ctrl p) (ReturnWait 1 r) c \<Longrightarrow>
    process_step p (Ctrl (ReturnWait 1 r)) (p\<lparr>pr_ctrl := c, pr_idle := Some r, pr_shutdown := BeforeStopHealth\<rparr>)"
| stop_health: "pr_exit p = None \<Longrightarrow> pr_shutdown p = BeforeStopHealth \<Longrightarrow>
    process_step p StopHealth (p\<lparr>pr_healthStopped := True, pr_shutdown := Finished\<rparr>)"
| scheduled_run: "pr_exit p = None \<Longrightarrow> \<not> pr_schedulerDone p \<Longrightarrow> step (pr_ctrl p) (CallRun 0) c \<Longrightarrow>
    process_step p (Ctrl (CallRun 0)) (p\<lparr>pr_ctrl := c\<rparr>)"
| scheduler_returns: "pr_exit p = None \<Longrightarrow> pr_dispatchStopped p \<Longrightarrow> c_threads (pr_ctrl p) ! 0 = Outside \<Longrightarrow>
    process_step p SchedulerReturns (p\<lparr>pr_schedulerDone := True\<rparr>)"
| work: "pr_exit p = None \<Longrightarrow> own_step e \<Longrightarrow> step (pr_ctrl p) e c \<Longrightarrow> process_step p (Ctrl e) (p\<lparr>pr_ctrl := c\<rparr>)"
| server_shutdown: "pr_exit p = None \<Longrightarrow> pr_healthStopped p \<Longrightarrow> \<not> pr_serverClosed p \<Longrightarrow>
    process_step p ServerShutdown (p\<lparr>pr_serverClosed := True\<rparr>)"
| served: "pr_exit p = None \<Longrightarrow> pr_serverClosed p \<Longrightarrow>
    process_step p (Exit (serve_exit_code ErrServerClosed)) (p\<lparr>pr_exit := Some (serve_exit_code ErrServerClosed)\<rparr>)"
| serve_failed: "pr_exit p = None \<Longrightarrow> \<not> pr_serverClosed p \<Longrightarrow>
    process_step p (Exit (serve_exit_code ListenFailed)) (p\<lparr>pr_exit := Some (serve_exit_code ListenFailed)\<rparr>)"

inductive process_run :: "process \<Rightarrow> process_event list \<Rightarrow> process \<Rightarrow> bool" where
  begin_: "process_run p [] p"
| next_: "process_run p es q \<Longrightarrow> process_step q e r \<Longrightarrow> process_run p (es @ [e]) r"

inductive_cases process_stepE: "process_step p e q"

text \<open>The answer of the health server to a GET while the process serves.\<close>

definition probe :: "config \<Rightarrow> (string \<Rightarrow> string option) \<Rightarrow> int \<times> 64 word \<times> 64 word \<times> 64 word \<Rightarrow> process \<Rightarrow> string \<Rightarrow> http_response" where
  "probe cfg files mem p path =
     NewHandler (Some (IsReady files cfg \<and> \<not> c_draining (pr_ctrl p))) (Snapshot (Some (c_telemetry (pr_ctrl p))) mem) ''GET'' path"

section \<open>The controller inside the process\<close>

fun ctrl_event :: "process_event \<Rightarrow> event option" where
  "ctrl_event (Ctrl e) = Some e"
| "ctrl_event _ = None"

definition ctrl_events :: "process_event list \<Rightarrow> event list" where
  "ctrl_events es = List.map_filter ctrl_event es"

lemma ctrl_events_snoc [simp]:
  "ctrl_events [] = []" "ctrl_events (es @ [Ctrl e]) = ctrl_events es @ [e]" "ctrl_events (es @ [Signal]) = ctrl_events es"
  "ctrl_events (es @ [StopDispatch]) = ctrl_events es" "ctrl_events (es @ [Deadline]) = ctrl_events es"
  "ctrl_events (es @ [ServerShutdown]) = ctrl_events es" "ctrl_events (es @ [StopHealth]) = ctrl_events es"
  "ctrl_events (es @ [SchedulerReturns]) = ctrl_events es" "ctrl_events (es @ [Exit k]) = ctrl_events es"
  by (simp_all add: ctrl_events_def map_filter_def)

lemma controller_of_process:
  "process_run p es q \<Longrightarrow> steps (pr_ctrl p) (ctrl_events es) (pr_ctrl q)"
proof (induction rule: process_run.induct)
  case (next_ p es q e r)
  from next_.hyps(2) show ?case
    by (cases rule: process_step.cases) (use next_.IH in \<open>auto intro: steps.more\<close>)
qed (simp add: steps.none)

section \<open>Invariant of the shutdown\<close>

fun shutdown_stage :: "shutdown_pc \<Rightarrow> nat" where
  "shutdown_stage AwaitSignal = 0"
| "shutdown_stage BeforeStopDispatch = 1"
| "shutdown_stage BeforeWait = 2"
| "shutdown_stage InWait = 3"
| "shutdown_stage BeforeStopHealth = 4"
| "shutdown_stage Finished = 5"

definition shutdown_inv :: "process \<Rightarrow> bool" where
  "shutdown_inv p \<longleftrightarrow>
     length (c_threads (pr_ctrl p)) = 2 \<and>
     (c_threads (pr_ctrl p) ! 1 = (if pr_shutdown p = InWait then WaitingFor (c_idle (pr_ctrl p)) else Outside)) \<and>
     (c_draining (pr_ctrl p) \<longleftrightarrow> 1 \<le> shutdown_stage (pr_shutdown p)) \<and>
     (1 \<le> shutdown_stage (pr_shutdown p) \<longrightarrow> pr_signaled p) \<and>
     (pr_dispatchStopped p \<longleftrightarrow> 2 \<le> shutdown_stage (pr_shutdown p)) \<and>
     (pr_healthStopped p \<longleftrightarrow> pr_shutdown p = Finished) \<and>
     (pr_idle p \<noteq> None \<longleftrightarrow> 4 \<le> shutdown_stage (pr_shutdown p)) \<and>
     (pr_idle p = Some True \<longrightarrow> \<not> c_active (pr_ctrl p)) \<and>
     (pr_serverClosed p \<longrightarrow> pr_healthStopped p) \<and>
     (pr_exit p = Some 0 \<longrightarrow> pr_serverClosed p)"

lemma own_step_frame:
  assumes "step c e c'" "own_step e" "i < length (c_threads c)" "c_threads c ! i = Outside \<or> (\<exists>ch. c_threads c ! i = WaitingFor ch)"
  shows "c_threads c' ! i = c_threads c ! i \<and> c_draining c' = c_draining c \<and> length (c_threads c') = length (c_threads c)"
  using assms(1)
  by (cases rule: step.cases) (use assms(2-4) in \<open>auto simp: goto_def nth_list_update storeSummary_def\<close>)

lemma other_goroutine:
  assumes "step c e c'" "own_step e \<or> e = CallRun 0" "length (c_threads c) = 2" "c_threads c ! 1 = Outside \<or> (\<exists>ch. c_threads c ! 1 = WaitingFor ch)"
  shows "c_threads c' ! 1 = c_threads c ! 1 \<and> c_draining c' = c_draining c \<and> length (c_threads c') = 2"
proof (cases "own_step e")
  case True
  with own_step_frame [OF assms(1) this, of 1] assms(3,4) show ?thesis by simp
next
  case False
  with assms(2) have "e = CallRun 0" by simp
  with assms(1,3) show ?thesis by (cases rule: step.cases) (auto simp: goto_def)
qed

text \<open>A step of the scheduler or of a run leaves the shutdown where it is.\<close>

lemma shutdown_inv_other:
  assumes "shutdown_inv p" "controller_inv (pr_ctrl p)" "step (pr_ctrl p) e c" "own_step e \<or> e = CallRun 0"
  shows "shutdown_inv (p\<lparr>pr_ctrl := c\<rparr>)"
proof -
  let ?c = "pr_ctrl p"
  have t: "length (c_threads ?c) = 2" "c_threads ?c ! 1 = (if pr_shutdown p = InWait then WaitingFor (c_idle ?c) else Outside)"
    and d: "c_draining ?c \<longleftrightarrow> 1 \<le> shutdown_stage (pr_shutdown p)"
    and i: "pr_idle p \<noteq> None \<longleftrightarrow> 4 \<le> shutdown_stage (pr_shutdown p)" "pr_idle p = Some True \<longrightarrow> \<not> c_active ?c"
    using assms(1) unfolding shutdown_inv_def by blast+
  have f: "c_threads c ! 1 = c_threads ?c ! 1 \<and> c_draining c = c_draining ?c \<and> length (c_threads c) = 2"
    using other_goroutine [OF assms(3,4) t(1)] t(2) by (auto split: if_splits)
  have idle: "c_draining ?c \<Longrightarrow> c_idle c = c_idle ?c \<and> (\<not> c_active ?c \<longrightarrow> \<not> c_active c)"
    using drained_step [OF assms(3,2)] by blast
  have w: "c_threads c ! 1 = (if pr_shutdown p = InWait then WaitingFor (c_idle c) else Outside)"
    using f t(2) idle d by (cases "pr_shutdown p = InWait") simp_all
  have a: "pr_idle p = Some True \<longrightarrow> \<not> c_active c" using i idle d by auto
  show ?thesis using assms(1) f w a unfolding shutdown_inv_def by auto
qed

lemma shutdown_inv_step:
  assumes "process_step p e q" "shutdown_inv p" "controller_inv (pr_ctrl p)"
  shows "shutdown_inv q"
  using assms(1)
proof (cases rule: process_step.cases)
  case (begin_drain c)
  from begin_drain(6) have c: "c = (pr_ctrl p)\<lparr>c_draining := True\<rparr>" by (cases rule: step.cases) simp_all
  show ?thesis using assms(2) begin_drain(4,5) unfolding begin_drain(2) c shutdown_inv_def by auto
next
  case (wait c)
  from wait(5) have c: "c = goto 1 (WaitingFor (c_idle (pr_ctrl p))) (pr_ctrl p)" by (cases rule: step.cases) simp_all
  show ?thesis using assms(2) wait(4) unfolding wait(2) c shutdown_inv_def by (auto simp: goto_def)
next
  case (woken r c)
  let ?c = "pr_ctrl p"
  have t: "c_threads ?c ! 1 = WaitingFor (c_idle ?c)" "length (c_threads ?c) = 2"
    using assms(2) woken(4) unfolding shutdown_inv_def by simp_all
  from woken(6) have c: "c = goto 1 Outside ?c \<and> (r \<longrightarrow> c_idle ?c \<in> c_closed ?c)"
    by (cases rule: step.cases) (use t in auto)
  then have "r \<Longrightarrow> \<not> c_active ?c" using inv_idle [OF assms(3)] by simp
  with c assms(2) woken(4) t show ?thesis unfolding woken(2) shutdown_inv_def by (auto simp: goto_def)
next
  case (scheduled_run c)
  then show ?thesis using shutdown_inv_other [OF assms(2,3) scheduled_run(5)] by simp
next
  case (work e' c)
  then show ?thesis using shutdown_inv_other [OF assms(2,3) work(5)] by simp
next
  case stop_dispatch
  show ?thesis using assms(2) stop_dispatch(4) unfolding stop_dispatch(2) shutdown_inv_def by auto
next
  case stop_health
  show ?thesis using assms(2) stop_health(4) unfolding stop_health(2) shutdown_inv_def by auto
next
  case deadline
  show ?thesis using assms(2) unfolding deadline(2) shutdown_inv_def by auto
next
  case server_shutdown
  show ?thesis using assms(2) server_shutdown(4) unfolding server_shutdown(2) shutdown_inv_def by auto
next
  case signal
  show ?thesis using assms(2) unfolding signal(2) shutdown_inv_def by auto
next
  case scheduler_returns
  show ?thesis using assms(2) unfolding scheduler_returns(2) shutdown_inv_def by auto
next
  case served
  show ?thesis using assms(2) served unfolding served(2) shutdown_inv_def by auto
next
  case serve_failed
  show ?thesis using assms(2) unfolding serve_failed(2) shutdown_inv_def by auto
qed

abbreviation serving :: "int \<Rightarrow> telemetry \<Rightarrow> process_event list \<Rightarrow> process \<Rightarrow> bool" where
  "serving maxConcurrency telemetry es p \<equiv> process_run (start_process maxConcurrency telemetry) es p"

lemma serving_started:
  "serving maxConcurrency telemetry es p \<Longrightarrow> started maxConcurrency (Some telemetry) 2 (ctrl_events es) (pr_ctrl p)"
  using controller_of_process [of "start_process maxConcurrency telemetry" es p] by (simp add: start_process_def)

lemma serving_inv: "serving maxConcurrency telemetry es p \<Longrightarrow> shutdown_inv p"
proof (induction "start_process maxConcurrency telemetry" es p rule: process_run.induct)
  case begin_
  then show ?case
    by (simp add: shutdown_inv_def start_process_def NewExecutionControllerWithTelemetry_def numeral_2_eq_2)
next
  case (next_ es q e r)
  then show ?case using shutdown_inv_step [OF next_.hyps(3)] serving_started [OF next_.hyps(1)] started_inv by blast
qed

section \<open>Shutting down\<close>

lemma idle_means_settled:
  assumes "started maxConcurrency telemetry n es c" "\<not> c_active c"
  shows "occurrences is_begin es = occurrences is_end es"
proof -
  have "at_pc is_running (c_threads c) \<le> at_pc in_run (c_threads c)"
    by (intro at_pc_mono) (auto elim: is_running.elims)
  then have "at_pc is_running (c_threads c) = 0"
    using inv_run [OF started_inv [OF assms(1)]] assms(2) by simp
  then show ?thesis using runs.trace [OF assms(1)] by simp
qed

text \<open>
  C6. The process ends with success only after an orderly shutdown: a signal came, draining
  began and dispatching was stopped before the health server was, and either the drain deadline
  had passed or every run that began had ended, and then no run is in progress any more. The
  controller inside the process behaves as the controller alone does.
\<close>

lemma orderly_exit:
  assumes "serving maxConcurrency telemetry es p" "pr_exit p = Some 0"
  shows "pr_signaled p \<and> c_draining (pr_ctrl p) \<and> pr_dispatchStopped p \<and> pr_healthStopped p \<and>
    started maxConcurrency (Some telemetry) 2 (ctrl_events es) (pr_ctrl p) \<and>
    (pr_idle p = Some False \<or>
     pr_idle p = Some True \<and> \<not> c_active (pr_ctrl p) \<and>
     occurrences is_begin (ctrl_events es) = occurrences is_end (ctrl_events es))"
proof -
  have inv: "shutdown_inv p" using assms(1) by (rule serving_inv)
  have st: "started maxConcurrency (Some telemetry) 2 (ctrl_events es) (pr_ctrl p)" by (rule serving_started [OF assms(1)])
  from inv assms(2) have f: "pr_shutdown p = Finished" "pr_healthStopped p" unfolding shutdown_inv_def by auto
  then have "pr_signaled p" "c_draining (pr_ctrl p)" "pr_dispatchStopped p" "pr_idle p \<noteq> None"
    and idle: "pr_idle p = Some True \<longrightarrow> \<not> c_active (pr_ctrl p)"
    using inv unfolding shutdown_inv_def by auto
  with f st idle_means_settled [OF st] show ?thesis by (cases "pr_idle p") auto
qed

text \<open>
  C32. The probes tell the truth about draining: a GET of the readiness path is answered with
  503 exactly when the configuration is not ready or the shutdown has begun draining, from then
  on in every later state, and a GET of the liveness paths with 200 as long as the server runs.
\<close>

lemma probes_follow_drain:
  assumes "serving maxConcurrency telemetry es p"
  shows "rs_Status (probe cfg files mem p ''/livez'') = 200 \<and> rs_Status (probe cfg files mem p ''/health'') = 200 \<and>
    rs_Status (probe cfg files mem p ''/readyz'') =
      (if IsReady files cfg \<and> Ctrl CallBeginDrain \<notin> set es then 200 else 503)"
proof -
  have "c_draining (pr_ctrl p) \<longleftrightarrow> Ctrl CallBeginDrain \<in> set es"
    using assms
  proof (induction "start_process maxConcurrency telemetry" es p rule: process_run.induct)
    case begin_
    then show ?case by (simp add: start_process_def NewExecutionControllerWithTelemetry_def)
  next
    case (next_ es q e r)
    have inv: "shutdown_inv q" using next_.hyps(1) by (rule serving_inv)
    have t: "length (c_threads (pr_ctrl q)) = 2" "c_threads (pr_ctrl q) ! 1 = Outside \<or> (\<exists>ch. c_threads (pr_ctrl q) ! 1 = WaitingFor ch)"
      using inv unfolding shutdown_inv_def by (auto split: if_splits)
    have quiet: "c_draining c = c_draining (pr_ctrl q)" if "step (pr_ctrl q) e' c" "e' \<noteq> CallBeginDrain" for e' c
      using that by (cases rule: step.cases) simp_all
    from next_.hyps(3) show ?case
    proof (cases rule: process_step.cases)
      case (begin_drain c)
      from begin_drain(6) have "c_draining c" by (cases rule: step.cases) simp_all
      with begin_drain(1,2) show ?thesis by simp
    next
      case (work e' c)
      then have "e' \<noteq> CallBeginDrain" by auto
      with work quiet next_.hyps(2) show ?thesis by simp
    qed (use next_.hyps(2) quiet in auto)
  qed
  then show ?thesis by (simp add: probe_def NewHandler_def ready_def live_def)
qed

text \<open>The steps of a shutdown, up to whether the wait saw the controller idle.\<close>

definition shutdown_sequence :: "bool \<Rightarrow> process_event list" where
  "shutdown_sequence r =
     [Ctrl CallBeginDrain, StopDispatch, Ctrl (CallWait 1), Ctrl (ReturnWait 1 r), StopHealth, ServerShutdown, Exit 0]"

definition shutdown_event :: "process_event \<Rightarrow> bool" where
  "shutdown_event e \<longleftrightarrow> e \<in> set (shutdown_sequence True) \<union> set (shutdown_sequence False)"

lemma shutdown_event_simps [simp]:
  "shutdown_event (Ctrl CallBeginDrain)" "shutdown_event StopDispatch" "shutdown_event (Ctrl (CallWait 1))"
  "shutdown_event (Ctrl (ReturnWait 1 r))" "shutdown_event StopHealth" "shutdown_event ServerShutdown" "shutdown_event (Exit 0)"
  "shutdown_event (Ctrl (CallWait (Suc 0)))" "shutdown_event (Ctrl (ReturnWait (Suc 0) r))"
  "\<not> shutdown_event Signal" "\<not> shutdown_event Deadline" "\<not> shutdown_event SchedulerReturns" "\<not> shutdown_event (Ctrl (CallRun i))"
  "own_step e \<Longrightarrow> \<not> shutdown_event (Ctrl e)"
  by (cases r; auto simp: shutdown_event_def shutdown_sequence_def)+

text \<open>How many of them have been made, read off the state.\<close>

definition shutdown_done :: "process \<Rightarrow> nat" where
  "shutdown_done p = (if pr_exit p = Some 0 then 7 else if pr_serverClosed p then 6 else shutdown_stage (pr_shutdown p))"

lemma sequence_take:
  "take (Suc 0) (shutdown_sequence r) = take 0 (shutdown_sequence r) @ [Ctrl CallBeginDrain]"
  "take 2 (shutdown_sequence r) = take (Suc 0) (shutdown_sequence r) @ [StopDispatch]"
  "take 3 (shutdown_sequence r) = take 2 (shutdown_sequence r) @ [Ctrl (CallWait 1)]"
  "take 4 (shutdown_sequence r) = take 3 (shutdown_sequence r) @ [Ctrl (ReturnWait 1 r)]"
  "take 5 (shutdown_sequence r) = take 4 (shutdown_sequence r) @ [StopHealth]"
  "take 6 (shutdown_sequence r) = take 5 (shutdown_sequence r) @ [ServerShutdown]"
  "take 7 (shutdown_sequence r) = take 6 (shutdown_sequence r) @ [Exit 0]"
  "take 3 (shutdown_sequence r) = take 3 (shutdown_sequence r')"
  by (simp_all add: shutdown_sequence_def)

lemma shutdown_in_order:
  assumes "serving maxConcurrency telemetry es p" "Exit 1 \<notin> set es" "pr_idle p = None \<or> pr_idle p = Some r"
  shows "filter shutdown_event es = take (shutdown_done p) (shutdown_sequence r) \<and> (pr_exit p = None \<or> pr_exit p = Some 0) \<and>
    (pr_signaled p \<longleftrightarrow> Signal \<in> set es)"
  using assms
proof (induction "start_process maxConcurrency telemetry" es p arbitrary: r rule: process_run.induct)
  case begin_
  then show ?case by (simp add: start_process_def shutdown_done_def)
next
  case (next_ es q e p)
  have inv: "shutdown_inv q" using next_.hyps(1) by (rule serving_inv)
  have IH: "filter shutdown_event es = take (shutdown_done q) (shutdown_sequence r) \<and> (pr_exit q = None \<or> pr_exit q = Some 0) \<and>
      (pr_signaled q \<longleftrightarrow> Signal \<in> set es)"
    if "pr_idle q = None \<or> pr_idle q = Some r" for r
    using next_.hyps(2) next_.prems(1) that by simp
  note pr = shutdown_done_def shutdown_inv_def
  from next_.hyps(3) show ?case
  proof (cases rule: process_step.cases)
    case (woken r' c)
    then have "r = r'" "pr_idle q = None" "\<not> pr_serverClosed q" using next_.prems(2) inv by (auto simp: shutdown_inv_def)
    with woken IH [of r] show ?thesis by (simp add: shutdown_done_def sequence_take(4))
  qed (use IH [of r] inv next_.prems in \<open>auto simp: pr sequence_take\<close>)
qed

text \<open>The next step of the shutdown, in each of its stages.\<close>

lemma shutdown_next:
  assumes inv: "shutdown_inv p" and ctrl: "controller_inv (pr_ctrl p)" and sig: "pr_signaled p" and run: "pr_exit p = None"
    and t: "1 < length (c_threads (pr_ctrl p))"
      "c_threads (pr_ctrl p) ! 1 = (if pr_shutdown p = InWait then WaitingFor (c_idle (pr_ctrl p)) else Outside)"
    and r: "r = (case pr_idle p of None \<Rightarrow> True | Some b \<Rightarrow> b)"
  shows "(\<exists>q. process_step p (shutdown_sequence r ! shutdown_done p) q) \<or>
    shutdown_sequence r ! shutdown_done p = Ctrl (ReturnWait 1 r) \<and> c_active (pr_ctrl p) \<and>
      (\<exists>q q'. process_step p Deadline q \<and> process_step q (Ctrl (ReturnWait 1 False)) q')"
proof (cases "pr_serverClosed p")
  case True
  from process_step.served [OF run this] show ?thesis using True run by (auto simp: shutdown_done_def shutdown_sequence_def)
next
  case running: False
  note at = shutdown_done_def shutdown_sequence_def run running
  show ?thesis
  proof (cases "pr_shutdown p")
    case AwaitSignal
    from process_step.begin_drain [OF run AwaitSignal sig step.begin_drain] show ?thesis using AwaitSignal by (auto simp: at)
  next
    case BeforeStopDispatch
    from process_step.stop_dispatch [OF run this] show ?thesis using BeforeStopDispatch by (auto simp: at)
  next
    case BeforeWait
    with t have "step (pr_ctrl p) (CallWait 1) (goto 1 (WaitingFor (c_idle (pr_ctrl p))) (pr_ctrl p))"
      by (intro step.wait) simp_all
    from process_step.wait [OF run BeforeWait this] show ?thesis using BeforeWait by (auto simp: at)
  next
    case InWait
    then have idle: "pr_idle p = None" using inv by (simp add: shutdown_inv_def)
    with r have r: "r" by simp
    show ?thesis
    proof (cases "c_active (pr_ctrl p)")
      case False
      with t InWait inv_idle [OF ctrl] have "step (pr_ctrl p) (ReturnWait 1 True) (goto 1 Outside (pr_ctrl p))"
        by (intro step.wait_idle [where ch = "c_idle (pr_ctrl p)"]) simp_all
      from process_step.woken [OF run InWait _ this] show ?thesis using InWait r by (auto simp: at)
    next
      case True
      let ?q = "p\<lparr>pr_deadline := True\<rparr>"
      from t InWait have "step (pr_ctrl ?q) (ReturnWait 1 False) (goto 1 Outside (pr_ctrl ?q))"
        by (intro step.wait_canceled [where ch = "c_idle (pr_ctrl p)"]) simp_all
      from process_step.woken [OF _ _ _ this] run InWait process_step.deadline [OF run InWait] True
      show ?thesis by (auto simp: at)
    qed
  next
    case BeforeStopHealth
    from process_step.stop_health [OF run this] show ?thesis using BeforeStopHealth by (auto simp: at)
  next
    case Finished
    then have "pr_healthStopped p" using inv unfolding shutdown_inv_def by simp
    from process_step.server_shutdown [OF run this running] show ?thesis using Finished by (auto simp: at)
  qed
qed

text \<open>
  C31. A signalled process ends, unless its server fails before. Its shutdown consists of seven
  steps in a fixed order: begin draining, stop dispatching, start to wait for the run in progress,
  return from the wait, stop the health server, close it, exit with 0; whatever else happens in
  between, what has been made of them is always an initial part of that list, all of it
  exactly when the process has exited. Until then the next one can be made in every state, so no step of
  another goroutine can block it; only the return from the wait, while a run is in progress, may
  have to wait for the drain deadline, which lets it return in any case.
\<close>

lemma shutdown_makes_progress:
  assumes "serving maxConcurrency telemetry es p" "Signal \<in> set es" "Exit 1 \<notin> set es"
    and "steps_made = filter shutdown_event es"
  shows "\<exists>r. prefix steps_made (shutdown_sequence r) \<and> (pr_exit p = Some 0 \<longleftrightarrow> steps_made = shutdown_sequence r) \<and>
    (pr_exit p = None \<or> pr_exit p = Some 0) \<and>
    (pr_exit p = None \<longrightarrow>
       (\<exists>q. process_step p (shutdown_sequence r ! length steps_made) q) \<or>
       shutdown_sequence r ! length steps_made = Ctrl (ReturnWait 1 r) \<and> c_active (pr_ctrl p) \<and>
         (\<exists>q q'. process_step p Deadline q \<and> process_step q (Ctrl (ReturnWait 1 False)) q'))"
proof -
  define r where "r = (case pr_idle p of None \<Rightarrow> True | Some b \<Rightarrow> b)"
  have inv: "shutdown_inv p" and ctrl: "controller_inv (pr_ctrl p)"
    using serving_inv [OF assms(1)] started_inv [OF serving_started [OF assms(1)]] by simp_all
  have t: "1 < length (c_threads (pr_ctrl p))"
    "c_threads (pr_ctrl p) ! 1 = (if pr_shutdown p = InWait then WaitingFor (c_idle (pr_ctrl p)) else Outside)"
    using inv unfolding shutdown_inv_def by simp_all
  have "pr_idle p = None \<or> pr_idle p = Some r" by (auto simp: r_def split: option.splits)
  from shutdown_in_order [OF assms(1,3) this] assms(2,4)
  have order: "steps_made = take (shutdown_done p) (shutdown_sequence r)" and exits: "pr_exit p = None \<or> pr_exit p = Some 0"
    and sig: "pr_signaled p" by auto
  have le: "shutdown_done p \<le> 7" "shutdown_done p = 7 \<longleftrightarrow> pr_exit p = Some 0"
    by (cases "pr_shutdown p"; simp add: shutdown_done_def)+
  have len: "length (shutdown_sequence r) = 7" by (simp add: shutdown_sequence_def)
  then have "length steps_made = shutdown_done p" using le(1) order by simp
  moreover have "steps_made = shutdown_sequence r \<longleftrightarrow> shutdown_done p = 7"
    using order len le(1) calculation by (metis length_take min.absorb1 take_all_iff order_refl)
  moreover have "(\<exists>q. process_step p (shutdown_sequence r ! shutdown_done p) q) \<or>
       shutdown_sequence r ! shutdown_done p = Ctrl (ReturnWait 1 r) \<and> c_active (pr_ctrl p) \<and>
         (\<exists>q q'. process_step p Deadline q \<and> process_step q (Ctrl (ReturnWait 1 False)) q')"
    if run: "pr_exit p = None"
    using shutdown_next [OF inv ctrl sig run t refl] r_def by simp
  ultimately show ?thesis using order le(2) exits take_is_prefix by (intro exI [of _ r]) auto
qed

section \<open>A shutdown\<close>

lemma example_shutdown:
  "\<exists>p. serving 4 NewTelemetry [Signal, Ctrl CallBeginDrain, StopDispatch, Ctrl (CallWait 1), Ctrl (ReturnWait 1 True), StopHealth, ServerShutdown, Exit 0] p \<and>
     pr_exit p = Some 0 \<and> pr_idle p = Some True"
proof -
  let ?p0 = "start_process 4 NewTelemetry"
  let ?c0 = "pr_ctrl ?p0" let ?c1 = "?c0\<lparr>c_draining := True\<rparr>"
  let ?c2 = "goto 1 (WaitingFor (c_idle ?c1)) ?c1" let ?c3 = "goto 1 Outside ?c2"
  have c0: "c_threads ?c0 = [Outside, Outside]" "c_idle ?c0 \<in> c_closed ?c0" "pr_exit ?p0 = None" "pr_shutdown ?p0 = AwaitSignal"
    "\<not> pr_serverClosed ?p0"
    by (simp_all add: start_process_def NewExecutionControllerWithTelemetry_def numeral_2_eq_2)
  let ?p1 = "?p0\<lparr>pr_signaled := True\<rparr>" let ?p2 = "?p1\<lparr>pr_ctrl := ?c1, pr_shutdown := BeforeStopDispatch\<rparr>"
  let ?p3 = "?p2\<lparr>pr_dispatchStopped := True, pr_shutdown := BeforeWait\<rparr>" let ?p4 = "?p3\<lparr>pr_ctrl := ?c2, pr_shutdown := InWait\<rparr>"
  let ?p5 = "?p4\<lparr>pr_ctrl := ?c3, pr_idle := Some True, pr_shutdown := BeforeStopHealth\<rparr>"
  let ?p6 = "?p5\<lparr>pr_healthStopped := True, pr_shutdown := Finished\<rparr>" let ?p7 = "?p6\<lparr>pr_serverClosed := True\<rparr>" let ?p8 = "?p7\<lparr>pr_exit := Some 0\<rparr>"
  have w: "step ?c1 (CallWait 1) ?c2" using c0 by (intro step.wait) simp_all
  have r: "step ?c2 (ReturnWait 1 True) ?c3"
    using c0 by (intro step.wait_idle [where ch = "c_idle ?c1"]) (simp_all add: goto_def)
  have "process_run ?p0 [Signal] ?p1"
    using process_run.next_ [OF process_run.begin_ process_step.signal [of ?p0]] c0 by simp
  from process_run.next_ [OF this process_step.begin_drain [of _ ?c1]] have "process_run ?p0 [Signal, Ctrl CallBeginDrain] ?p2"
    using c0 step.begin_drain [of ?c0] by simp
  from process_run.next_ [OF this process_step.stop_dispatch] have "process_run ?p0 [Signal, Ctrl CallBeginDrain, StopDispatch] ?p3"
    using c0 by simp
  from process_run.next_ [OF this process_step.wait [of _ ?c2]] have
    "process_run ?p0 [Signal, Ctrl CallBeginDrain, StopDispatch, Ctrl (CallWait 1)] ?p4" using c0 w by simp
  from process_run.next_ [OF this process_step.woken [of _ True ?c3]] have
    "process_run ?p0 [Signal, Ctrl CallBeginDrain, StopDispatch, Ctrl (CallWait 1), Ctrl (ReturnWait 1 True)] ?p5" using c0 r by simp
  from process_run.next_ [OF this process_step.stop_health] have
    "process_run ?p0 [Signal, Ctrl CallBeginDrain, StopDispatch, Ctrl (CallWait 1), Ctrl (ReturnWait 1 True), StopHealth] ?p6" using c0 by simp
  from process_run.next_ [OF this process_step.server_shutdown] have
    "process_run ?p0 [Signal, Ctrl CallBeginDrain, StopDispatch, Ctrl (CallWait 1), Ctrl (ReturnWait 1 True), StopHealth, ServerShutdown] ?p7" using c0 by simp
  from process_run.next_ [OF this process_step.served] have
    "process_run ?p0 [Signal, Ctrl CallBeginDrain, StopDispatch, Ctrl (CallWait 1), Ctrl (ReturnWait 1 True), StopHealth, ServerShutdown, Exit 0] ?p8"
    using c0 by simp
  then show ?thesis by (intro exI [of _ ?p8]) simp
qed

lemma orderly_exit_witness:
  "\<exists>es p. serving 4 NewTelemetry es p \<and> pr_exit p = Some 0 \<and> pr_dispatchStopped p \<and> \<not> c_active (pr_ctrl p)"
proof -
  from example_shutdown obtain es p where p: "serving 4 NewTelemetry es p" "pr_exit p = Some 0" "pr_idle p = Some True" by blast
  with orderly_exit [OF p(1,2)] show ?thesis by auto
qed

lemma probes_follow_drain_witness:
  "\<exists>es p. serving 4 NewTelemetry es p \<and> pr_exit p = Some 0 \<and>
     rs_Status (probe (FromEnv (\<lambda>_. [])) (\<lambda>_. None) (0, 0, 0, 0) p ''/readyz'') = 503 \<and>
     rs_Status (probe (FromEnv (\<lambda>_. [])) (\<lambda>_. None) (0, 0, 0, 0) p ''/livez'') = 200"
proof -
  from example_shutdown obtain p where p: "serving 4 NewTelemetry
      [Signal, Ctrl CallBeginDrain, StopDispatch, Ctrl (CallWait 1), Ctrl (ReturnWait 1 True), StopHealth, ServerShutdown, Exit 0] p" "pr_exit p = Some 0"
    by blast
  with probes_follow_drain [OF p(1), of "FromEnv (\<lambda>_. [])" "\<lambda>_. None" "(0, 0, 0, 0)"] show ?thesis by auto
qed

lemma shutdown_makes_progress_witness:
  "\<exists>p. serving 4 NewTelemetry [Signal] p \<and> (\<exists>q. process_step p (Ctrl CallBeginDrain) q)"
proof -
  let ?p = "start_process 4 NewTelemetry"
  have "process_run ?p ([] @ [Signal]) (?p\<lparr>pr_signaled := True\<rparr>)"
    by (rule process_run.next_ [OF process_run.begin_ process_step.signal]) (simp add: start_process_def)
  then have r: "serving 4 NewTelemetry [Signal] (?p\<lparr>pr_signaled := True\<rparr>)" by simp
  from shutdown_makes_progress [OF r] r show ?thesis by (auto simp: start_process_def shutdown_sequence_def)
qed

end
