(* ===== verification/Spec2Isabelle.thy ===== *)
theory Spec2Isabelle
  imports Run_Gate Minute_Scheduler Runner_Phases Core_Client Runner_Checks Worker_Main
begin

text \<open>
  Verification of the WebGuard monitoring worker (\<open>webguard-instance\<close>): a process that asks a
  Core service for monitorings or leased jobs, checks them (HTTP, keyword, ping, TCP port, DNS
  record, TLS certificate, domain expiration) and reports the results, once a minute.

  THE PARTS AND HOW THEY INTERACT. \<open>cmd/webguard-instance/main.go\<close> builds the configuration,
  the Core client, the runner and the execution controller, and serves: the scheduler calls
  \<open>RunMonitoring\<close> of the controller every minute, the controller lets one run in at a time
  and hands it to the runner, the runner starts its phases under the coordinator (or, with job
  leases, claims a batch), each phase feeds a pool of workers, a worker executes a check through
  the executor registry and publishes its result through the gateway, and the telemetry counts.
  A signal drains the controller and stops the scheduler and the health server.

  WHICH THEORY MODELS WHAT (sources under \<open>src/\<close>).

  \<^item> Go's library as far as the worker uses it: \<open>Go_Prelude\<close> (64-bit integers, instants,
    durations, maps with zero-value reads), \<open>Go_Strings\<close>, \<open>Go_Strconv\<close>, \<open>Go_Text\<close>
    (\<open>strings\<close>, \<open>strconv\<close>), \<open>Go_Float\<close> (rounding to \<open>float64\<close>), \<open>Go_Net\<close>
    (\<open>net/netip\<close>, host and port), \<open>Go_Time\<close> (\<open>time.Parse\<close>, and the RFC 3339 texts it reads).
  \<^item> \<open>Monitor_Types\<close>: \<open>internal/domain/monitor/types.go\<close>, the data and its tolerant
    decoder; well-formedness of what it accepts, and that it reads a monitoring back from the forms
    its fields may have in JSON, where a number is a \<open>float64\<close>.
  \<^item> \<open>Telemetry\<close>: \<open>internal/application/telemetry.go\<close>; every counter counts its calls, the
    gauges follow the lives of jobs. \<open>Pool_Gauges\<close>: the gauges under interleaved workers.
  \<^item> \<open>Execution_Controller\<close>: \<open>internal/application/execution_controller.go\<close> as a step
    relation over program points of any number of goroutines, with its invariant: one run at a
    time, exact outcome counts, final draining, no blocking, bounded execution slots.
    \<open>Run_Gate\<close>: the automaton the controller promises, and the refinement.
  \<^item> \<open>Coordinator\<close>: \<open>internal/application/coordinator.go\<close>, the joining of phase errors.
  \<^item> \<open>Response_Cadence\<close>, \<open>Idempotency_Key\<close>, \<open>Executor_Registry\<close>: the files of these
    names in \<open>internal/adapters/runner\<close>, with \<open>allowAuxiliaryPhase\<close> of \<open>runner.go\<close>.
  \<^item> \<open>Gateway\<close>: the port of \<open>internal/application/ports.go\<close> as a list of calls, and
    \<open>publishExecution\<close>.
  \<^item> \<open>Worker_Pool\<close>: the unbuffered channel, the workers that range over it, the feeding loop
    and the wait group that \<open>job_leases.go\<close> and \<open>runner.go\<close> build each time; termination
    under every schedule, every job served once.
  \<^item> \<open>Job_Leases\<close>: \<open>internal/adapters/runner/job_leases.go\<close>; each claimed job is settled with
    Core exactly once. \<open>Runner_Phases\<close>: the three phases of \<open>runner.go\<close> and
    \<open>RunMonitoring\<close>; dispatch, cadence and gauges of whole runs.
  \<^item> \<open>Minute_Scheduler\<close>: \<open>internal/adapters/scheduler/scheduler.go\<close>, the loop with the
    durations it gives to its timer; that runs start at boundaries follows from them.
  \<^item> \<open>Egress_Target\<close>: \<open>internal/adapters/target/target.go\<close>, the egress policy.
  \<^item> \<open>Http_Check\<close>: the HTTP request of \<open>runner.go\<close> with its variants, attempts and limits,
    and the redirects the client follows under the policy of the code.
    \<open>Runner_Checks\<close>: the checks of \<open>runner.go\<close> and the executors of
    \<open>executor_registry.go\<close>. \<open>Dns_Record\<close>: \<open>dns_record_checker.go\<close>. \<open>Domain_Lookup\<close>:
    \<open>internal/adapters/domainlookup/domainlookup.go\<close>.
  \<^item> \<open>Runner_Config\<close>: \<open>internal/config/config.go\<close>. \<open>Core_Client\<close>:
    \<open>internal/adapters/coreapi/client.go\<close>.
  \<^item> \<open>Health_Metrics\<close>: \<open>internal/adapters/health/operations.go\<close>. \<open>Worker_Main\<close>:
    \<open>main.go\<close> and \<open>health.go\<close>, the serving process around the controller: signal, drain
    deadline, the ordered steps of the shutdown, the end of the health server.
  \<^item> This theory: how the configuration and the client fit together.

  HOW STATE AND OPERATIONS CORRESPOND. A struct is a record with the prefixed names of its
  fields, an operation is a definition with the name of the Go function, an error is a value of
  a sum or an option. What runs concurrently is a step relation (\<open>step\<close>, \<open>slot_step\<close>,
  \<open>pool_step\<close>, \<open>process_step\<close>): one transition is one statement that touches shared state,
  and statements hold for every interleaving. Effects towards Core and the telemetry are lists in
  the order in which they happen. Integers of the code wrap where they can: counters are words,
  durations go through \<open>wrap64\<close>.

  WHAT IS A PARAMETER. Code outside the repository and the world: the network, DNS resolver and
  clock, \<open>url.Parse\<close>, \<open>encoding/json\<close>, \<open>net/http\<close>, the TLS handshake, \<open>miekg/dns\<close>,
  the ping command, random bytes. Where an answer may change between two requests, the model asks
  anew for each (the number of the attempt, the name of the candidate).

  BOUNDS AND FUEL. The loops of the code that are bounded by a constant carry it: at most two
  attempts for each of at most four variants of an HTTP target, four redirects of an attempt (the loop
  of the client ends because its policy refuses the fifth), two attempts of a callback, eight
  groups of an IPv6 address. The renewal loop of a lease takes the finite sequence of its timer
  events. No definition that stands for code of the repository needs fuel beyond these.

  NOT MODELLED, AND WHY. Logging, and \<open>Execution.String\<close>, which only feeds it. The wiring in
  constructors that only store their arguments (\<open>NewWithTelemetry\<close>, \<open>New\<close> of the domain
  lookup with its timeouts). The case of letters whose lower and upper case are both outside
  ASCII. The branch of \<open>runServe\<close> for a service other than the controller, which \<open>main\<close>
  never passes. An infinite response time from a ping output of more than \<open>10^305\<close> milliseconds.
\<close>

section \<open>The configuration and the client\<close>

text \<open>The client as \<open>main\<close> builds it.\<close>

definition configured_client :: "config \<Rightarrow> client" where
  "configured_client cfg =
     SetAPIKeyFile (cfg_WebGuardCoreAPIKeyFile cfg)
       (NewClientWithInstanceAPIPath (cfg_WebGuardCoreAPIURL cfg) (cfg_WebGuardCoreAPIKey cfg) (cfg_WebGuardLocation cfg)
          (cfg_WebGuardInstanceAPIBasePath cfg))"

text \<open>
  C26. A worker that is configured from the environment never sends a claim its own client
  rejects: with a location and an instance ID, the capacity and the batch size it asks for
  pass every check of \<open>ClaimMonitoringJobs\<close>, whatever the other variables hold.
\<close>

lemma configured_claim_is_valid:
  assumes "cfg = FromEnv getenv" "trim_space (cfg_WebGuardLocation cfg) \<noteq> []" "trim_space (cfg_WebGuardInstanceID cfg) \<noteq> []"
  shows "validateClaim (claimRequest cfg) = None"
proof -
  have "1 \<le> cfg_QueueDefaultWorkers cfg \<and> cfg_QueueDefaultWorkers cfg \<le> 64" "cfg_JobLeaseMaxBatch cfg \<le> 256"
    "1 \<le> cfg_JobLeaseMaxBatch cfg" "1 \<le> cfg_RunMaxConcurrency cfg"
    using clamp_bounds [of 1 64] clamp_bounds [of 1 256]
    by (simp_all add: assms(1) FromEnv_def Let_def maxQueueWorkers_def maxRunConcurrency_def maxJobLeaseBatch_def)
  then show ?thesis
    using assms(2,3) by (simp add: validateClaim_def claimRequest_def workerLimit_def maxClaimBatchSize_def Let_def min_def)
qed

lemma configured_claim_is_valid_witness:
  "let getenv = (\<lambda>k. if k = ''WEBGUARD_LOCATION'' then ''de'' else if k = ''WEBGUARD_INSTANCE_ID'' then ''i''
      else if k = ''QUEUE_DEFAULT_WORKERS'' then ''-7'' else [])
   in validateClaim (claimRequest (FromEnv getenv)) = None"
proof -
  let ?getenv = "\<lambda>k. if k = ''WEBGUARD_LOCATION'' then ''de'' else if k = ''WEBGUARD_INSTANCE_ID'' then ''i''
      else if k = ''QUEUE_DEFAULT_WORKERS'' then ''-7'' else []"
  have t: "trim_space ''de'' = ''de''" "trim_space ''i'' = ''i''" by code_simp+
  have "validateClaim (claimRequest (FromEnv ?getenv)) = None"
    by (rule configured_claim_is_valid [OF refl]) (simp_all add: FromEnv_def Let_def env_def t)
  then show ?thesis by (simp add: Let_def)
qed

text \<open>
  A worker that reports ready can talk to Core: its client has the supported path and a
  non-empty key and instance code, and asks for the monitorings of its own location, so the
  only reasons left for a request to be refused locally lie in the configured URL and in a payload
  that cannot be encoded.
\<close>

lemma ready_worker_can_request:
  assumes "IsReady (w_file w) cfg" "c = configured_client cfg"
  shows "cl_instanceAPIPath c = ''/api/instances'' \<and> (\<exists>key. configuredAPIKey w c = Inr key \<and> key \<noteq> []) \<and>
    cl_instanceCode c \<noteq> [] \<and> trim_space (cfg_WebGuardLocation cfg) = cl_instanceCode c \<and>
    (newRequest w c httpMethod (instanceAPIEndpoint c ending) query body = Inl err \<longrightarrow>
       cl_baseURL c = [] \<or> (case w_parse w (cl_baseURL c @ ''/api/instances'' @ ending) of
          None \<Rightarrow> err = Rejected ''invalid URL'' | Some e \<Rightarrow>
            checkEndpoint e = Some err \<or> \<not> pred_option (w_marshals w) body \<or> \<not> w_builds w httpMethod e query))"
proof -
  have c: "cl_apiKey c = trim_space (cfg_WebGuardCoreAPIKey cfg)" "cl_apiKeyFile c = trim_space (cfg_WebGuardCoreAPIKeyFile cfg)"
    "cl_instanceCode c = trim_space (cfg_WebGuardLocation cfg)"
    by (auto simp: assms(2) configured_client_def SetAPIKeyFile_def NewClientWithInstanceAPIPath_def NewClient_def
        SetInstanceAPIPath_def Let_def split: sum.split)
  have path: "cl_instanceAPIPath c = ''/api/instances''"
    using assms(1)
    by (auto simp: assms(2) configured_client_def IsReady_def isSupportedInstanceAPIBasePath_def SetAPIKeyFile_def
        NewClientWithInstanceAPIPath_def SetInstanceAPIPath_def normalizeInstanceAPIPath_def DefaultInstanceAPIBasePath_def
        Let_def split: if_splits)
  have key: "\<exists>key. configuredAPIKey w c = Inr key \<and> key \<noteq> []"
    using assms(1) by (auto simp: configuredAPIKey_def c IsReady_def Let_def split: if_splits option.splits)
  have loc: "cl_instanceCode c \<noteq> []"
    using assms(1) by (auto simp: c IsReady_def Let_def split: if_splits)
  from path key loc c(3) show ?thesis
    by (auto simp: newRequest_def instanceAPIEndpoint_def split: if_splits option.splits)
qed

lemma ready_worker_can_request_witness:
  "let cfg = (FromEnv (\<lambda>_. []))\<lparr>cfg_WebGuardCoreAPIKey := ''k'', cfg_WebGuardCoreAPIURL := ''https://core'', cfg_WebGuardLocation := ''de''\<rparr>;
       w = \<lparr>w_parse = (\<lambda>_. None), w_file = (\<lambda>_. None), w_marshals = (\<lambda>_. True), w_builds = (\<lambda>_ _ _. True)\<rparr>
   in \<exists>key. configuredAPIKey w (configured_client cfg) = Inr key \<and> key \<noteq> []"
proof -
  let ?cfg = "(FromEnv (\<lambda>_. []))\<lparr>cfg_WebGuardCoreAPIKey := ''k'', cfg_WebGuardCoreAPIURL := ''https://core'', cfg_WebGuardLocation := ''de''\<rparr>"
  let ?w = "\<lparr>w_parse = (\<lambda>_. None), w_file = (\<lambda>_. None), w_marshals = (\<lambda>_. True), w_builds = (\<lambda>_ _ _. True)\<rparr> :: world"
  have t: "trim_space ''k'' = ''k''" "trim_space ''https://core'' = ''https://core''" "trim_space ''de'' = ''de''"
    "trim_space [] = []" "to_lower [] = []" "trim_byte CHR ''/'' (trim_space ''/api/instances'') = ''api/instances''"
    by code_simp+
  have "IsReady (w_file ?w) ?cfg"
    by (simp add: IsReady_def FromEnv_def Let_def env_def envBool_def t isSupportedInstanceAPIBasePath_def)
  from ready_worker_can_request [OF this refl] show ?thesis by (auto simp: Let_def)
qed

end
